(* ===== verification/Prelude.thy ===== *)
theory Prelude
  imports Main "HOL-Library.Word" "HOL-Library.List_Lexorder" "HOL-Library.Char_ord"
    "HOL-Library.Sublist"
begin

text \<open>
  The facts every component shares: the collections of rewrite rules that carry the proofs,
  and lemmas on lists and on machine integers that no component owns.
  \<open>go_simps\<close> evaluates effectful Go code (calls, sequencing, early returns) and
  \<open>emits_intros\<close> derives which external calls a piece of code can make.
\<close>

named_theorems go_simps \<open>symbolic evaluation of effectful Go code\<close>
named_theorems emits_intros \<open>which external calls a piece of code can make\<close>

section \<open>Lists\<close>

lemma list_all_append_iff [simp]: "list_all P (xs @ ys) \<longleftrightarrow> list_all P xs \<and> list_all P ys"
  by (simp add: list_all_iff ball_Un)

lemma list_all_mono_imp: "list_all P xs \<Longrightarrow> (\<And>x. P x \<Longrightarrow> Q x) \<Longrightarrow> list_all Q xs"
  by (simp add: list_all_iff)

section \<open>Numbers kept at their width\<close>

text \<open>Go's \<open>int\<close> and \<open>int64\<close> are 64 bits wide on the platforms the operator is built for.\<close>

type_synonym int64 = "64 word"

lemma sint_int64_bounds: "- (2 ^ 63) \<le> sint (x :: int64)" "sint (x :: int64) < 2 ^ 63"
  using sint_greater_eq [of x] sint_less [of x] by simp_all

lemma sint_of_int_int64:
  "- (2 ^ 63) \<le> i \<Longrightarrow> i < 2 ^ 63 \<Longrightarrow> sint (word_of_int i :: int64) = i"
  by (simp add: signed_take_bit_int_eq_self_iff sint_sbintrunc' del: of_int_eq_numeral_iff)

lemma sint_plus1_int64:
  fixes i j :: int64
  assumes "sint i < sint j"
  shows "sint (i + 1) = sint i + 1"
proof -
  from assms sint_int64_bounds(2) [of j] have "- (2 ^ 63) \<le> sint i + 1" "sint i + 1 < 2 ^ 63"
    using sint_int64_bounds(1) [of i] by linarith+
  then show ?thesis by (simp add: signed_take_bit_int_eq_self_iff sint_word_ariths)
qed

end
