(* ===== verification/Go_Base.thy ===== *)
theory Go_Base
  imports Prelude
begin

text \<open>
  What the operator uses of Go itself: code that can panic, slices that may be nil, error
  values with their dynamic types, and the string functions and formatting verbs of the
  standard library that build the operator's keys, paths and messages.
\<close>

section \<open>Code that runs in a state and may panic\<close>

text \<open>
  A Go function body maps the state it starts in to the value it returns, or the panic that
  unwinds it, and the state it leaves. A panic does not undo effects, so the state is kept
  in both cases.
\<close>

datatype 'a panicky = Returns 'a | Panics string

type_synonym ('s, 'a) go = "'s \<Rightarrow> 'a panicky \<times> 's"

definition ret :: "'a \<Rightarrow> ('s, 'a) go" where
  "ret x = (\<lambda>s. (Returns x, s))"

definition panic :: "string \<Rightarrow> ('s, 'a) go" where
  "panic m = (\<lambda>s. (Panics m, s))"

definition andthen :: "('s, 'a) go \<Rightarrow> ('a \<Rightarrow> ('s, 'b) go) \<Rightarrow> ('s, 'b) go" where
  "andthen m f = (\<lambda>s. case m s of (Returns x, s') \<Rightarrow> f x s' | (Panics e, s') \<Rightarrow> (Panics e, s'))"

definition lift_panicky :: "'a panicky \<Rightarrow> ('s, 'a) go" where
  "lift_panicky r = (\<lambda>s. (r, s))"

lemma ret_apply [go_simps]: "ret x s = (Returns x, s)"
  by (simp add: ret_def)

lemma panic_apply [go_simps]: "panic m s = (Panics m, s)"
  by (simp add: panic_def)

lemma lift_panicky_apply [go_simps]: "lift_panicky r s = (r, s)"
  by (simp add: lift_panicky_def)

lemma andthen_apply:
  "andthen m f s = (case m s of (Returns x, s') \<Rightarrow> f x s' | (Panics e, s') \<Rightarrow> (Panics e, s'))"
  by (simp add: andthen_def)

lemma andthen_returns [go_simps]: "m s = (Returns x, s') \<Longrightarrow> andthen m f s = f x s'"
  by (simp add: andthen_def)

lemma andthen_panics [go_simps]: "m s = (Panics e, s') \<Longrightarrow> andthen m f s = (Panics e, s')"
  by (simp add: andthen_def)

lemma andthen_ret [simp]: "andthen (ret x) f = f x"
  by (simp add: andthen_def ret_def)

lemma andthen_ret_right [simp]: "andthen m ret = m"
  by (auto simp: andthen_def ret_def fun_eq_iff split: prod.splits panicky.splits)

lemma andthen_assoc: "andthen (andthen m f) g = andthen m (\<lambda>x. andthen (f x) g)"
  by (auto simp: andthen_def fun_eq_iff split: prod.splits panicky.splits)

lemma andthen_ReturnsE:
  assumes "andthen m f s = (Returns y, t)"
  obtains x s' where "m s = (Returns x, s')" "f x s' = (Returns y, t)"
  using assms by (auto simp: andthen_def split: prod.splits panicky.splits)

text \<open>
  \<open>holds_after m Q E s\<close>: started in \<open>s\<close>, the code \<open>m\<close> either returns with \<open>Q\<close> or panics
  with \<open>E\<close>. It is the weakest precondition of \<open>m\<close>; sequencing composes it.
\<close>

definition holds_after ::
    "('s, 'a) go \<Rightarrow> ('a \<Rightarrow> 's \<Rightarrow> bool) \<Rightarrow> (string \<Rightarrow> 's \<Rightarrow> bool) \<Rightarrow> 's \<Rightarrow> bool" where
  "holds_after m Q E s =
     (case m s of (Returns x, s') \<Rightarrow> Q x s' | (Panics e, s') \<Rightarrow> E e s')"

lemma holds_after_ret [go_simps]: "holds_after (ret x) Q E s = Q x s"
  by (simp add: holds_after_def ret_def)

lemma holds_after_panic [go_simps]: "holds_after (panic e) Q E s = E e s"
  by (simp add: holds_after_def panic_def)

lemma holds_after_andthen [go_simps]:
  "holds_after (andthen m f) Q E s = holds_after m (\<lambda>x. holds_after (f x) Q E) E s"
  by (auto simp: holds_after_def andthen_def split: prod.splits panicky.splits)

lemma holds_after_mono:
  "holds_after m Q E s \<Longrightarrow> (\<And>x t. Q x t \<Longrightarrow> Q' x t) \<Longrightarrow> (\<And>e t. E e t \<Longrightarrow> E' e t)
   \<Longrightarrow> holds_after m Q' E' s"
  by (auto simp: holds_after_def split: prod.splits panicky.splits)

lemma holds_after_returnsD:
  "holds_after m Q E s \<Longrightarrow> m s = (Returns x, t) \<Longrightarrow> Q x t"
  by (simp add: holds_after_def)

lemma holds_after_panicsD:
  "holds_after m Q E s \<Longrightarrow> m s = (Panics e, t) \<Longrightarrow> E e t"
  by (simp add: holds_after_def)

text \<open>The messages of Go's run-time panics.\<close>

definition nil_dereference :: string where
  "nil_dereference = ''invalid memory address or nil pointer dereference''"

definition index_out_of_range :: string where
  "index_out_of_range = ''index out of range''"

text \<open>Reading a field through a pointer, and the first element of a slice of pointers.\<close>

fun deref :: "'a option \<Rightarrow> 'a panicky" where
  "deref None = Panics nil_dereference"
| "deref (Some x) = Returns x"

fun index0 :: "'a list \<Rightarrow> 'a panicky" where
  "index0 [] = Panics index_out_of_range"
| "index0 (x # xs) = Returns x"

section \<open>Slices\<close>

datatype 'a slice = NilSlice | Slice "'a list"

fun elems :: "'a slice \<Rightarrow> 'a list" where
  "elems NilSlice = []"
| "elems (Slice xs) = xs"

section \<open>Strings\<close>

definition newline :: char where
  "newline = char_of (10 :: nat)"

definition TrimSuffix :: "string \<Rightarrow> string \<Rightarrow> string" where
  "TrimSuffix s suf = (if suffix suf s then take (length s - length suf) s else s)"

text \<open>\<open>strings.Split\<close> with a separator of one byte.\<close>

fun split_at_byte :: "char \<Rightarrow> string \<Rightarrow> string list" where
  "split_at_byte c [] = [[]]"
| "split_at_byte c (x # xs) =
     (if x = c then [] # split_at_byte c xs
      else (case split_at_byte c xs of [] \<Rightarrow> [[x]] | p # ps \<Rightarrow> (x # p) # ps))"

lemma split_at_byte_ne [simp]: "split_at_byte c xs \<noteq> []"
  by (induction xs) (auto split: list.splits)

lemma split_at_byte_none: "c \<notin> set xs \<Longrightarrow> split_at_byte c xs = [xs]"
  by (induction xs) auto

lemma split_at_byte_append:
  "c \<notin> set xs \<Longrightarrow> split_at_byte c (xs @ c # ys) = xs # split_at_byte c ys"
  by (induction xs) auto

lemma length_split_at_byte: "length (split_at_byte c xs) = Suc (count_list xs c)"
  by (induction xs) (auto split: list.splits)

lemma split_at_byte_no_sep: "p \<in> set (split_at_byte c xs) \<Longrightarrow> c \<notin> set p"
  by (induction xs arbitrary: p) (auto split: list.splits if_splits)

text \<open>\<open>path.Base\<close>: the last element of a slash-separated path.\<close>

definition slash :: char where
  "slash = CHR ''/''"

definition path_base :: "string \<Rightarrow> string" where
  "path_base p =
     (if p = [] then ''.''
      else let q = rev (dropWhile (\<lambda>c. c = slash) (rev p));
               b = rev (takeWhile (\<lambda>c. c \<noteq> slash) (rev q))
           in if b = [] then ''/'' else b)"

lemma path_base_no_slash:
  assumes "p \<noteq> []" "slash \<notin> set p"
  shows "path_base p = p"
proof -
  from assms have "dropWhile (\<lambda>c. c = slash) (rev p) = rev p"
    by (cases "rev p") (auto simp: rev_swap)
  moreover from assms have "takeWhile (\<lambda>c. c \<noteq> slash) (rev p) = rev p"
    by (auto simp: takeWhile_eq_all_conv)
  ultimately show ?thesis
    using assms by (simp add: path_base_def del: takeWhile_eq_all_conv)
qed

lemma path_base_last:
  assumes "b \<noteq> []" "slash \<notin> set b"
  shows "path_base (d @ slash # b) = b"
proof -
  obtain x xs where b: "rev b = x # xs" "x \<noteq> slash"
    using assms by (cases "rev b") (auto simp: rev_swap)
  have "takeWhile (\<lambda>c. c \<noteq> slash) (rev b @ slash # rev d) = rev b"
    using assms by (subst takeWhile_append2) auto
  with b assms show ?thesis by (simp add: path_base_def)
qed

section \<open>Formatting\<close>

definition digit :: "int \<Rightarrow> char" where
  "digit n = char_of (48 + n)"

text \<open>Decimal digits of a non-negative number.\<close>

function show_dec :: "int \<Rightarrow> string" where
  "show_dec n = (if n < 10 then [digit n] else show_dec (n div 10) @ [digit (n mod 10)])"
  by pat_completeness auto
termination
  by (relation "measure nat") auto

declare show_dec.simps [simp del]

definition fmt_d :: "int \<Rightarrow> string" where
  "fmt_d i = (if i < 0 then CHR ''-'' # show_dec (- i) else show_dec i)"

text \<open>
  The verb \<open>%q\<close>. Bytes from 128 on are kept, which is what \<open>strconv.Quote\<close> does with
  printable UTF-8 text.
\<close>

definition hex_digit :: "nat \<Rightarrow> char" where
  "hex_digit n = char_of (if n < 10 then 48 + n else 87 + n)"

definition quote_byte :: "char \<Rightarrow> string" where
  "quote_byte c =
     (let n = of_char c :: nat in
      if n = 34 \<or> n = 92 then [char_of (92 :: nat), c]
      else if n = 7 then [char_of (92 :: nat), CHR ''a'']
      else if n = 8 then [char_of (92 :: nat), CHR ''b'']
      else if n = 12 then [char_of (92 :: nat), CHR ''f'']
      else if n = 10 then [char_of (92 :: nat), CHR ''n'']
      else if n = 13 then [char_of (92 :: nat), CHR ''r'']
      else if n = 9 then [char_of (92 :: nat), CHR ''t'']
      else if n = 11 then [char_of (92 :: nat), CHR ''v'']
      else if n < 32 \<or> n = 127
        then [char_of (92 :: nat), CHR ''x'', hex_digit (n div 16), hex_digit (n mod 16)]
      else [c])"

definition fmt_q :: "string \<Rightarrow> string" where
  "fmt_q s = CHR 0x22 # concat (map quote_byte s) @ [CHR 0x22]"

text \<open>
  \<open>time.Duration.String\<close> of a number of nanoseconds: hours, minutes and seconds with a
  fraction whose trailing zeros are dropped, or a smaller unit below one second.
\<close>

fun pad_digits :: "nat \<Rightarrow> int \<Rightarrow> string" where
  "pad_digits 0 n = []"
| "pad_digits (Suc k) n = pad_digits k (n div 10) @ [digit (n mod 10)]"

definition fmt_frac :: "nat \<Rightarrow> int \<Rightarrow> string" where
  "fmt_frac prec v =
     (let ds = rev (dropWhile (\<lambda>c. c = digit 0) (rev (pad_digits prec (v mod 10 ^ prec))))
      in if ds = [] then [] else CHR ''.'' # ds)"

definition fmt_seconds :: "int \<Rightarrow> string" where
  "fmt_seconds u =
     (let secs = u div 1000000000; mins = secs div 60; hours = mins div 60;
          s = show_dec (secs mod 60) @ fmt_frac 9 u @ ''s''
      in if mins = 0 then s
         else if hours = 0 then show_dec mins @ ''m'' @ s
         else show_dec hours @ ''h'' @ show_dec (mins mod 60) @ ''m'' @ s)"

definition fmt_abs_duration :: "int \<Rightarrow> string" where
  "fmt_abs_duration u =
     (if u = 0 then ''0s''
      else if u < 1000 then show_dec u @ ''ns''
      else if u < 1000000 then
        show_dec (u div 1000) @ fmt_frac 3 u @ [char_of (194 :: nat), char_of (181 :: nat)] @ ''s''
      else if u < 1000000000 then show_dec (u div 1000000) @ fmt_frac 6 u @ ''ms''
      else fmt_seconds u)"

definition fmt_duration :: "int \<Rightarrow> string" where
  "fmt_duration d =
     (if d < 0 then CHR ''-'' # fmt_abs_duration (- d) else fmt_abs_duration d)"

section \<open>Errors\<close>

text \<open>
  An \<open>error\<close> value with the dynamic types the operator distinguishes: \<open>*googleapi.Error\<close> from
  the compute API, an error with an API status from the Kubernetes API, and every other error
  (\<open>errors.New\<close>, \<open>fmt.Errorf\<close>, network errors), of which only the text matters. A nil error is
  \<open>None\<close>.
\<close>

record error_item =
  item_reason :: string
  item_message :: string

record googleapi_error =
  g_code :: int
  g_message :: string
  g_body :: string
  g_errors :: "error_item list"

datatype go_error =
    GoogleAPIError googleapi_error
  | StatusError string string
  | ErrorString string

text \<open>\<open>strings.TrimSpace\<close>, on ASCII space characters.\<close>

definition is_space :: "char \<Rightarrow> bool" where
  "is_space c = ((of_char c :: nat) \<in> {9, 10, 11, 12, 13, 32})"

definition TrimSpace :: "string \<Rightarrow> string" where
  "TrimSpace s = rev (dropWhile is_space (rev (dropWhile is_space s)))"

definition googleapi_Error :: "googleapi_error \<Rightarrow> string" where
  "googleapi_Error e =
     (if g_errors e = [] \<and> g_message e = [] then
        ''googleapi: got HTTP response code '' @ fmt_d (g_code e) @ '' with body: '' @ g_body e
      else
        let buf = ''googleapi: Error '' @ fmt_d (g_code e) @ '': '' @ g_message e in
        case g_errors e of
          [] \<Rightarrow> TrimSpace buf
        | i # is \<Rightarrow>
            if is = [] \<and> item_message i = g_message e then buf @ '', '' @ item_reason i
            else buf @ [newline] @ ''More details:'' @ [newline] @
              concat (map (\<lambda>v. ''Reason: '' @ item_reason v @ '', Message: '' @ item_message v
                @ [newline]) (g_errors e)))"

fun Error :: "go_error \<Rightarrow> string" where
  "Error (GoogleAPIError e) = googleapi_Error e"
| "Error (StatusError reason msg) = msg"
| "Error (ErrorString s) = s"

text \<open>\<open>fmt.Errorf(lead + "%v", err)\<close>.\<close>

definition errorf_v :: "string \<Rightarrow> go_error \<Rightarrow> go_error" where
  "errorf_v lead e = ErrorString (lead @ Error e)"

lemma Error_errorf_v [simp]: "Error (errorf_v lead e) = lead @ Error e"
  by (simp add: errorf_v_def)

text \<open>\<open>kerrors.IsNotFound\<close>, which is false of a nil error.\<close>

fun ReasonForError :: "go_error option \<Rightarrow> string" where
  "ReasonForError (Some (StatusError reason msg)) = reason"
| "ReasonForError _ = ''''"

definition IsNotFound :: "go_error option \<Rightarrow> bool" where
  "IsNotFound err = (ReasonForError err = ''NotFound'')"

lemma IsNotFound_None [simp]: "\<not> IsNotFound None"
  by (simp add: IsNotFound_def)

text \<open>The type assertion \<open>err.(*googleapi.Error)\<close>: the code it carries, if it is one.\<close>

fun as_googleapi :: "go_error \<Rightarrow> int option" where
  "as_googleapi (GoogleAPIError e) = Some (g_code e)"
| "as_googleapi _ = None"

definition StatusNotFound :: int where
  "StatusNotFound = 404"

end
