(* ===== verification/Api_Types.thy ===== *)
theory Api_Types
  imports Go_Base
begin

text \<open>
  The API objects of \<open>pkg/apis/virtualmachines/v1alpha1/types.go\<close>, as records field by field,
  with the part of \<open>ObjectMeta\<close> the operator reads, writes or passes on. Slices keep the
  difference between nil and empty, pointers are options, \<open>int64\<close> is a 64-bit word, and a
  \<open>metav1.Time\<close> is the number of nanoseconds since Go's zero time.
\<close>

section \<open>Metadata\<close>

type_synonym gotime = int

record type_meta =
  kind :: string
  apiVersion :: string

record owner_reference =
  or_apiVersion :: string
  or_kind :: string
  or_name :: string
  or_uid :: string

record object_meta =
  om_name :: string
  om_namespace :: string
  om_uid :: string
  om_resourceVersion :: string
  om_generation :: int64
  om_creationTimestamp :: gotime
  om_deletionTimestamp :: "gotime option"
  om_labels :: "(string \<times> string) slice"
  om_annotations :: "(string \<times> string) slice"
  om_ownerReferences :: "owner_reference slice"
  om_finalizers :: "string slice"

text \<open>\<open>Time.IsZero\<close>, which also accepts a nil pointer.\<close>

fun IsZero :: "gotime option \<Rightarrow> bool" where
  "IsZero None = True"
| "IsZero (Some t) = (t = 0)"

section \<open>The virtual machine\<close>

definition VirtualMachineFinalizer :: string where
  "VirtualMachineFinalizer = ''virtualmachines.ci.openshift.io''"

record disk_spec =
  sizeGb :: int64
  disk_type :: string

record boot_disk_spec = disk_spec +
  imageFamily :: string

record vm_spec =
  machineType :: string
  bootDisk :: boot_disk_spec
  disks :: "disk_spec slice"

record processing_state =
  processingPhase :: string
  message :: string

record object_reference =
  ref_kind :: string
  ref_namespace :: string
  ref_name :: string
  ref_uid :: string

record vm_status =
  state :: processing_state
  selfLink :: string
  secretRef :: object_reference

record virtual_machine =
  type_meta :: type_meta
  metadata :: object_meta
  spec :: vm_spec
  status :: vm_status

definition ProcessingPhasePending :: string where
  "ProcessingPhasePending = ''pending''"
definition ProcessingPhaseProvisioning :: string where
  "ProcessingPhaseProvisioning = ''provisioning''"
definition ProcessingPhaseProvisioned :: string where
  "ProcessingPhaseProvisioned = ''provisioned''"
definition ProcessingPhaseError :: string where
  "ProcessingPhaseError = ''error''"

abbreviation vm_name :: "virtual_machine \<Rightarrow> string" where
  "vm_name vm \<equiv> om_name (metadata vm)"

abbreviation vm_namespace :: "virtual_machine \<Rightarrow> string" where
  "vm_namespace vm \<equiv> om_namespace (metadata vm)"

abbreviation vm_finalizers :: "virtual_machine \<Rightarrow> string list" where
  "vm_finalizers vm \<equiv> elems (om_finalizers (metadata vm))"

section \<open>Semantic equality\<close>

text \<open>
  \<open>equality.Semantic.DeepEqual\<close> on the types of the spec: structs field by field, numbers and
  strings by \<open>==\<close>, and slices element by element, where a nil slice equals an empty one.
\<close>

definition disk_DeepEqual :: "disk_spec \<Rightarrow> disk_spec \<Rightarrow> bool" where
  "disk_DeepEqual a b = (sizeGb a = sizeGb b \<and> disk_type a = disk_type b)"

definition boot_disk_DeepEqual :: "boot_disk_spec \<Rightarrow> boot_disk_spec \<Rightarrow> bool" where
  "boot_disk_DeepEqual a b =
     (imageFamily a = imageFamily b \<and>
      disk_DeepEqual (disk_spec.truncate a) (disk_spec.truncate b))"

fun all_DeepEqual :: "('a \<Rightarrow> 'a \<Rightarrow> bool) \<Rightarrow> 'a list \<Rightarrow> 'a list \<Rightarrow> bool" where
  "all_DeepEqual eq (x # xs) (y # ys) = (if \<not> eq x y then False else all_DeepEqual eq xs ys)"
| "all_DeepEqual eq _ _ = True"

definition slice_DeepEqual :: "('a \<Rightarrow> 'a \<Rightarrow> bool) \<Rightarrow> 'a slice \<Rightarrow> 'a slice \<Rightarrow> bool" where
  "slice_DeepEqual eq v1 v2 =
     (if (v1 = NilSlice \<or> length (elems v1) = 0) \<noteq> (v2 = NilSlice \<or> length (elems v2) = 0)
      then False
      else if v1 = NilSlice \<or> length (elems v1) = 0 then True
      else if length (elems v1) \<noteq> length (elems v2) then False
      else all_DeepEqual eq (elems v1) (elems v2))"

definition spec_DeepEqual :: "vm_spec \<Rightarrow> vm_spec \<Rightarrow> bool" where
  "spec_DeepEqual a b =
     (machineType a = machineType b \<and> boot_disk_DeepEqual (bootDisk a) (bootDisk b) \<and>
      slice_DeepEqual disk_DeepEqual (disks a) (disks b))"

lemma disk_DeepEqual_iff [simp]: "disk_DeepEqual a b \<longleftrightarrow> a = b"
  by (cases a; cases b) (simp add: disk_DeepEqual_def)

lemma boot_disk_DeepEqual_iff [simp]: "boot_disk_DeepEqual a b \<longleftrightarrow> a = b"
  by (cases a; cases b) (auto simp: boot_disk_DeepEqual_def disk_spec.defs)

lemma all_DeepEqual_eq:
  "length xs = length ys \<Longrightarrow> all_DeepEqual (=) xs ys \<longleftrightarrow> xs = ys"
  by (induction "(=) :: 'a \<Rightarrow> 'a \<Rightarrow> bool" xs ys rule: all_DeepEqual.induct) auto

lemma slice_DeepEqual_elems:
  assumes "\<And>x y. eq x y \<longleftrightarrow> x = y"
  shows "slice_DeepEqual eq v1 v2 \<longleftrightarrow> elems v1 = elems v2"
proof -
  have "eq = (=)" using assms by (simp add: fun_eq_iff)
  then show ?thesis
    by (cases v1; cases v2) (auto simp: slice_DeepEqual_def all_DeepEqual_eq)
qed

text \<open>
  Two specs are semantically equal exactly when they agree on every field, where of the slice
  of disks only the elements count.
\<close>

lemma spec_DeepEqual_iff:
  "spec_DeepEqual a b \<longleftrightarrow>
     machineType a = machineType b \<and> bootDisk a = bootDisk b \<and> elems (disks a) = elems (disks b)"
  by (simp add: spec_DeepEqual_def slice_DeepEqual_elems)

end
