(* ===== verification/Cloud_Env.thy ===== *)
theory Cloud_Env
  imports Api_Types
begin

text \<open>
  The world around the operator: the compute API behind the \<open>GCEClient\<close> interface, the
  Kubernetes API, entropy, the network and the clock. Each service is a parameter: a record of
  functions on a state of the environment the operator cannot see, which may change in any way
  between two calls. A call reads and changes that state, takes some time, and is recorded in
  the history with its arguments and results. The history is what safety properties speak of;
  the code never reads it.
\<close>

section \<open>The objects of the compute API\<close>

text \<open>
  The fields of the types of \<open>google.golang.org/api/compute/v1\<close> that the operator reads or
  sets. Slices of pointers keep their elements as options.
\<close>

record op_error_item =
  oe_Code :: string
  oe_Message :: string

record operation =
  op_Name :: string
  op_OperationType :: string
  op_Status :: string
  op_Zone :: string
  op_Progress :: int64
  op_StatusMessage :: string
  op_Error :: "op_error_item option list option"

record metadata_item =
  mi_Key :: string
  mi_Value :: "string option"

record gce_metadata =
  md_Items :: "metadata_item option list"

record access_config =
  ac_Type :: string
  ac_Name :: string
  ac_NatIP :: string

record network_interface =
  ni_Network :: string
  ni_AccessConfigs :: "access_config option list"

record initialize_params =
  ip_SourceImage :: string
  ip_DiskSizeGb :: int64
  ip_DiskType :: string

record attached_disk =
  ad_AutoDelete :: bool
  ad_Boot :: bool
  ad_InitializeParams :: "initialize_params option"

record gce_instance =
  in_Name :: string
  in_MachineType :: string
  in_Metadata :: "gce_metadata option"
  in_CanIpForward :: bool
  in_NetworkInterfaces :: "network_interface option list"
  in_Disks :: "attached_disk option list"

section \<open>Secrets\<close>

record secret =
  sec_name :: string
  sec_namespace :: string
  sec_ownerReferences :: "owner_reference list"
  sec_stringData :: "(string \<times> string) list"

section \<open>Configuration\<close>

record ssh_connection_config =
  Retries :: int64
  DelaySeconds :: int64
  TimeoutSeconds :: int64

record configuration =
  Project :: string
  Zone :: string
  SSHConnectionConfig :: ssh_connection_config

section \<open>Calls and their history\<close>

datatype call =
    CInstancesDelete string string string "operation option" "go_error option"
  | CInstancesGet string string string "gce_instance option" "go_error option"
  | CInstancesInsert string string gce_instance "operation option" "go_error option"
  | CSetMetadata string string string gce_metadata "operation option" "go_error option"
  | CZoneOperationsGet string string string "operation option" "go_error option"
  | CVMGet string string virtual_machine "go_error option"
  | CVMUpdate string virtual_machine "go_error option"
  | CVMUpdateStatus string virtual_machine "go_error option"
  | CSecretGet string string "go_error option"
  | CSecretCreate string secret "go_error option"
  | CGenerateKey int "go_error option"
  | CDial string string int64 "go_error option"
  | CSshConn string string "go_error option"
  | CSshClose "go_error option"
  | CSleep int64

record 'e env =
  InstancesDelete :: "string \<Rightarrow> string \<Rightarrow> string \<Rightarrow> 'e \<Rightarrow> (operation option \<times> go_error option) \<times> 'e"
  InstancesGet :: "string \<Rightarrow> string \<Rightarrow> string \<Rightarrow> 'e \<Rightarrow> (gce_instance option \<times> go_error option) \<times> 'e"
  InstancesInsert :: "string \<Rightarrow> string \<Rightarrow> gce_instance \<Rightarrow> 'e \<Rightarrow> (operation option \<times> go_error option) \<times> 'e"
  SetMetadata ::
    "string \<Rightarrow> string \<Rightarrow> string \<Rightarrow> gce_metadata \<Rightarrow> 'e \<Rightarrow> (operation option \<times> go_error option) \<times> 'e"
  ZoneOperationsGet :: "string \<Rightarrow> string \<Rightarrow> string \<Rightarrow> 'e \<Rightarrow> (operation option \<times> go_error option) \<times> 'e"
  VMGet :: "string \<Rightarrow> string \<Rightarrow> 'e \<Rightarrow> (virtual_machine \<times> go_error option) \<times> 'e"
  VMUpdate :: "string \<Rightarrow> virtual_machine \<Rightarrow> 'e \<Rightarrow> go_error option \<times> 'e"
  VMUpdateStatus :: "string \<Rightarrow> virtual_machine \<Rightarrow> 'e \<Rightarrow> go_error option \<times> 'e"
  SecretGet :: "string \<Rightarrow> string \<Rightarrow> 'e \<Rightarrow> go_error option \<times> 'e"
  SecretCreate :: "string \<Rightarrow> secret \<Rightarrow> 'e \<Rightarrow> go_error option \<times> 'e"
  GenerateKey :: "int \<Rightarrow> 'e \<Rightarrow> (string \<times> go_error option) \<times> 'e"
  PEMEncode :: "string \<Rightarrow> string \<times> go_error option"
  NewPublicKey :: "string \<Rightarrow> string \<times> go_error option"
  MarshalAuthorizedKey :: "string \<Rightarrow> string"
  ParsePrivateKey :: "string \<Rightarrow> string \<times> go_error option"
  DialTimeout :: "string \<Rightarrow> string \<Rightarrow> int64 \<Rightarrow> 'e \<Rightarrow> (string \<times> go_error option) \<times> 'e"
  NewClientConn :: "string \<Rightarrow> string \<Rightarrow> string \<Rightarrow> string \<Rightarrow> 'e \<Rightarrow> (string \<times> go_error option) \<times> 'e"
  CloseConn :: "string \<Rightarrow> 'e \<Rightarrow> go_error option \<times> 'e"
  pick_done :: "'e \<Rightarrow> bool"
  lag :: "'e \<Rightarrow> nat"

text \<open>
  \<open>lag\<close> is the time the last call took, in nanoseconds, and \<open>pick_done\<close> the choice the run-time
  makes when two channels of a select are ready at the same instant.
\<close>

record 'e world =
  ext :: 'e
  clock :: int
  hist :: "call list"

definition call_ext ::
    "'e env \<Rightarrow> ('e \<Rightarrow> 'r \<times> 'e) \<Rightarrow> ('r \<Rightarrow> call) \<Rightarrow> ('e world, 'r) go" where
  "call_ext env f ev = (\<lambda>w.
     let (r, e) = f (ext w)
     in (Returns r, w\<lparr>ext := e, clock := clock w + int (lag env e), hist := hist w @ [ev r]\<rparr>))"

definition gce_InstancesDelete ::
    "'e env \<Rightarrow> string \<Rightarrow> string \<Rightarrow> string \<Rightarrow> ('e world, operation option \<times> go_error option) go" where
  "gce_InstancesDelete env project zone targetInstance =
     call_ext env (InstancesDelete env project zone targetInstance)
       (\<lambda>(op, err). CInstancesDelete project zone targetInstance op err)"

definition gce_InstancesGet ::
    "'e env \<Rightarrow> string \<Rightarrow> string \<Rightarrow> string \<Rightarrow> ('e world, gce_instance option \<times> go_error option) go" where
  "gce_InstancesGet env project zone inst =
     call_ext env (InstancesGet env project zone inst)
       (\<lambda>(i, err). CInstancesGet project zone inst i err)"

definition gce_InstancesInsert ::
    "'e env \<Rightarrow> string \<Rightarrow> string \<Rightarrow> gce_instance \<Rightarrow> ('e world, operation option \<times> go_error option) go" where
  "gce_InstancesInsert env project zone inst =
     call_ext env (InstancesInsert env project zone inst)
       (\<lambda>(op, err). CInstancesInsert project zone inst op err)"

definition gce_SetMetadata ::
    "'e env \<Rightarrow> string \<Rightarrow> string \<Rightarrow> string \<Rightarrow> gce_metadata \<Rightarrow>
     ('e world, operation option \<times> go_error option) go" where
  "gce_SetMetadata env project zone inst md =
     call_ext env (SetMetadata env project zone inst md)
       (\<lambda>(op, err). CSetMetadata project zone inst md op err)"

definition gce_ZoneOperationsGet ::
    "'e env \<Rightarrow> string \<Rightarrow> string \<Rightarrow> string \<Rightarrow> ('e world, operation option \<times> go_error option) go" where
  "gce_ZoneOperationsGet env project zone operation =
     call_ext env (ZoneOperationsGet env project zone operation)
       (\<lambda>(op, err). CZoneOperationsGet project zone operation op err)"

definition vms_Get ::
    "'e env \<Rightarrow> string \<Rightarrow> string \<Rightarrow> ('e world, virtual_machine \<times> go_error option) go" where
  "vms_Get env ns name = call_ext env (VMGet env ns name) (\<lambda>(vm, err). CVMGet ns name vm err)"

definition vms_Update ::
    "'e env \<Rightarrow> string \<Rightarrow> virtual_machine \<Rightarrow> ('e world, go_error option) go" where
  "vms_Update env ns vm = call_ext env (VMUpdate env ns vm) (CVMUpdate ns vm)"

definition vms_UpdateStatus ::
    "'e env \<Rightarrow> string \<Rightarrow> virtual_machine \<Rightarrow> ('e world, go_error option) go" where
  "vms_UpdateStatus env ns vm = call_ext env (VMUpdateStatus env ns vm) (CVMUpdateStatus ns vm)"

definition secrets_Get :: "'e env \<Rightarrow> string \<Rightarrow> string \<Rightarrow> ('e world, go_error option) go" where
  "secrets_Get env ns name = call_ext env (SecretGet env ns name) (CSecretGet ns name)"

definition secrets_Create :: "'e env \<Rightarrow> string \<Rightarrow> secret \<Rightarrow> ('e world, go_error option) go" where
  "secrets_Create env ns s = call_ext env (SecretCreate env ns s) (CSecretCreate ns s)"

definition rsa_GenerateKey :: "'e env \<Rightarrow> int \<Rightarrow> ('e world, string \<times> go_error option) go" where
  "rsa_GenerateKey env bits = call_ext env (GenerateKey env bits) (\<lambda>(k, err). CGenerateKey bits err)"

definition net_DialTimeout ::
    "'e env \<Rightarrow> string \<Rightarrow> string \<Rightarrow> int64 \<Rightarrow> ('e world, string \<times> go_error option) go" where
  "net_DialTimeout env network address timeout =
     call_ext env (DialTimeout env network address timeout)
       (\<lambda>(conn, err). CDial network address timeout err)"

definition ssh_NewClientConn ::
    "'e env \<Rightarrow> string \<Rightarrow> string \<Rightarrow> string \<Rightarrow> string \<Rightarrow> ('e world, string \<times> go_error option) go" where
  "ssh_NewClientConn env conn addr user signer =
     call_ext env (NewClientConn env conn addr user signer) (\<lambda>(c, err). CSshConn addr user err)"

definition ssh_Close :: "'e env \<Rightarrow> string \<Rightarrow> ('e world, go_error option) go" where
  "ssh_Close env c = call_ext env (CloseConn env c) CSshClose"

text \<open>\<open>time.Sleep\<close> returns immediately for a duration that is not positive.\<close>

definition time_Sleep :: "'e env \<Rightarrow> int64 \<Rightarrow> ('e world, unit) go" where
  "time_Sleep env d = (\<lambda>w.
     (Returns (), w\<lparr>clock := clock w + max 0 (sint d) + int (lag env (ext w)),
        hist := hist w @ [CSleep d]\<rparr>))"

lemmas client_defs = gce_InstancesDelete_def gce_InstancesGet_def gce_InstancesInsert_def
  gce_SetMetadata_def gce_ZoneOperationsGet_def vms_Get_def vms_Update_def vms_UpdateStatus_def
  secrets_Get_def secrets_Create_def rsa_GenerateKey_def net_DialTimeout_def
  ssh_NewClientConn_def ssh_Close_def

text \<open>A call returns whatever the service answers, and leaves itself in the history.\<close>

lemma holds_after_call_ext [go_simps]:
  "holds_after (call_ext env f ev) Q E w =
     (case f (ext w) of (r, e) \<Rightarrow>
        Q r (w\<lparr>ext := e, clock := clock w + int (lag env e), hist := hist w @ [ev r]\<rparr>))"
  by (simp add: holds_after_def call_ext_def split: prod.splits)

lemma call_ext_returns:
  obtains r w' where "call_ext env f ev w = (Returns r, w')" "hist w' = hist w @ [ev r]"
    "clock w \<le> clock w'"
proof -
  obtain r e where "f (ext w) = (r, e)" by fastforce
  then have "call_ext env f ev w =
      (Returns r, w\<lparr>ext := e, clock := clock w + int (lag env e), hist := hist w @ [ev r]\<rparr>)"
    by (simp add: call_ext_def)
  then show thesis by (rule that) simp_all
qed

text \<open>The same, call by call.\<close>

lemma gce_InstancesDelete_returns:
  obtains op err w' where "gce_InstancesDelete env p z n w = (Returns (op, err), w')"
    "hist w' = hist w @ [CInstancesDelete p z n op err]" "clock w \<le> clock w'"
  unfolding gce_InstancesDelete_def
  by (rule call_ext_returns [of env "InstancesDelete env p z n" "\<lambda>(op, err). CInstancesDelete p z n op err" w])
    (metis case_prod_conv surj_pair)

lemma gce_InstancesGet_returns:
  obtains i err w' where "gce_InstancesGet env p z n w = (Returns (i, err), w')"
    "hist w' = hist w @ [CInstancesGet p z n i err]" "clock w \<le> clock w'"
  unfolding gce_InstancesGet_def
  by (rule call_ext_returns [of env "InstancesGet env p z n" "\<lambda>(i, err). CInstancesGet p z n i err" w])
    (metis case_prod_conv surj_pair)

lemma gce_InstancesInsert_returns:
  obtains op err w' where "gce_InstancesInsert env p z inst w = (Returns (op, err), w')"
    "hist w' = hist w @ [CInstancesInsert p z inst op err]" "clock w \<le> clock w'"
  unfolding gce_InstancesInsert_def
  by (rule call_ext_returns [of env "InstancesInsert env p z inst" "\<lambda>(op, err). CInstancesInsert p z inst op err" w])
    (metis case_prod_conv surj_pair)

lemma gce_SetMetadata_returns:
  obtains op err w' where "gce_SetMetadata env p z n md w = (Returns (op, err), w')"
    "hist w' = hist w @ [CSetMetadata p z n md op err]" "clock w \<le> clock w'"
  unfolding gce_SetMetadata_def
  by (rule call_ext_returns [of env "SetMetadata env p z n md" "\<lambda>(op, err). CSetMetadata p z n md op err" w])
    (metis case_prod_conv surj_pair)

lemma gce_ZoneOperationsGet_returns:
  obtains op err w' where "gce_ZoneOperationsGet env p z n w = (Returns (op, err), w')"
    "hist w' = hist w @ [CZoneOperationsGet p z n op err]" "clock w \<le> clock w'"
  unfolding gce_ZoneOperationsGet_def
  by (rule call_ext_returns [of env "ZoneOperationsGet env p z n" "\<lambda>(op, err). CZoneOperationsGet p z n op err" w])
    (metis case_prod_conv surj_pair)

lemma vms_Get_returns:
  obtains vm err w' where "vms_Get env ns n w = (Returns (vm, err), w')"
    "hist w' = hist w @ [CVMGet ns n vm err]" "clock w \<le> clock w'"
  unfolding vms_Get_def
  by (rule call_ext_returns [of env "VMGet env ns n" "\<lambda>(vm, err). CVMGet ns n vm err" w])
    (metis case_prod_conv surj_pair)

lemma rsa_GenerateKey_returns:
  obtains k err w' where "rsa_GenerateKey env bits w = (Returns (k, err), w')"
    "hist w' = hist w @ [CGenerateKey bits err]" "clock w \<le> clock w'"
  unfolding rsa_GenerateKey_def
  by (rule call_ext_returns [of env "GenerateKey env bits" "\<lambda>(k, err). CGenerateKey bits err" w])
    (metis case_prod_conv surj_pair)

lemma net_DialTimeout_returns:
  obtains conn err w' where "net_DialTimeout env nw addr t w = (Returns (conn, err), w')"
    "hist w' = hist w @ [CDial nw addr t err]" "clock w \<le> clock w'"
  unfolding net_DialTimeout_def
  by (rule call_ext_returns [of env "DialTimeout env nw addr t" "\<lambda>(conn, err). CDial nw addr t err" w])
    (metis case_prod_conv surj_pair)

lemma ssh_NewClientConn_returns:
  obtains c err w' where "ssh_NewClientConn env conn addr user signer w = (Returns (c, err), w')"
    "hist w' = hist w @ [CSshConn addr user err]" "clock w \<le> clock w'"
  unfolding ssh_NewClientConn_def
  by (rule call_ext_returns [of env "NewClientConn env conn addr user signer" "\<lambda>(c, err). CSshConn addr user err" w])
    (metis case_prod_conv surj_pair)

lemma vms_Update_returns:
  obtains err w' where "vms_Update env ns vm w = (Returns err, w')"
    "hist w' = hist w @ [CVMUpdate ns vm err]" "clock w \<le> clock w'"
  unfolding vms_Update_def by (rule call_ext_returns)

lemma vms_UpdateStatus_returns:
  obtains err w' where "vms_UpdateStatus env ns vm w = (Returns err, w')"
    "hist w' = hist w @ [CVMUpdateStatus ns vm err]" "clock w \<le> clock w'"
  unfolding vms_UpdateStatus_def by (rule call_ext_returns)

lemma secrets_Get_returns:
  obtains err w' where "secrets_Get env ns n w = (Returns err, w')"
    "hist w' = hist w @ [CSecretGet ns n err]" "clock w \<le> clock w'"
  unfolding secrets_Get_def by (rule call_ext_returns)

lemma secrets_Create_returns:
  obtains err w' where "secrets_Create env ns s w = (Returns err, w')"
    "hist w' = hist w @ [CSecretCreate ns s err]" "clock w \<le> clock w'"
  unfolding secrets_Create_def by (rule call_ext_returns)

lemma ssh_Close_returns:
  obtains err w' where "ssh_Close env c w = (Returns err, w')"
    "hist w' = hist w @ [CSshClose err]" "clock w \<le> clock w'"
  unfolding ssh_Close_def by (rule call_ext_returns)

section \<open>Which calls a piece of code makes\<close>

text \<open>
  \<open>emits P m\<close>: whatever the world does, running \<open>m\<close> only appends calls that satisfy \<open>P\<close> to the
  history, and time does not run backwards.
\<close>

definition extends :: "(call \<Rightarrow> bool) \<Rightarrow> 'e world \<Rightarrow> 'e world \<Rightarrow> bool" where
  "extends P w w' =
     (clock w \<le> clock w' \<and> (\<exists>cs. hist w' = hist w @ cs \<and> list_all P cs))"

definition emits :: "(call \<Rightarrow> bool) \<Rightarrow> ('e world, 'a) go \<Rightarrow> bool" where
  "emits P m = (\<forall>w. extends P w (snd (m w)))"

lemma extends_refl [simp]: "extends P w w"
  by (simp add: extends_def)

lemma extends_trans: "extends P w w' \<Longrightarrow> extends P w' w'' \<Longrightarrow> extends P w w''"
  by (fastforce simp: extends_def)

lemma extends_mono: "extends P w w' \<Longrightarrow> (\<And>c. P c \<Longrightarrow> Q c) \<Longrightarrow> extends Q w w'"
  unfolding extends_def by (blast intro: list_all_mono_imp)

lemma extends_kept: "extends P w w' \<Longrightarrow> c \<in> set (hist w) \<Longrightarrow> c \<in> set (hist w')"
  by (auto simp: extends_def)

lemma extends_new: "extends P w w' \<Longrightarrow> c \<in> set (hist w') \<Longrightarrow> c \<in> set (hist w) \<or> P c"
  by (auto simp: extends_def list_all_iff)

lemma emits_apply: "emits P m \<Longrightarrow> m w = (r, w') \<Longrightarrow> extends P w w'"
  unfolding emits_def by (metis snd_conv)

lemma emits_mono: "emits P m \<Longrightarrow> (\<And>c. P c \<Longrightarrow> Q c) \<Longrightarrow> emits Q m"
  unfolding emits_def by (blast intro: extends_mono)

lemma emits_ret [emits_intros]: "emits P (ret x)"
  by (simp add: emits_def ret_def)

lemma emits_panic [emits_intros]: "emits P (panic m)"
  by (simp add: emits_def panic_def)

lemma emits_lift_panicky [emits_intros]: "emits P (lift_panicky r)"
  by (simp add: emits_def lift_panicky_def)

lemma emits_andthen [emits_intros]:
  assumes "emits P m" "\<And>x. emits P (f x)"
  shows "emits P (andthen m f)"
  unfolding emits_def
proof
  fix w
  obtain r w' where m: "m w = (r, w')" by fastforce
  then have 1: "extends P w w'" using assms(1) by (simp add: emits_apply)
  show "extends P w (snd (andthen m f w))"
  proof (cases r)
    case (Returns x)
    have "extends P w' (snd (f x w'))" using assms(2) by (simp add: emits_def)
    with 1 m Returns show ?thesis by (simp add: andthen_apply extends_trans)
  next
    case (Panics e)
    with 1 m show ?thesis by (simp add: andthen_apply)
  qed
qed

lemma emits_if [emits_intros]:
  "(b \<Longrightarrow> emits P m) \<Longrightarrow> (\<not> b \<Longrightarrow> emits P n) \<Longrightarrow> emits P (if b then m else n)"
  by simp

lemma emits_case_option [emits_intros]:
  "(x = None \<Longrightarrow> emits P m) \<Longrightarrow> (\<And>y. x = Some y \<Longrightarrow> emits P (f y)) \<Longrightarrow>
   emits P (case x of None \<Rightarrow> m | Some y \<Rightarrow> f y)"
  by (cases x) simp_all

lemma emits_case_prod [emits_intros]:
  "(\<And>a b. x = (a, b) \<Longrightarrow> emits P (f a b)) \<Longrightarrow> emits P (case x of (a, b) \<Rightarrow> f a b)"
  by (cases x) simp

lemma emits_Let [emits_intros]: "emits P (f x) \<Longrightarrow> emits P (let y = x in f y)"
  by simp

lemma emits_call_ext: "(\<And>r. P (ev r)) \<Longrightarrow> emits P (call_ext env f ev)"
  by (simp add: emits_def extends_def call_ext_def split: prod.splits)

lemma emits_client [emits_intros]:
  "(\<And>op err. P (CInstancesDelete p z n op err)) \<Longrightarrow> emits P (gce_InstancesDelete env p z n)"
  "(\<And>i err. P (CInstancesGet p z n i err)) \<Longrightarrow> emits P (gce_InstancesGet env p z n)"
  "(\<And>op err. P (CInstancesInsert p z inst op err)) \<Longrightarrow> emits P (gce_InstancesInsert env p z inst)"
  "(\<And>op err. P (CSetMetadata p z n md op err)) \<Longrightarrow> emits P (gce_SetMetadata env p z n md)"
  "(\<And>op err. P (CZoneOperationsGet p z n op err)) \<Longrightarrow> emits P (gce_ZoneOperationsGet env p z n)"
  "(\<And>vm err. P (CVMGet ns n vm err)) \<Longrightarrow> emits P (vms_Get env ns n)"
  "(\<And>err. P (CVMUpdate ns vm err)) \<Longrightarrow> emits P (vms_Update env ns vm)"
  "(\<And>err. P (CVMUpdateStatus ns vm err)) \<Longrightarrow> emits P (vms_UpdateStatus env ns vm)"
  "(\<And>err. P (CSecretGet ns n err)) \<Longrightarrow> emits P (secrets_Get env ns n)"
  "(\<And>err. P (CSecretCreate ns s err)) \<Longrightarrow> emits P (secrets_Create env ns s)"
  "(\<And>err. P (CGenerateKey bits err)) \<Longrightarrow> emits P (rsa_GenerateKey env bits)"
  "(\<And>err. P (CDial nw addr t err)) \<Longrightarrow> emits P (net_DialTimeout env nw addr t)"
  "(\<And>err. P (CSshConn addr user err)) \<Longrightarrow> emits P (ssh_NewClientConn env conn addr user signer)"
  "(\<And>err. P (CSshClose err)) \<Longrightarrow> emits P (ssh_Close env c)"
  unfolding client_defs by (intro emits_call_ext; simp split: prod.splits)+

lemma emits_time_Sleep [emits_intros]: "P (CSleep d) \<Longrightarrow> emits P (time_Sleep env d)"
  by (simp add: emits_def extends_def time_Sleep_def)

text \<open>The calls a piece of code makes, started in a given world.\<close>

definition calls_of :: "('e world, 'a) go \<Rightarrow> 'e world \<Rightarrow> call list" where
  "calls_of m w = drop (length (hist w)) (hist (snd (m w)))"

lemma calls_of_eq: "m w = (r, w') \<Longrightarrow> hist w' = hist w @ cs \<Longrightarrow> calls_of m w = cs"
  by (simp add: calls_of_def)

text \<open>Calls that change a machine, or an object of the cluster.\<close>

fun machine_change :: "call \<Rightarrow> bool" where
  "machine_change (CInstancesDelete _ _ _ _ _) = True"
| "machine_change (CInstancesInsert _ _ _ _ _) = True"
| "machine_change (CSetMetadata _ _ _ _ _ _) = True"
| "machine_change _ = False"

fun cluster_change :: "call \<Rightarrow> bool" where
  "cluster_change (CVMUpdate _ _ _) = True"
| "cluster_change (CVMUpdateStatus _ _ _) = True"
| "cluster_change (CSecretCreate _ _ _) = True"
| "cluster_change _ = False"

text \<open>
  The contract of every operation of the controller: it only makes the calls it is entitled to.
\<close>

locale entitled =
  fixes m :: "('e world, 'a) go"
    and may :: "call \<Rightarrow> bool"
  assumes emits_may: "emits may m"
begin

lemma clock_monotone: "clock w \<le> clock (snd (m w))"
  using emits_may by (simp add: emits_def extends_def)

lemma history_kept: "c \<in> set (hist w) \<Longrightarrow> c \<in> set (hist (snd (m w)))"
  using emits_may by (auto simp: emits_def intro: extends_kept)

lemma new_calls_allowed: "c \<in> set (hist (snd (m w))) \<Longrightarrow> c \<in> set (hist w) \<or> may c"
  using emits_may by (auto simp: emits_def dest: extends_new)

lemma not_allowed_unchanged:
  "\<not> may c \<Longrightarrow> c \<in> set (hist (snd (m w))) \<longleftrightarrow> c \<in> set (hist w)"
  using history_kept new_calls_allowed by blast

end

end
