(* ===== verification/Ssh_Access.thy ===== *)
theory Ssh_Access
  imports Cloud_Env
begin

text \<open>
  \<open>pkg/controller/secrets.go\<close>: generating the key pair of a machine, and polling the machine
  until it accepts an SSH connection.
\<close>

section \<open>newSSHKeypair\<close>

text \<open>Writing to a \<open>bytes.Buffer\<close> appends; its error is always nil.\<close>

definition buffer_Write :: "string \<Rightarrow> string \<Rightarrow> string \<times> go_error option" where
  "buffer_Write buf data = (buf @ data, None)"

definition newSSHKeypair :: "'e env \<Rightarrow> ('e world, string \<times> string \<times> go_error option) go" where
  "newSSHKeypair env =
     andthen (rsa_GenerateKey env 4096) (\<lambda>(privateKey, err).
     case err of
       Some e \<Rightarrow> ret ([], [], Some (errorf_v ''failed to create SSH private key: '' e))
     | None \<Rightarrow>
    (case PEMEncode env privateKey of
       (_, Some e) \<Rightarrow> ret ([], [], Some (errorf_v ''failed to encode SSH private key: '' e))
     | (privateKeyData, None) \<Rightarrow>
    (case NewPublicKey env privateKey of
       (_, Some e) \<Rightarrow> ret ([], [], Some (errorf_v ''failed to create SSH public key: '' e))
     | (pub, None) \<Rightarrow>
    (case buffer_Write [] (MarshalAuthorizedKey env pub) of
       (_, Some e) \<Rightarrow> ret ([], [], Some (errorf_v ''failed to encode SSH public key: '' e))
     | (publicKeyData, None) \<Rightarrow> ret (privateKeyData, publicKeyData, None)))))"

definition is_keygen :: "call \<Rightarrow> bool" where
  "is_keygen c = (case c of CGenerateKey bits err \<Rightarrow> bits = 4096 | _ \<Rightarrow> False)"

lemma newSSHKeypair_emits: "emits is_keygen (newSSHKeypair env)"
  unfolding newSSHKeypair_def by (intro emits_intros allI) (simp_all add: is_keygen_def)

interpretation keypair: entitled "newSSHKeypair env" is_keygen for env :: "'e env"
  by unfold_locales (rule newSSHKeypair_emits)

text \<open>
  It never panics and makes one call. It either fails with empty keys, or hands out the PEM form
  and the authorized-keys form of the two halves of one key.
\<close>

definition keypair_of :: "'e env \<Rightarrow> string \<Rightarrow> string \<Rightarrow> bool" where
  "keypair_of env pem pub =
     (\<exists>k pk. PEMEncode env k = (pem, None) \<and> NewPublicKey env k = (pk, None) \<and>
        pub = MarshalAuthorizedKey env pk)"

lemma newSSHKeypair_spec:
  "holds_after (newSSHKeypair env)
     (\<lambda>(pem, pub, err) w'.
        clock w \<le> clock w' \<and>
        (if err = None then keypair_of env pem pub \<and> hist w' = hist w @ [CGenerateKey 4096 None]
         else pem = [] \<and> pub = [] \<and> (\<exists>ke. hist w' = hist w @ [CGenerateKey 4096 ke])))
     (\<lambda>_ _. False) w"
  by (auto simp: newSSHKeypair_def rsa_GenerateKey_def buffer_Write_def keypair_of_def go_simps
      split: prod.splits option.splits)

lemma newSSHKeypair_returns:
  obtains (failed) e ke w' where "newSSHKeypair env w = (Returns ([], [], Some e), w')"
      "hist w' = hist w @ [CGenerateKey 4096 ke]" "clock w \<le> clock w'"
  | (made) pem pub w' where "newSSHKeypair env w = (Returns (pem, pub, None), w')"
      "keypair_of env pem pub" "hist w' = hist w @ [CGenerateKey 4096 None]" "clock w \<le> clock w'"
proof -
  obtain r w' where run: "newSSHKeypair env w = (r, w')" by fastforce
  with newSSHKeypair_spec [of env w] obtain pem pub err where r: "r = Returns (pem, pub, err)"
    by (cases r) (auto simp: holds_after_def)
  show thesis
  proof (cases err)
    case None
    with newSSHKeypair_spec [of env w] run r show thesis
      by (intro made [of pem pub w']) (simp_all add: holds_after_def)
  next
    case (Some e)
    with newSSHKeypair_spec [of env w] run r show thesis
      by (auto simp: holds_after_def intro: failed)
  qed
qed

section \<open>pollForSSHConnection\<close>

text \<open>\<open>time.Duration(seconds) * time.Second\<close>, in 64 bits.\<close>

definition seconds :: "int64 \<Rightarrow> int64" where
  "seconds s = s * 1000000000"

text \<open>
  The body of the polling loop: a failed dial sleeps and tries again, a successful dial ends the
  loop whether or not the SSH handshake on it succeeds.
\<close>

function poll_loop ::
    "'e env \<Rightarrow> ssh_connection_config \<Rightarrow> string \<Rightarrow> string \<Rightarrow> string \<Rightarrow> int64 \<Rightarrow> ('e world, bool) go" where
  "poll_loop env sshConfig instanceHostname user signer i =
     (if sint i < sint (Retries sshConfig) then
        andthen (net_DialTimeout env ''tcp'' (instanceHostname @ '':22'')
          (seconds (TimeoutSeconds sshConfig))) (\<lambda>(conn, dialErr).
        case dialErr of
          None \<Rightarrow>
            andthen (ssh_NewClientConn env conn instanceHostname user signer) (\<lambda>(c, connErr).
            case connErr of
              None \<Rightarrow> andthen (ssh_Close env c) (\<lambda>closeErr. ret True)
            | Some _ \<Rightarrow> ret False)
        | Some _ \<Rightarrow>
            andthen (time_Sleep env (seconds (DelaySeconds sshConfig))) (\<lambda>_.
              poll_loop env sshConfig instanceHostname user signer (i + 1)))
      else ret False)"
  by pat_completeness auto
termination
  by (relation "measure (\<lambda>(env, cfg, h, u, s, i). nat (sint (Retries cfg) - sint i))")
    (simp_all add: sint_plus1_int64)

declare poll_loop.simps [simp del]

definition pollForSSHConnection ::
    "'e env \<Rightarrow> ssh_connection_config \<Rightarrow> string \<Rightarrow> string \<Rightarrow> string \<Rightarrow>
     ('e world, go_error option) go" where
  "pollForSSHConnection env sshConfig instanceHostname user pem =
     (case ParsePrivateKey env pem of
        (_, Some e) \<Rightarrow> ret (Some (errorf_v ''failed to parse private key: '' e))
      | (signer, None) \<Rightarrow>
          andthen (poll_loop env sshConfig instanceHostname user signer 0) (\<lambda>succeeded.
            if \<not> succeeded then
              ret (Some (ErrorString (''could not connect to VM over SSH in '' @
                fmt_d (sint (Retries sshConfig)) @ '' attempts'')))
            else ret None))"

section \<open>The shape of a poll\<close>

text \<open>
  The calls of the loop with at most \<open>n\<close> attempts left, and its verdict: failed dials, each
  followed by a sleep, until the attempts are used up or a dial succeeds; the first successful
  dial is the last, and its handshake decides.
\<close>

inductive poll_trace :: "ssh_connection_config \<Rightarrow> string \<Rightarrow> string \<Rightarrow> nat \<Rightarrow> call list \<Rightarrow> bool \<Rightarrow> bool"
  for cfg h u where
  exhausted: "poll_trace cfg h u 0 [] False"
| dial_failed: "poll_trace cfg h u n cs ok \<Longrightarrow>
    poll_trace cfg h u (Suc n)
      (CDial ''tcp'' (h @ '':22'') (seconds (TimeoutSeconds cfg)) (Some e) #
       CSleep (seconds (DelaySeconds cfg)) # cs) ok"
| handshake_failed: "poll_trace cfg h u (Suc n)
    [CDial ''tcp'' (h @ '':22'') (seconds (TimeoutSeconds cfg)) None, CSshConn h u (Some e)] False"
| connected: "poll_trace cfg h u (Suc n)
    [CDial ''tcp'' (h @ '':22'') (seconds (TimeoutSeconds cfg)) None, CSshConn h u None,
     CSshClose closeErr] True"

inductive_cases poll_trace_TrueE: "poll_trace cfg h u n cs True"
inductive_cases poll_trace_zeroE: "poll_trace cfg h u 0 cs ok"

fun is_dial :: "call \<Rightarrow> bool" where
  "is_dial (CDial nw addr t err) = True"
| "is_dial _ = False"

lemma poll_trace_dials: "poll_trace cfg h u n cs ok \<Longrightarrow> length (filter is_dial cs) \<le> n"
  by (induction rule: poll_trace.induct) auto

lemma poll_trace_verdict:
  "poll_trace cfg h u n cs ok \<Longrightarrow> ok \<longleftrightarrow> CSshConn h u None \<in> set cs"
  by (induction rule: poll_trace.induct) auto

lemma poll_trace_all_dials_fail:
  "poll_trace cfg h u n cs ok \<Longrightarrow> (\<And>nw a t. CDial nw a t None \<notin> set cs) \<Longrightarrow>
     \<not> ok \<and> length (filter is_dial cs) = n"
proof (induction rule: poll_trace.induct)
  case (dial_failed n cs ok e)
  then show ?case by simp
qed auto

lemma poll_loop_trace:
  "\<exists>ok w' cs. poll_loop env cfg h u signer i w = (Returns ok, w') \<and> hist w' = hist w @ cs \<and>
     clock w \<le> clock w' \<and> poll_trace cfg h u (nat (sint (Retries cfg) - sint i)) cs ok"
proof (induction env cfg h u signer i arbitrary: w rule: poll_loop.induct)
  case (1 env cfg h u signer i)
  show ?case
  proof (cases "sint i < sint (Retries cfg)")
    case False
    then show ?thesis
      using poll_trace.exhausted [of cfg h u] by (subst poll_loop.simps) (auto simp: go_simps)
  next
    case True
    then have n: "nat (sint (Retries cfg) - sint i) = Suc (nat (sint (Retries cfg) - sint (i + 1)))"
      by (simp add: sint_plus1_int64)
    obtain conn derr w1 where dial:
        "net_DialTimeout env ''tcp'' (h @ '':22'') (seconds (TimeoutSeconds cfg)) w = (Returns (conn, derr), w1)"
        "hist w1 = hist w @ [CDial ''tcp'' (h @ '':22'') (seconds (TimeoutSeconds cfg)) derr]"
        "clock w \<le> clock w1"
      by (rule net_DialTimeout_returns)
    show ?thesis
    proof (cases derr)
      case (Some e)
      define w2 where "w2 = snd (time_Sleep env (seconds (DelaySeconds cfg)) w1)"
      have sleep: "time_Sleep env (seconds (DelaySeconds cfg)) w1 = (Returns (), w2)"
        "hist w2 = hist w1 @ [CSleep (seconds (DelaySeconds cfg))]" "clock w1 \<le> clock w2"
        by (simp_all add: w2_def time_Sleep_def)
      obtain ok w' cs where rest: "poll_loop env cfg h u signer (i + 1) w2 = (Returns ok, w')"
          "hist w' = hist w2 @ cs" "clock w2 \<le> clock w'"
          "poll_trace cfg h u (nat (sint (Retries cfg) - sint (i + 1))) cs ok"
        using "1.IH" [OF True] by blast
      have "poll_loop env cfg h u signer i w = (Returns ok, w')"
        using True dial(1) Some sleep(1) rest(1) by (subst poll_loop.simps) (simp add: go_simps)
      with dial rest sleep Some show ?thesis
        by (auto simp: n intro!: poll_trace.dial_failed)
    next
      case None
      obtain c cerr w2 where conn: "ssh_NewClientConn env conn h u signer w1 = (Returns (c, cerr), w2)"
          "hist w2 = hist w1 @ [CSshConn h u cerr]" "clock w1 \<le> clock w2"
        by (rule ssh_NewClientConn_returns)
      obtain xerr w3 where close: "ssh_Close env c w2 = (Returns xerr, w3)"
          "hist w3 = hist w2 @ [CSshClose xerr]" "clock w2 \<le> clock w3"
        by (rule ssh_Close_returns)
      have "poll_loop env cfg h u signer i w =
          (if cerr = None then (Returns True, w3) else (Returns False, w2))"
        using True dial(1) None conn(1) close(1)
        by (subst poll_loop.simps) (auto simp: go_simps split: option.splits)
      with dial conn close None show ?thesis
        by (cases cerr) (auto simp: n intro: poll_trace.intros)
    qed
  qed
qed

lemma pollForSSHConnection_parse_error:
  "ParsePrivateKey env pem = (s, Some e) \<Longrightarrow>
   pollForSSHConnection env cfg h u pem w =
     (Returns (Some (errorf_v ''failed to parse private key: '' e)), w)"
  by (simp add: pollForSSHConnection_def go_simps)

lemma pollForSSHConnection_trace:
  assumes "ParsePrivateKey env pem = (signer, None)"
  obtains ok w' cs where
    "pollForSSHConnection env cfg h u pem w =
       (Returns (if ok then None else Some (ErrorString
          (''could not connect to VM over SSH in '' @ fmt_d (sint (Retries cfg)) @ '' attempts''))), w')"
    "hist w' = hist w @ cs" "clock w \<le> clock w'"
    "poll_trace cfg h u (nat (sint (Retries cfg))) cs ok"
proof -
  obtain ok w' cs where loop: "poll_loop env cfg h u signer 0 w = (Returns ok, w')"
      "hist w' = hist w @ cs" "clock w \<le> clock w'"
      "poll_trace cfg h u (nat (sint (Retries cfg))) cs ok"
    using poll_loop_trace [of env cfg h u signer 0 w] by auto
  show thesis
  proof (rule that)
    show "pollForSSHConnection env cfg h u pem w =
       (Returns (if ok then None else Some (ErrorString
          (''could not connect to VM over SSH in '' @ fmt_d (sint (Retries cfg)) @ '' attempts''))), w')"
      using assms loop(1) by (cases ok) (simp_all add: pollForSSHConnection_def go_simps)
  qed (use loop in auto)
qed

text \<open>The calls a poll can make, whatever its outcome.\<close>

definition is_poll :: "call \<Rightarrow> bool" where
  "is_poll c = (case c of CDial _ _ _ _ \<Rightarrow> True | CSshConn _ _ _ \<Rightarrow> True | CSshClose _ \<Rightarrow> True
     | CSleep _ \<Rightarrow> True | _ \<Rightarrow> False)"

lemma poll_trace_is_poll: "poll_trace cfg h u n cs ok \<Longrightarrow> list_all is_poll cs"
  by (induction rule: poll_trace.induct) (auto simp: is_poll_def)

lemma pollForSSHConnection_emits: "emits is_poll (pollForSSHConnection env cfg h u pem)"
  unfolding emits_def
proof
  fix w
  obtain signer err where p: "ParsePrivateKey env pem = (signer, err)" by fastforce
  show "extends is_poll w (snd (pollForSSHConnection env cfg h u pem w))"
  proof (cases err)
    case None
    with p obtain ok w' cs where "pollForSSHConnection env cfg h u pem w = (ok, w')"
        "hist w' = hist w @ cs" "clock w \<le> clock w'" "list_all is_poll cs"
      using pollForSSHConnection_trace poll_trace_is_poll by metis
    then show ?thesis by (auto simp: extends_def)
  next
    case (Some e)
    with p show ?thesis by (simp add: pollForSSHConnection_parse_error)
  qed
qed

interpretation poll: entitled "pollForSSHConnection env cfg h u pem" is_poll
  for env :: "'e env" and cfg h u pem
  by unfold_locales (rule pollForSSHConnection_emits)

lemma pollForSSHConnection_no_panic:
  "\<exists>err w'. pollForSSHConnection env cfg h u pem w = (Returns err, w')"
proof -
  obtain signer err where "ParsePrivateKey env pem = (signer, err)" by fastforce
  then show ?thesis
    by (cases err) (auto simp: pollForSSHConnection_parse_error elim!: pollForSSHConnection_trace)
qed

end
