(* ===== verification/Gce_Operations.thy ===== *)
theory Gce_Operations
  imports Cloud_Env
begin

text \<open>
  \<open>waitForOperation\<close> and \<open>checkOp\<close> of \<open>pkg/controller/gce.go\<close>: polling an operation of the compute
  API until it is done, fails or the timeout fires.
\<close>

section \<open>Waiting for an operation\<close>

definition gceTimeout :: int where "gceTimeout = 600 * 1000000000"
definition gceWaitSleep :: int where "gceWaitSleep = 5 * 1000000000"

text \<open>The messages of the errors an operation carries, one per line.\<close>

fun write_messages :: "string \<Rightarrow> op_error_item option list \<Rightarrow> string panicky" where
  "write_messages errs [] = Returns errs"
| "write_messages errs (None # vs) = Panics nil_dereference"
| "write_messages errs (Some v # vs) = write_messages (errs @ oe_Message v @ [newline]) vs"

definition checkOp :: "operation option \<Rightarrow> go_error option \<Rightarrow> go_error option panicky" where
  "checkOp op err =
     (if err \<noteq> None then Returns err
      else case op of
        None \<Rightarrow> Panics nil_dereference
      | Some operation \<Rightarrow>
          (case op_Error operation of
             None \<Rightarrow> Returns err
           | Some items \<Rightarrow>
               if length items = 0 then Returns err
               else (case write_messages [] items of
                   Panics m \<Rightarrow> Panics m
                 | Returns errs \<Rightarrow> Returns (Some (ErrorString errs)))))"

text \<open>
  The select on the context and on \<open>time.After\<close>: the channel that fires first is taken, and the
  run-time chooses when both fire at the same instant. \<open>True\<close> is the context. Waking up may take
  some more time.
\<close>

definition select_timeout :: "'e env \<Rightarrow> int \<Rightarrow> 'e world \<Rightarrow> bool \<times> 'e world" where
  "select_timeout env deadline w =
     (let after = clock w + gceWaitSleep;
          late = int (lag env (ext w))
      in if deadline < after \<or> deadline = after \<and> pick_done env (ext w)
         then (True, w\<lparr>clock := max (clock w) deadline + late\<rparr>)
         else (False, w\<lparr>clock := after + late\<rparr>))"

lemma select_timeout_world [simp]:
  "hist (snd (select_timeout env d w)) = hist w" "ext (snd (select_timeout env d w)) = ext w"
  by (simp_all add: select_timeout_def Let_def)

lemma select_timeout_clock:
  "select_timeout env d w = (False, w') \<Longrightarrow> clock w + gceWaitSleep \<le> clock w' \<and> clock w + gceWaitSleep \<le> d"
  "select_timeout env d w = (True, w') \<Longrightarrow> clock w \<le> clock w'"
  by (auto simp: select_timeout_def Let_def split: if_splits)

definition timeout_error :: "operation \<Rightarrow> int \<Rightarrow> go_error" where
  "timeout_error op since = ErrorString
     (''gce operation '' @ op_OperationType op @ '' '' @ fmt_q (op_Name op) @ '' timed out after '' @
      fmt_duration since)"

lemma wait_turn_clock:
  assumes "(False, w1) = select_timeout env d w" "(r, w2) = gce_ZoneOperationsGet env p z n w1"
  shows "clock w < d \<and> clock w < clock w2"
proof -
  have "clock w1 \<le> clock w2"
    using assms(2) by (metis gce_ZoneOperationsGet_returns snd_conv)
  with select_timeout_clock(1) [OF assms(1) [symmetric]] show ?thesis
    by (simp add: gceWaitSleep_def)
qed

text \<open>
  The loop, with the values \<open>op\<close> and \<open>err\<close> that the last call left. It ends because every turn
  that goes on moves the clock closer to the deadline.
\<close>

function wait_loop ::
    "'e env \<Rightarrow> configuration \<Rightarrow> int \<Rightarrow> int \<Rightarrow> operation option \<Rightarrow> go_error option \<Rightarrow>
     ('e world, go_error option) go" where
  "wait_loop env cfg start deadline op err w =
     (case checkOp op err of
        Panics m \<Rightarrow> (Panics m, w)
      | Returns (Some e) \<Rightarrow> (Returns (Some e), w)
      | Returns None \<Rightarrow>
     (case op of
        None \<Rightarrow> (Panics nil_dereference, w)
      | Some operation \<Rightarrow>
          if op_Status operation = ''DONE'' then (Returns None, w)
          else (case select_timeout env deadline w of
              (True, w1) \<Rightarrow> (Returns (Some (timeout_error operation (clock w1 - start))), w1)
            | (False, w1) \<Rightarrow>
                (case gce_ZoneOperationsGet env (Project cfg) (path_base (op_Zone operation))
                        (op_Name operation) w1 of
                   (Returns (op', err'), w2) \<Rightarrow> wait_loop env cfg start deadline op' err' w2
                 | (Panics m, w2) \<Rightarrow> (Panics m, w2)))))"
  by pat_completeness auto
termination
  by (relation "measure (\<lambda>(env, cfg, s, d, op, err, w). nat (d - clock w))")
    (simp_all add: wait_turn_clock)

declare wait_loop.simps [simp del]

definition waitForOperation ::
    "'e env \<Rightarrow> configuration \<Rightarrow> operation option \<Rightarrow> ('e world, go_error option) go" where
  "waitForOperation env cfg op =
     (case op of
        None \<Rightarrow> panic nil_dereference
      | Some _ \<Rightarrow> (\<lambda>w. wait_loop env cfg (clock w) (clock w + gceTimeout) op None w))"

subsection \<open>What a wait observes\<close>

text \<open>
  The polls of a wait and its result, with at most \<open>n\<close> polls left. Each poll asks for the
  operation that the previous answer named; the result is decided by the last answer alone.
\<close>

inductive wait_run ::
    "configuration \<Rightarrow> nat \<Rightarrow> operation option \<Rightarrow> go_error option \<Rightarrow> call list \<Rightarrow> go_error option panicky \<Rightarrow> bool"
  for cfg where
  failed: "checkOp op err = Returns (Some e) \<Longrightarrow> wait_run cfg n op err [] (Returns (Some e))"
| crashed: "checkOp op err = Panics m \<Longrightarrow> wait_run cfg n op err [] (Panics m)"
| finished: "checkOp (Some o') err = Returns None \<Longrightarrow> op_Status o' = ''DONE'' \<Longrightarrow>
    wait_run cfg n (Some o') err [] (Returns None)"
| timed_out: "checkOp (Some o') err = Returns None \<Longrightarrow> op_Status o' \<noteq> ''DONE'' \<Longrightarrow>
    wait_run cfg n (Some o') err [] (Returns (Some (timeout_error o' t)))"
| polled: "checkOp (Some o') err = Returns None \<Longrightarrow> op_Status o' \<noteq> ''DONE'' \<Longrightarrow>
    wait_run cfg n op' err' cs r \<Longrightarrow>
    wait_run cfg (Suc n) (Some o') err
      (CZoneOperationsGet (Project cfg) (path_base (op_Zone o')) (op_Name o') op' err' # cs) r"

lemma checkOp_None_ok: "checkOp op err = Returns None \<Longrightarrow> \<exists>o'. op = Some o' \<and> err = None"
  by (auto simp: checkOp_def split: option.splits if_splits panicky.splits)

lemma checkOp_SomeE:
  "checkOp op err = Returns None \<Longrightarrow>
     \<exists>o'. op = Some o' \<and> err = None \<and> (op_Error o' = None \<or> op_Error o' = Some [])"
  by (auto simp: checkOp_def split: option.splits if_splits panicky.splits)

definition polls_left :: "int \<Rightarrow> 'e world \<Rightarrow> nat" where
  "polls_left deadline w = nat ((deadline - clock w) div gceWaitSleep)"

lemma polls_left_turn:
  assumes "select_timeout env d w = (False, w1)" "clock w1 \<le> clock w2"
  shows "Suc (polls_left d w2) \<le> polls_left d w"
proof -
  from assms have le: "clock w + gceWaitSleep \<le> clock w2" "clock w + gceWaitSleep \<le> d"
    using select_timeout_clock(1) [OF assms(1)] by linarith+
  have "(d - clock w2) div gceWaitSleep \<le> (d - clock w - gceWaitSleep) div gceWaitSleep"
    using le(1) by (intro zdiv_mono1) (auto simp: gceWaitSleep_def)
  moreover have "(d - clock w - gceWaitSleep) div gceWaitSleep = (d - clock w) div gceWaitSleep - 1"
    by (simp add: gceWaitSleep_def)
  moreover have "1 \<le> (d - clock w) div gceWaitSleep"
    using le(2) by (simp add: gceWaitSleep_def)
  ultimately show ?thesis by (simp add: polls_left_def)
qed

lemma wait_run_mono: "wait_run cfg n op err cs r \<Longrightarrow> n \<le> n' \<Longrightarrow> wait_run cfg n' op err cs r"
proof (induction arbitrary: n' rule: wait_run.induct)
  case (polled o' err n op' err' cs r)
  then show ?case by (cases n') (auto intro: wait_run.polled)
qed (auto intro: wait_run.intros)

lemma wait_loop_run:
  "\<exists>r w' cs. wait_loop env cfg start d op err w = (r, w') \<and> hist w' = hist w @ cs \<and>
     clock w \<le> clock w' \<and> wait_run cfg (polls_left d w) op err cs r"
proof (induction env cfg start d op err w rule: wait_loop.induct)
  case (1 env cfg start d op err w)
  show ?case
  proof (cases "checkOp op err")
    case (Panics m)
    then show ?thesis
      by (subst wait_loop.simps) (auto intro: wait_run.crashed)
  next
    case (Returns x)
    show ?thesis
    proof (cases x)
      case (Some e)
      with Returns show ?thesis
        by (subst wait_loop.simps) (auto intro: wait_run.failed)
    next
      case None
      with Returns obtain o' where o': "op = Some o'" and ok: "checkOp (Some o') err = Returns None"
        using checkOp_None_ok by blast
      show ?thesis
      proof (cases "op_Status o' = ''DONE''")
        case True
        with o' ok show ?thesis
          by (subst wait_loop.simps) (auto intro: wait_run.finished)
      next
        case False
        obtain b w1 where sel: "select_timeout env d w = (b, w1)" by fastforce
        then have h1: "hist w1 = hist w" by (metis select_timeout_world(1) snd_conv)
        show ?thesis
        proof (cases b)
          case True
          with sel False o' ok h1 select_timeout_clock(2) [of env d w w1] show ?thesis
            by (subst wait_loop.simps) (auto intro: wait_run.timed_out)
        next
          case b: False
          obtain op' err' w2 where get: "gce_ZoneOperationsGet env (Project cfg)
                (path_base (op_Zone o')) (op_Name o') w1 = (Returns (op', err'), w2)"
              "hist w2 = hist w1 @ [CZoneOperationsGet (Project cfg) (path_base (op_Zone o')) (op_Name o') op' err']"
              "clock w1 \<le> clock w2"
            by (rule gce_ZoneOperationsGet_returns)
          have step: "wait_loop env cfg start d op err w = wait_loop env cfg start d op' err' w2"
            using sel b False o' ok get(1) by (subst wait_loop.simps) simp
          have "\<exists>r w' cs. wait_loop env cfg start d op' err' w2 = (r, w') \<and> hist w' = hist w2 @ cs \<and>
              clock w2 \<le> clock w' \<and> wait_run cfg (polls_left d w2) op' err' cs r"
            using "1.IH" Returns None o' False sel b get(1) by auto
          then obtain r w' cs where rest: "wait_loop env cfg start d op' err' w2 = (r, w')"
              "hist w' = hist w2 @ cs" "clock w2 \<le> clock w'"
              "wait_run cfg (polls_left d w2) op' err' cs r"
            by blast
          have "Suc (polls_left d w2) \<le> polls_left d w"
            using sel b get(3) by (auto intro: polls_left_turn)
          with rest(4) ok False have "wait_run cfg (polls_left d w) op err
              (CZoneOperationsGet (Project cfg) (path_base (op_Zone o')) (op_Name o') op' err' # cs) r"
            unfolding o' by (blast intro: wait_run.polled wait_run_mono)
          with rest get step h1 sel b select_timeout_clock(1) [of env d w w1] show ?thesis
            by (auto simp: gceWaitSleep_def)
        qed
      qed
    qed
  qed
qed

subsection \<open>Consequences\<close>

fun last_answer :: "operation option \<Rightarrow> call list \<Rightarrow> operation option" where
  "last_answer op [] = op"
| "last_answer op (CZoneOperationsGet p z n op' err # cs) = last_answer op' cs"
| "last_answer op (c # cs) = last_answer op cs"

definition done_cleanly :: "operation option \<Rightarrow> bool" where
  "done_cleanly op = (case op of None \<Rightarrow> False
     | Some o' \<Rightarrow> op_Status o' = ''DONE'' \<and> (op_Error o' = None \<or> op_Error o' = Some []))"

lemma wait_run_length: "wait_run cfg n op err cs r \<Longrightarrow> length cs \<le> n"
  by (induction rule: wait_run.induct) auto

lemma wait_run_success:
  "wait_run cfg n op err cs r \<Longrightarrow> r = Returns None \<Longrightarrow> done_cleanly (last_answer op cs)"
  by (induction rule: wait_run.induct) (auto simp: done_cleanly_def dest: checkOp_SomeE)

definition is_op_poll :: "call \<Rightarrow> bool" where
  "is_op_poll c = (case c of CZoneOperationsGet _ _ _ _ _ \<Rightarrow> True | _ \<Rightarrow> False)"

lemma wait_run_is_op_poll: "wait_run cfg n op err cs r \<Longrightarrow> list_all is_op_poll cs"
  by (induction rule: wait_run.induct) (auto simp: is_op_poll_def)

lemma polls_left_start: "polls_left (clock w + gceTimeout) w = 120"
  by (simp add: polls_left_def gceTimeout_def gceWaitSleep_def)

lemma waitForOperation_run:
  obtains r w' cs where "waitForOperation env cfg (Some o') w = (r, w')" "hist w' = hist w @ cs"
    "clock w \<le> clock w'" "wait_run cfg 120 (Some o') None cs r"
  using wait_loop_run [of env cfg "clock w" "clock w + gceTimeout" "Some o'" None w]
  by (auto simp: waitForOperation_def polls_left_start)

lemma waitForOperation_nil: "waitForOperation env cfg None w = (Panics nil_dereference, w)"
  by (simp add: waitForOperation_def go_simps)

lemma waitForOperation_emits [emits_intros]:
  assumes "\<And>c. is_op_poll c \<Longrightarrow> P c"
  shows "emits P (waitForOperation env cfg op)"
proof -
  have "extends is_op_poll w (snd (waitForOperation env cfg op w))" for w
  proof (cases op)
    case None
    then show ?thesis by (simp add: waitForOperation_nil)
  next
    case (Some o')
    obtain r w' cs where "waitForOperation env cfg (Some o') w = (r, w')" "hist w' = hist w @ cs"
      "clock w \<le> clock w'" "wait_run cfg 120 (Some o') None cs r"
      by (rule waitForOperation_run)
    with Some show ?thesis by (auto simp: extends_def dest: wait_run_is_op_poll)
  qed
  then have "emits is_op_poll (waitForOperation env cfg op)" by (simp add: emits_def)
  then show ?thesis using assms by (rule emits_mono)
qed

text \<open>
  The pattern \<open>op, err := ...; if err == nil { err = c.waitForOperation(op) }\<close>, followed by code
  that looks at the error.
\<close>

lemma wait_if_ok_cases:
  fixes f :: "go_error option \<Rightarrow> ('e world, 'b) go" and env :: "'e env" and cfg op err
  defines "rest \<equiv> andthen (if err = None then waitForOperation env cfg op else ret err) f"
  obtains (refused) e where "err = Some e" "rest w = f (Some e) w"
  | (nil_operation) "err = None" "op = None" "rest w = (Panics nil_dereference, w)"
  | (crashed) o' ps m w' where "err = None" "op = Some o'" "wait_run cfg 120 (Some o') None ps (Panics m)"
      "hist w' = hist w @ ps" "clock w \<le> clock w'" "rest w = (Panics m, w')"
  | (waited) o' ps x w' where "err = None" "op = Some o'" "wait_run cfg 120 (Some o') None ps (Returns x)"
      "hist w' = hist w @ ps" "clock w \<le> clock w'" "rest w = f x w'"
proof (cases err)
  case (Some e)
  then show thesis by (intro refused) (simp_all add: rest_def)
next
  case ok: None
  show thesis
  proof (cases op)
    case None
    with ok show thesis
      by (intro nil_operation) (simp_all add: rest_def andthen_panics waitForOperation_nil)
  next
    case (Some o')
    obtain r w' ps where run: "waitForOperation env cfg (Some o') w = (r, w')" "hist w' = hist w @ ps"
        "clock w \<le> clock w'" "wait_run cfg 120 (Some o') None ps r"
      by (rule waitForOperation_run)
    show thesis
    proof (cases r)
      case (Returns x)
      with run ok Some show thesis
        by (intro waited [of o' ps x w']) (simp_all add: rest_def andthen_returns)
    next
      case (Panics m)
      with run ok Some show thesis
        by (intro crashed [of o' ps m w']) (simp_all add: rest_def andthen_panics)
    qed
  qed
qed

interpretation wait: entitled "waitForOperation env cfg op" is_op_poll for env :: "'e env" and cfg op
  by unfold_locales (rule waitForOperation_emits)

end
