(* ===== verification/Gce_Machines.thy ===== *)
theory Gce_Machines
  imports Ssh_Access Gce_Operations
begin

text \<open>
  The rest of \<open>pkg/controller/gce.go\<close>: deleting and creating the machine behind a
  \<open>VirtualMachine\<close>, renewing its SSH key, and recording failures in the status. The runs of these
  operations are described as protocols: inductive relations between the calls made and the
  result, which the definitions are shown to follow.
\<close>

section \<open>Recording a failure\<close>

definition handleError ::
    "'e env \<Rightarrow> virtual_machine \<Rightarrow> go_error \<Rightarrow> ('e world, go_error option) go" where
  "handleError env vm err =
     (let updated = vm;
          updated = updated\<lparr>status := status updated\<lparr>state :=
            state (status updated)\<lparr>processingPhase := ProcessingPhaseError\<rparr>\<rparr>\<rparr>;
          updated = updated\<lparr>status := status updated\<lparr>state :=
            state (status updated)\<lparr>message := Error err\<rparr>\<rparr>\<rparr>
      in vms_UpdateStatus env (vm_namespace vm) updated)"

section \<open>Deleting the machine\<close>

definition deleteVM ::
    "'e env \<Rightarrow> configuration \<Rightarrow> virtual_machine \<Rightarrow> ('e world, go_error option) go" where
  "deleteVM env cfg vm =
     andthen (gce_InstancesGet env (Project cfg) (Zone cfg) (vm_name vm)) (\<lambda>(inst, err).
     case err of
       Some e \<Rightarrow>
         (if as_googleapi e = Some StatusNotFound then ret None
          else ret (Some (errorf_v ''failed to check for existance of virtual machine: '' e)))
     | None \<Rightarrow>
    (if inst = None then ret None
     else
       andthen (gce_InstancesDelete env (Project cfg) (Zone cfg) (vm_name vm)) (\<lambda>(op, err).
       andthen (if err = None then waitForOperation env cfg op else ret err) (\<lambda>err.
       case err of
         Some e \<Rightarrow> handleError env vm (errorf_v ''error deleting GCE instance: '' e)
       | None \<Rightarrow> ret None))))"

section \<open>Running an operation and publishing the key\<close>

definition cloud_user :: string where
  "cloud_user = ''cloud-user''"

definition formatted_public_key :: "string \<Rightarrow> string" where
  "formatted_public_key pub =
     cloud_user @ '':'' @ TrimSuffix pub [newline] @ '' '' @ cloud_user"

text \<open>\<open>instance.NetworkInterfaces[0].AccessConfigs[0].NatIP\<close>, each step of which can panic.\<close>

definition instance_hostname :: "gce_instance option \<Rightarrow> string panicky" where
  "instance_hostname inst =
     (case inst of None \<Rightarrow> Panics nil_dereference | Some i \<Rightarrow>
     (case in_NetworkInterfaces i of
        [] \<Rightarrow> Panics index_out_of_range
      | None # _ \<Rightarrow> Panics nil_dereference
      | Some nic # _ \<Rightarrow>
     (case ni_AccessConfigs nic of
        [] \<Rightarrow> Panics index_out_of_range
      | None # _ \<Rightarrow> Panics nil_dereference
      | Some ac # _ \<Rightarrow> Returns (ac_NatIP ac))))"

definition ssh_config_text :: "string \<Rightarrow> string \<Rightarrow> string \<Rightarrow> string" where
  "ssh_config_text name hostname user =
     ''Host '' @ name @ [newline] @
     ''  HostName '' @ hostname @ [newline] @
     ''  Port 22'' @ [newline] @
     ''  User '' @ user @ [newline] @
     ''  StrictHostKeyChecking no'' @ [newline]"

definition ssh_secret :: "virtual_machine \<Rightarrow> string \<Rightarrow> string \<Rightarrow> gce_instance \<Rightarrow> string \<Rightarrow> secret" where
  "ssh_secret vm pem pub inst hostname =
     \<lparr>sec_name = vm_name vm, sec_namespace = vm_namespace vm,
      sec_ownerReferences =
        [\<lparr>or_apiVersion = ''v1alpha1'', or_kind = ''virtualmachine.ci.openshift.io'',
          or_name = vm_name vm, or_uid = om_uid (metadata vm)\<rparr>],
      sec_stringData =
        [(''id_rsa'', pem), (''id_rsa.pub'', pub),
         (''ssh_config'', ssh_config_text (in_Name inst) hostname cloud_user)]\<rparr>"

text \<open>The part of \<open>runVMOpPollSSH\<close> after a successful operation.\<close>

definition locate_and_publish ::
    "'e env \<Rightarrow> configuration \<Rightarrow> virtual_machine \<Rightarrow> string \<Rightarrow> string \<Rightarrow> ('e world, go_error option) go" where
  "locate_and_publish env cfg vm pem pub =
     andthen (gce_InstancesGet env (Project cfg) (Zone cfg) (vm_name vm)) (\<lambda>(inst, err).
     case err of
       Some e \<Rightarrow> ret (Some (errorf_v ''failed to check for virtual machine: '' e))
     | None \<Rightarrow>
       andthen (lift_panicky (instance_hostname inst)) (\<lambda>hostname.
       andthen (pollForSSHConnection env (SSHConnectionConfig cfg) hostname cloud_user pem) (\<lambda>_.
       andthen (lift_panicky (deref inst)) (\<lambda>i.
       andthen (secrets_Create env (vm_namespace vm) (ssh_secret vm pem pub i hostname)) (\<lambda>err.
       case err of
         Some e \<Rightarrow> ret (Some (errorf_v ''could not create SSH secret: '' e))
       | None \<Rightarrow> ret None)))))"

definition runVMOpPollSSH ::
    "'e env \<Rightarrow> configuration \<Rightarrow> virtual_machine \<Rightarrow>
     (string \<Rightarrow> ('e world, operation option \<times> go_error option) go) \<Rightarrow>
     ('e world, go_error option) go" where
  "runVMOpPollSSH env cfg vm action =
     andthen (newSSHKeypair env) (\<lambda>(pem, pub, err).
     case err of
       Some e \<Rightarrow> ret (Some (errorf_v ''could not create SSH keypair for VM: '' e))
     | None \<Rightarrow>
       andthen (action (formatted_public_key pub)) (\<lambda>(op, err).
       andthen (if err = None then waitForOperation env cfg op else ret err) (\<lambda>err.
       case err of
         Some e \<Rightarrow> handleError env vm (errorf_v ''error running operation: '' e)
       | None \<Rightarrow> locate_and_publish env cfg vm pem pub)))"

section \<open>Creating the machine\<close>

definition boot_disk_request :: "configuration \<Rightarrow> virtual_machine \<Rightarrow> attached_disk" where
  "boot_disk_request cfg vm =
     \<lparr>ad_AutoDelete = True, ad_Boot = True,
      ad_InitializeParams = Some
        \<lparr>ip_SourceImage = imageFamily (bootDisk (spec vm)),
         ip_DiskSizeGb = sizeGb (bootDisk (spec vm)),
         ip_DiskType = ''projects/'' @ Project cfg @ ''/zones/'' @ Zone cfg @ ''/diskTypes/'' @
           disk_type (bootDisk (spec vm))\<rparr>\<rparr>"

fun append_disks :: "attached_disk option list \<Rightarrow> disk_spec list \<Rightarrow> attached_disk option list" where
  "append_disks ds [] = ds"
| "append_disks ds (d # rest) =
     append_disks (ds @ [Some
       \<lparr>ad_AutoDelete = True, ad_Boot = False,
        ad_InitializeParams = Some
          \<lparr>ip_SourceImage = [], ip_DiskSizeGb = sizeGb d, ip_DiskType = disk_type d\<rparr>\<rparr>]) rest"

definition ssh_keys_metadata :: "string \<Rightarrow> gce_metadata" where
  "ssh_keys_metadata publicKey =
     \<lparr>md_Items = [Some \<lparr>mi_Key = ''ssh-keys'', mi_Value = Some publicKey\<rparr>]\<rparr>"

definition insert_request :: "configuration \<Rightarrow> virtual_machine \<Rightarrow> string \<Rightarrow> gce_instance" where
  "insert_request cfg vm publicKey =
     \<lparr>in_Name = vm_name vm,
      in_MachineType = ''zones/'' @ Zone cfg @ ''/machineTypes/'' @ machineType (spec vm),
      in_Metadata = Some (ssh_keys_metadata publicKey),
      in_CanIpForward = True,
      in_NetworkInterfaces = [Some
        \<lparr>ni_Network = ''global/networks/default'',
         ni_AccessConfigs = [Some
           \<lparr>ac_Type = ''ONE_TO_ONE_NAT'', ac_Name = ''External NAT'', ac_NatIP = []\<rparr>]\<rparr>],
      in_Disks = append_disks [Some (boot_disk_request cfg vm)] (elems (disks (spec vm)))\<rparr>"

definition createNewVM ::
    "'e env \<Rightarrow> configuration \<Rightarrow> virtual_machine \<Rightarrow> ('e world, go_error option) go" where
  "createNewVM env cfg vm =
     runVMOpPollSSH env cfg vm (\<lambda>publicKey.
       gce_InstancesInsert env (Project cfg) (Zone cfg) (insert_request cfg vm publicKey))"

definition refreshSSHKey ::
    "'e env \<Rightarrow> configuration \<Rightarrow> virtual_machine \<Rightarrow> ('e world, go_error option) go" where
  "refreshSSHKey env cfg vm =
     runVMOpPollSSH env cfg vm (\<lambda>publicKey.
       gce_SetMetadata env (Project cfg) (Zone cfg) (vm_name vm) (ssh_keys_metadata publicKey))"

definition ensureVM ::
    "'e env \<Rightarrow> configuration \<Rightarrow> virtual_machine \<Rightarrow> ('e world, go_error option) go" where
  "ensureVM env cfg vm =
     andthen (gce_InstancesGet env (Project cfg) (Zone cfg) (vm_name vm)) (\<lambda>(inst, err).
     if inst \<noteq> None then
       andthen (secrets_Get env (vm_namespace vm) (vm_name vm)) (\<lambda>err.
       case err of
         Some e \<Rightarrow>
           if IsNotFound (Some e) then refreshSSHKey env cfg vm
           else ret (Some (errorf_v ''failed to check for existance of secret: '' e))
       | None \<Rightarrow> ret None)
     else
       case err of
         Some e \<Rightarrow>
           (case as_googleapi e of
              Some code \<Rightarrow>
                if code \<noteq> StatusNotFound then
                  ret (Some (errorf_v ''failed to check for existance of virtual machine: '' e))
                else createNewVM env cfg vm
            | None \<Rightarrow> createNewVM env cfg vm)
       | None \<Rightarrow> createNewVM env cfg vm)"

section \<open>Protocols\<close>

text \<open>The object that \<open>handleError\<close> sends: the same one, with its state saying what failed.\<close>

definition mark_failed :: "virtual_machine \<Rightarrow> go_error \<Rightarrow> virtual_machine" where
  "mark_failed vm e = vm\<lparr>status := (status vm)\<lparr>state :=
     \<lparr>processingPhase = ProcessingPhaseError, message = Error e\<rparr>\<rparr>\<rparr>"

lemma handleError_eq: "handleError env vm e = vms_UpdateStatus env (vm_namespace vm) (mark_failed vm e)"
  by (cases "state (status vm)") (simp add: handleError_def mark_failed_def Let_def)

lemma handleError_returns:
  obtains ue w' where "handleError env vm e w = (Returns ue, w')"
    "hist w' = hist w @ [CVMUpdateStatus (vm_namespace vm) (mark_failed vm e) ue]" "clock w \<le> clock w'"
  unfolding handleError_eq by (rule vms_UpdateStatus_returns)

text \<open>
  The code shared by deletion and \<open>runVMOpPollSSH\<close>: wait for the operation if it was accepted,
  report an error in the status, and go on with \<open>g\<close> if there is none.
\<close>

lemma wait_or_report_cases:
  fixes g :: "('e world, go_error option) go" and env :: "'e env" and cfg vm op err lead
  defines "rest \<equiv> andthen (if err = None then waitForOperation env cfg op else ret err) (\<lambda>err.
      case err of Some e \<Rightarrow> handleError env vm (errorf_v lead e) | None \<Rightarrow> g)"
  obtains (refused) e ue w' where "err = Some e" "rest w = (Returns ue, w')"
      "hist w' = hist w @ [CVMUpdateStatus (vm_namespace vm) (mark_failed vm (errorf_v lead e)) ue]"
      "clock w \<le> clock w'"
  | (nil_operation) "err = None" "op = None" "rest w = (Panics nil_dereference, w)"
  | (crashed) o' ps m w' where "err = None" "op = Some o'" "wait_run cfg 120 (Some o') None ps (Panics m)"
      "hist w' = hist w @ ps" "clock w \<le> clock w'" "rest w = (Panics m, w')"
  | (failed) o' ps e ue w' where "err = None" "op = Some o'"
      "wait_run cfg 120 (Some o') None ps (Returns (Some e))" "rest w = (Returns ue, w')"
      "hist w' = hist w @ ps @
         [CVMUpdateStatus (vm_namespace vm) (mark_failed vm (errorf_v lead e)) ue]"
      "clock w \<le> clock w'"
  | (succeeded) o' ps w' where "err = None" "op = Some o'"
      "wait_run cfg 120 (Some o') None ps (Returns None)"
      "hist w' = hist w @ ps" "clock w \<le> clock w'" "rest w = g w'"
proof -
  define f where
    "f = (\<lambda>err. case err of Some e \<Rightarrow> handleError env vm (errorf_v lead e) | None \<Rightarrow> g)"
  have rest: "rest = andthen (if err = None then waitForOperation env cfg op else ret err) f"
    by (simp add: rest_def f_def)
  show thesis
  proof (cases rule: wait_if_ok_cases [where env = env and cfg = cfg and op = op and err = err
        and f = f and w = w])
    case ref: (refused e)
    obtain ue w' where "handleError env vm (errorf_v lead e) w = (Returns ue, w')"
        "hist w' = hist w @ [CVMUpdateStatus (vm_namespace vm) (mark_failed vm (errorf_v lead e)) ue]"
        "clock w \<le> clock w'"
      by (rule handleError_returns)
    with ref show thesis by (intro refused [of e ue w']) (simp_all add: rest f_def)
  next
    case nil_operation
    then show thesis by (intro that(2)) (simp_all add: rest)
  next
    case (crashed o' ps m w')
    then show thesis by (intro that(3) [of o' ps m w']) (simp_all add: rest)
  next
    case wtd: (waited o' ps x w1)
    show thesis
    proof (cases x)
      case None
      with wtd show thesis by (intro succeeded [of o' ps w1]) (simp_all add: rest f_def)
    next
      case (Some e)
      obtain ue w' where "handleError env vm (errorf_v lead e) w1 = (Returns ue, w')"
          "hist w' = hist w1 @ [CVMUpdateStatus (vm_namespace vm) (mark_failed vm (errorf_v lead e)) ue]"
          "clock w1 \<le> clock w'"
        by (rule handleError_returns)
      with wtd Some show thesis by (intro failed [of o' ps e ue w']) (simp_all add: rest f_def)
    qed
  qed
qed

subsection \<open>Deletion\<close>

inductive delete_run ::
    "configuration \<Rightarrow> virtual_machine \<Rightarrow> call list \<Rightarrow> go_error option panicky \<Rightarrow> bool"
  for cfg vm where
  absent: "as_googleapi e = Some StatusNotFound \<Longrightarrow>
    delete_run cfg vm [CInstancesGet (Project cfg) (Zone cfg) (vm_name vm) i (Some e)] (Returns None)"
| unknown: "as_googleapi e \<noteq> Some StatusNotFound \<Longrightarrow>
    delete_run cfg vm [CInstancesGet (Project cfg) (Zone cfg) (vm_name vm) i (Some e)]
      (Returns (Some (errorf_v ''failed to check for existance of virtual machine: '' e)))"
| nil_instance:
    "delete_run cfg vm [CInstancesGet (Project cfg) (Zone cfg) (vm_name vm) None None] (Returns None)"
| refused:
    "delete_run cfg vm
      [CInstancesGet (Project cfg) (Zone cfg) (vm_name vm) (Some i) None,
       CInstancesDelete (Project cfg) (Zone cfg) (vm_name vm) op (Some e),
       CVMUpdateStatus (vm_namespace vm) (mark_failed vm (errorf_v ''error deleting GCE instance: '' e)) ue]
      (Returns ue)"
| nil_operation:
    "delete_run cfg vm
      [CInstancesGet (Project cfg) (Zone cfg) (vm_name vm) (Some i) None,
       CInstancesDelete (Project cfg) (Zone cfg) (vm_name vm) None None]
      (Panics nil_dereference)"
| deleted: "wait_run cfg 120 (Some o') None ps (Returns None) \<Longrightarrow>
    delete_run cfg vm
      (CInstancesGet (Project cfg) (Zone cfg) (vm_name vm) (Some i) None #
       CInstancesDelete (Project cfg) (Zone cfg) (vm_name vm) (Some o') None # ps)
      (Returns None)"
| failed: "wait_run cfg 120 (Some o') None ps (Returns (Some e)) \<Longrightarrow>
    delete_run cfg vm
      (CInstancesGet (Project cfg) (Zone cfg) (vm_name vm) (Some i) None #
       CInstancesDelete (Project cfg) (Zone cfg) (vm_name vm) (Some o') None # ps @
       [CVMUpdateStatus (vm_namespace vm) (mark_failed vm (errorf_v ''error deleting GCE instance: '' e)) ue])
      (Returns ue)"
| crashed: "wait_run cfg 120 (Some o') None ps (Panics m) \<Longrightarrow>
    delete_run cfg vm
      (CInstancesGet (Project cfg) (Zone cfg) (vm_name vm) (Some i) None #
       CInstancesDelete (Project cfg) (Zone cfg) (vm_name vm) (Some o') None # ps)
      (Panics m)"

lemma deleteVM_run:
  "\<exists>r w' cs. deleteVM env cfg vm w = (r, w') \<and> hist w' = hist w @ cs \<and> clock w \<le> clock w' \<and>
     delete_run cfg vm cs r"
proof -
  obtain i err w1 where get: "gce_InstancesGet env (Project cfg) (Zone cfg) (vm_name vm) w = (Returns (i, err), w1)"
      "hist w1 = hist w @ [CInstancesGet (Project cfg) (Zone cfg) (vm_name vm) i err]" "clock w \<le> clock w1"
    by (rule gce_InstancesGet_returns)
  show ?thesis
  proof (cases err)
    case (Some e)
    with get show ?thesis
      by (auto simp: deleteVM_def go_simps intro: delete_run.absent delete_run.unknown)
  next
    case ok: None
    show ?thesis
    proof (cases i)
      case None
      with get ok show ?thesis
        by (auto simp: deleteVM_def go_simps intro: delete_run.nil_instance)
    next
      case (Some inst)
      obtain op derr w2 where del: "gce_InstancesDelete env (Project cfg) (Zone cfg) (vm_name vm) w1 = (Returns (op, derr), w2)"
          "hist w2 = hist w1 @ [CInstancesDelete (Project cfg) (Zone cfg) (vm_name vm) op derr]" "clock w1 \<le> clock w2"
        by (rule gce_InstancesDelete_returns)
      have eq: "deleteVM env cfg vm w =
          andthen (if derr = None then waitForOperation env cfg op else ret derr) (\<lambda>err.
            case err of
              Some e \<Rightarrow> handleError env vm (errorf_v ''error deleting GCE instance: '' e)
            | None \<Rightarrow> ret None) w2"
        using get(1) ok Some del(1) by (simp add: deleteVM_def go_simps)
      show ?thesis
        by (cases rule: wait_or_report_cases [where env = env and cfg = cfg and vm = vm and op = op
              and err = derr and lead = "''error deleting GCE instance: ''" and g = "ret None" and w = w2])
          (use eq get(2,3) ok Some del(2,3) in \<open>auto simp: go_simps intro: delete_run.intros\<close>)
    qed
  qed
qed

subsection \<open>Creation and key renewal\<close>

text \<open>Looking the machine up, trying to connect, and publishing the key pair in a secret.\<close>

inductive publish_run ::
    "configuration \<Rightarrow> virtual_machine \<Rightarrow> string \<Rightarrow> string \<Rightarrow> call list \<Rightarrow> go_error option panicky \<Rightarrow> bool"
  for cfg vm pem pub where
  not_located:
    "publish_run cfg vm pem pub
      [CInstancesGet (Project cfg) (Zone cfg) (vm_name vm) i (Some e)]
      (Returns (Some (errorf_v ''failed to check for virtual machine: '' e)))"
| no_hostname: "instance_hostname i = Panics m \<Longrightarrow>
    publish_run cfg vm pem pub
      [CInstancesGet (Project cfg) (Zone cfg) (vm_name vm) i None] (Panics m)"
| published: "instance_hostname (Some i) = Returns h \<Longrightarrow> list_all is_poll qs \<Longrightarrow>
    publish_run cfg vm pem pub
      (CInstancesGet (Project cfg) (Zone cfg) (vm_name vm) (Some i) None # qs @
       [CSecretCreate (vm_namespace vm) (ssh_secret vm pem pub i h) se])
      (Returns (map_option (errorf_v ''could not create SSH secret: '') se))"

lemma instance_hostname_None [simp]: "instance_hostname None = Panics nil_dereference"
  by (simp add: instance_hostname_def)

lemma locate_and_publish_run:
  "\<exists>r w' cs. locate_and_publish env cfg vm pem pub w = (r, w') \<and> hist w' = hist w @ cs \<and>
     clock w \<le> clock w' \<and> publish_run cfg vm pem pub cs r"
proof -
  obtain inst err w1 where get:
      "gce_InstancesGet env (Project cfg) (Zone cfg) (vm_name vm) w = (Returns (inst, err), w1)"
      "hist w1 = hist w @ [CInstancesGet (Project cfg) (Zone cfg) (vm_name vm) inst err]"
      "clock w \<le> clock w1"
    by (rule gce_InstancesGet_returns)
  consider (located) i h where "err = None" "inst = Some i" "instance_hostname (Some i) = Returns h"
    | (panics) m where "err = None" "instance_hostname inst = Panics m"
    | (unknown) e where "err = Some e"
    by (cases err; cases inst; cases "instance_hostname inst") auto
  then show ?thesis
  proof cases
    case located
    obtain perr w2 where poll:
        "pollForSSHConnection env (SSHConnectionConfig cfg) h cloud_user pem w1 = (Returns perr, w2)"
      using pollForSSHConnection_no_panic by blast
    then have "extends is_poll w1 w2" by (rule emits_apply [OF pollForSSHConnection_emits])
    then obtain qs where qs: "hist w2 = hist w1 @ qs" "list_all is_poll qs" "clock w1 \<le> clock w2"
      by (auto simp: extends_def)
    obtain se w3 where sec: "secrets_Create env (vm_namespace vm) (ssh_secret vm pem pub i h) w2 = (Returns se, w3)"
        "hist w3 = hist w2 @ [CSecretCreate (vm_namespace vm) (ssh_secret vm pem pub i h) se]"
        "clock w2 \<le> clock w3"
      by (rule secrets_Create_returns)
    have "locate_and_publish env cfg vm pem pub w =
        (Returns (map_option (errorf_v ''could not create SSH secret: '') se), w3)"
      using get(1) located poll sec(1)
      by (cases se) (simp_all add: locate_and_publish_def go_simps)
    with get(2,3) located(1,2) sec(2,3) qs publish_run.published [OF located(3) qs(2)]
    show ?thesis by auto
  next
    case panics
    with get show ?thesis
      by (auto simp: locate_and_publish_def go_simps intro: publish_run.no_hostname)
  next
    case unknown
    with get show ?thesis
      by (auto simp: locate_and_publish_def go_simps intro: publish_run.not_located)
  qed
qed

text \<open>
  The protocol of \<open>runVMOpPollSSH\<close> for an action whose one call is \<open>recd\<close>: make a key pair, start
  the operation with the public key, wait until it is done, and only then look the machine up and
  publish the pair.
\<close>

inductive op_run ::
    "'e env \<Rightarrow> configuration \<Rightarrow> virtual_machine \<Rightarrow>
     (string \<Rightarrow> operation option \<Rightarrow> go_error option \<Rightarrow> call) \<Rightarrow>
     call list \<Rightarrow> go_error option panicky \<Rightarrow> bool"
  for env cfg vm recd where
  no_keypair:
    "op_run env cfg vm recd [CGenerateKey 4096 ke]
      (Returns (Some (errorf_v ''could not create SSH keypair for VM: '' e)))"
| refused: "keypair_of env pem pub \<Longrightarrow>
    op_run env cfg vm recd
      [CGenerateKey 4096 None, recd (formatted_public_key pub) op (Some e),
       CVMUpdateStatus (vm_namespace vm) (mark_failed vm (errorf_v ''error running operation: '' e)) ue]
      (Returns ue)"
| nil_operation: "keypair_of env pem pub \<Longrightarrow>
    op_run env cfg vm recd
      [CGenerateKey 4096 None, recd (formatted_public_key pub) None None] (Panics nil_dereference)"
| crashed: "keypair_of env pem pub \<Longrightarrow> wait_run cfg 120 (Some o') None ps (Panics m) \<Longrightarrow>
    op_run env cfg vm recd
      (CGenerateKey 4096 None # recd (formatted_public_key pub) (Some o') None # ps) (Panics m)"
| failed: "keypair_of env pem pub \<Longrightarrow> wait_run cfg 120 (Some o') None ps (Returns (Some e)) \<Longrightarrow>
    op_run env cfg vm recd
      (CGenerateKey 4096 None # recd (formatted_public_key pub) (Some o') None # ps @
       [CVMUpdateStatus (vm_namespace vm) (mark_failed vm (errorf_v ''error running operation: '' e)) ue])
      (Returns ue)"
| completed: "keypair_of env pem pub \<Longrightarrow> wait_run cfg 120 (Some o') None ps (Returns None) \<Longrightarrow>
    publish_run cfg vm pem pub cs r \<Longrightarrow>
    op_run env cfg vm recd
      (CGenerateKey 4096 None # recd (formatted_public_key pub) (Some o') None # ps @ cs) r"

text \<open>
  What \<open>runVMOpPollSSH\<close> needs of its action: it returns, after exactly one call, which is recorded.
\<close>

locale machine_action =
  fixes action :: "string \<Rightarrow> ('e world, operation option \<times> go_error option) go"
    and recd :: "string \<Rightarrow> operation option \<Rightarrow> go_error option \<Rightarrow> call"
  assumes action_returns:
    "\<exists>op err w'. action key w = (Returns (op, err), w') \<and> hist w' = hist w @ [recd key op err] \<and>
       clock w \<le> clock w'"
begin

lemma follows_op_run:
  "\<exists>r w' cs. runVMOpPollSSH env cfg vm action w = (r, w') \<and> hist w' = hist w @ cs \<and>
     clock w \<le> clock w' \<and> op_run env cfg vm recd cs r"
proof (cases rule: newSSHKeypair_returns [where env = env and w = w])
  case (failed e ke w')
  then show ?thesis
    by (auto simp: runVMOpPollSSH_def go_simps intro: op_run.no_keypair)
next
  case (made pem pub w1)
  obtain op err w2 where act: "action (formatted_public_key pub) w1 = (Returns (op, err), w2)"
      "hist w2 = hist w1 @ [recd (formatted_public_key pub) op err]" "clock w1 \<le> clock w2"
    using action_returns by blast
  have eq: "runVMOpPollSSH env cfg vm action w =
      andthen (if err = None then waitForOperation env cfg op else ret err) (\<lambda>err.
        case err of
          Some e \<Rightarrow> handleError env vm (errorf_v ''error running operation: '' e)
        | None \<Rightarrow> locate_and_publish env cfg vm pem pub) w2"
    using made(1) act(1) by (simp add: runVMOpPollSSH_def go_simps)
  show ?thesis
  proof (cases rule: wait_or_report_cases [where env = env and cfg = cfg and vm = vm and op = op
        and err = err and lead = "''error running operation: ''"
        and g = "locate_and_publish env cfg vm pem pub" and w = w2])
    case (succeeded o' ps w3)
    obtain r w' cs where "locate_and_publish env cfg vm pem pub w3 = (r, w')"
        "hist w' = hist w3 @ cs" "clock w3 \<le> clock w'" "publish_run cfg vm pem pub cs r"
      using locate_and_publish_run by blast
    with eq made(2-4) act(2,3) succeeded show ?thesis
      by (auto intro: op_run.completed)
  qed (use eq made(2-4) act(2,3) in \<open>auto intro: op_run.intros\<close>)
qed

end

abbreviation insertion_call ::
    "configuration \<Rightarrow> virtual_machine \<Rightarrow> string \<Rightarrow> operation option \<Rightarrow> go_error option \<Rightarrow> call" where
  "insertion_call cfg vm \<equiv> (\<lambda>key. CInstancesInsert (Project cfg) (Zone cfg) (insert_request cfg vm key))"

abbreviation renewal_call ::
    "configuration \<Rightarrow> virtual_machine \<Rightarrow> string \<Rightarrow> operation option \<Rightarrow> go_error option \<Rightarrow> call" where
  "renewal_call cfg vm \<equiv>
     (\<lambda>key. CSetMetadata (Project cfg) (Zone cfg) (vm_name vm) (ssh_keys_metadata key))"

interpretation insertion: machine_action
  "\<lambda>key. gce_InstancesInsert env (Project cfg) (Zone cfg) (insert_request cfg vm key)"
  "\<lambda>key. CInstancesInsert (Project cfg) (Zone cfg) (insert_request cfg vm key)"
  for env :: "'e env" and cfg vm
  by unfold_locales (rule gce_InstancesInsert_returns; blast)

interpretation key_renewal: machine_action
  "\<lambda>key. gce_SetMetadata env (Project cfg) (Zone cfg) (vm_name vm) (ssh_keys_metadata key)"
  "\<lambda>key. CSetMetadata (Project cfg) (Zone cfg) (vm_name vm) (ssh_keys_metadata key)"
  for env :: "'e env" and cfg vm
  by unfold_locales (rule gce_SetMetadata_returns; blast)

lemma createNewVM_run:
  "\<exists>r w' cs. createNewVM env cfg vm w = (r, w') \<and> hist w' = hist w @ cs \<and> clock w \<le> clock w' \<and>
     op_run env cfg vm (insertion_call cfg vm) cs r"
  unfolding createNewVM_def by (rule insertion.follows_op_run)

lemma refreshSSHKey_run:
  "\<exists>r w' cs. refreshSSHKey env cfg vm w = (r, w') \<and> hist w' = hist w @ cs \<and> clock w \<le> clock w' \<and>
     op_run env cfg vm (renewal_call cfg vm) cs r"
  unfolding refreshSSHKey_def by (rule key_renewal.follows_op_run)

subsection \<open>Ensuring the machine exists\<close>

text \<open>The lookup failures after which the code tries to create the machine.\<close>

definition looks_absent :: "go_error option \<Rightarrow> bool" where
  "looks_absent err = (case err of None \<Rightarrow> True
     | Some e \<Rightarrow> as_googleapi e = None \<or> as_googleapi e = Some StatusNotFound)"

inductive ensure_run ::
    "'e env \<Rightarrow> configuration \<Rightarrow> virtual_machine \<Rightarrow> call list \<Rightarrow> go_error option panicky \<Rightarrow> bool"
  for env cfg vm where
  present:
    "ensure_run env cfg vm
      [CInstancesGet (Project cfg) (Zone cfg) (vm_name vm) (Some i) err,
       CSecretGet (vm_namespace vm) (vm_name vm) None] (Returns None)"
| secret_unknown: "\<not> IsNotFound (Some e) \<Longrightarrow>
    ensure_run env cfg vm
      [CInstancesGet (Project cfg) (Zone cfg) (vm_name vm) (Some i) err,
       CSecretGet (vm_namespace vm) (vm_name vm) (Some e)]
      (Returns (Some (errorf_v ''failed to check for existance of secret: '' e)))"
| renewed: "IsNotFound (Some e) \<Longrightarrow> op_run env cfg vm (renewal_call cfg vm) cs r \<Longrightarrow>
    ensure_run env cfg vm
      (CInstancesGet (Project cfg) (Zone cfg) (vm_name vm) (Some i) err #
       CSecretGet (vm_namespace vm) (vm_name vm) (Some e) # cs) r"
| unknown: "\<not> looks_absent (Some e) \<Longrightarrow>
    ensure_run env cfg vm [CInstancesGet (Project cfg) (Zone cfg) (vm_name vm) None (Some e)]
      (Returns (Some (errorf_v ''failed to check for existance of virtual machine: '' e)))"
| created: "looks_absent err \<Longrightarrow> op_run env cfg vm (insertion_call cfg vm) cs r \<Longrightarrow>
    ensure_run env cfg vm
      (CInstancesGet (Project cfg) (Zone cfg) (vm_name vm) None err # cs) r"

lemma ensureVM_run:
  "\<exists>r w' cs. ensureVM env cfg vm w = (r, w') \<and> hist w' = hist w @ cs \<and> clock w \<le> clock w' \<and>
     ensure_run env cfg vm cs r"
proof -
  obtain inst err w1 where get:
      "gce_InstancesGet env (Project cfg) (Zone cfg) (vm_name vm) w = (Returns (inst, err), w1)"
      "hist w1 = hist w @ [CInstancesGet (Project cfg) (Zone cfg) (vm_name vm) inst err]"
      "clock w \<le> clock w1"
    by (rule gce_InstancesGet_returns)
  show ?thesis
  proof (cases inst)
    case (Some i)
    obtain serr w2 where sec: "secrets_Get env (vm_namespace vm) (vm_name vm) w1 = (Returns serr, w2)"
        "hist w2 = hist w1 @ [CSecretGet (vm_namespace vm) (vm_name vm) serr]" "clock w1 \<le> clock w2"
      by (rule secrets_Get_returns)
    have eq: "ensureVM env cfg vm w =
        (case serr of
           Some e \<Rightarrow> if IsNotFound (Some e) then refreshSSHKey env cfg vm
             else ret (Some (errorf_v ''failed to check for existance of secret: '' e))
         | None \<Rightarrow> ret None) w2"
      using get(1) Some sec(1) by (simp add: ensureVM_def go_simps)
    show ?thesis
    proof (cases serr)
      case None
      with eq get Some sec show ?thesis by (auto simp: go_simps intro: ensure_run.present)
    next
      case e: (Some e)
      show ?thesis
      proof (cases "IsNotFound (Some e)")
        case True
        with e eq get Some sec refreshSSHKey_run [of env cfg vm w2] ensure_run.renewed [OF True]
        show ?thesis by fastforce
      next
        case False
        with e eq get Some sec show ?thesis
          by (auto simp: go_simps intro: ensure_run.secret_unknown)
      qed
    qed
  next
    case None
    show ?thesis
    proof (cases "looks_absent err")
      case True
      have "ensureVM env cfg vm w = createNewVM env cfg vm w1"
        using get(1) None True
        by (auto simp: ensureVM_def go_simps looks_absent_def split: option.splits)
      with None get createNewVM_run [of env cfg vm w1] ensure_run.created [OF True]
      show ?thesis by fastforce
    next
      case False
      then obtain e code where "err = Some e" "as_googleapi e = Some code" "code \<noteq> StatusNotFound"
        by (auto simp: looks_absent_def split: option.splits)
      with None get False show ?thesis
        by (auto simp: ensureVM_def go_simps intro: ensure_run.unknown)
    qed
  qed
qed

end
