(* ===== verification/String_Sets.thy ===== *)
theory String_Sets
  imports Go_Base
begin

text \<open>
  The string sets of \<open>k8s.io/apimachinery/pkg/util/sets\<close> through which the operator edits the
  finalizers of an object. The Go type is a map from strings to empty structs; the model keeps
  the keys of that map as a list without repetitions. Nothing but \<open>List\<close> iterates over the
  map, and it sorts what it collects. The interface \<open>string_set\<close> states what callers rely on;
  the model of the map is its interpretation.
\<close>

section \<open>The map of keys\<close>

fun sets_Insert :: "string list \<Rightarrow> string list \<Rightarrow> string list" where
  "sets_Insert [] s = s"
| "sets_Insert (item # items) s =
     sets_Insert items (if item \<in> set s then s else s @ [item])"

definition NewString :: "string list \<Rightarrow> string list" where
  "NewString items = (let ss = [] in sets_Insert items ss)"

fun sets_Delete :: "string list \<Rightarrow> string list \<Rightarrow> string list" where
  "sets_Delete [] s = s"
| "sets_Delete (item # items) s = sets_Delete items (remove1 item s)"

definition sets_Has :: "string list \<Rightarrow> string \<Rightarrow> bool" where
  "sets_Has s item = (item \<in> set s)"

fun sets_HasAll :: "string list \<Rightarrow> string list \<Rightarrow> bool" where
  "sets_HasAll s [] = True"
| "sets_HasAll s (item # items) = (if \<not> sets_Has s item then False else sets_HasAll s items)"

definition sets_List :: "string list \<Rightarrow> string list" where
  "sets_List s = sort s"

lemma distinct_sets_Insert: "distinct s \<Longrightarrow> distinct (sets_Insert items s)"
  by (induction items s rule: sets_Insert.induct) auto

lemma set_sets_Insert: "set (sets_Insert items s) = set items \<union> set s"
  by (induction items s rule: sets_Insert.induct) auto

lemma distinct_sets_Delete: "distinct s \<Longrightarrow> distinct (sets_Delete items s)"
  by (induction items s rule: sets_Delete.induct) auto

lemma set_sets_Delete: "distinct s \<Longrightarrow> set (sets_Delete items s) = set s - set items"
  by (induction items s rule: sets_Delete.induct) auto

section \<open>The interface\<close>

text \<open>
  What a client may rely on: \<open>elements\<close> reads a set value of the implementation as a
  mathematical set, \<open>invar\<close> holds of every value the constructors build, and \<open>listed\<close> is the
  sorted enumeration.
\<close>

locale string_set =
  fixes new :: "string list \<Rightarrow> 's"
    and ins :: "string list \<Rightarrow> 's \<Rightarrow> 's"
    and del :: "string list \<Rightarrow> 's \<Rightarrow> 's"
    and has :: "'s \<Rightarrow> string \<Rightarrow> bool"
    and listed :: "'s \<Rightarrow> string list"
    and elements :: "'s \<Rightarrow> string set"
    and invar :: "'s \<Rightarrow> bool"
  assumes invar_new: "invar (new xs)"
    and elements_new: "elements (new xs) = set xs"
    and invar_ins: "invar s \<Longrightarrow> invar (ins xs s)"
    and elements_ins: "invar s \<Longrightarrow> elements (ins xs s) = set xs \<union> elements s"
    and invar_del: "invar s \<Longrightarrow> invar (del xs s)"
    and elements_del: "invar s \<Longrightarrow> elements (del xs s) = elements s - set xs"
    and has_iff: "invar s \<Longrightarrow> has s x \<longleftrightarrow> x \<in> elements s"
    and set_listed: "invar s \<Longrightarrow> set (listed s) = elements s"
    and sorted_listed: "invar s \<Longrightarrow> sorted (listed s)"
    and distinct_listed: "invar s \<Longrightarrow> distinct (listed s)"
begin

lemmas laws = invar_new elements_new invar_ins elements_ins invar_del elements_del has_iff
  set_listed

text \<open>The enumeration is determined by the elements alone, whatever the insertion order.\<close>

lemma listed_eq: "invar s \<Longrightarrow> listed s = sorted_list_of_set (elements s)"
  by (rule sorted_distinct_set_unique)
    (simp_all add: sorted_listed distinct_listed set_listed flip: set_listed)

lemma listed_cong:
  "invar s \<Longrightarrow> invar t \<Longrightarrow> elements s = elements t \<Longrightarrow> listed s = listed t"
  by (simp add: listed_eq)

lemma has_new: "has (new xs) x \<longleftrightarrow> x \<in> set xs"
  by (simp add: laws)

lemma listed_ins_new: "listed (ins ys (new xs)) = sorted_list_of_set (set ys \<union> set xs)"
  by (simp add: listed_eq laws)

lemma listed_del_new: "listed (del ys (new xs)) = sorted_list_of_set (set xs - set ys)"
  by (simp add: listed_eq laws)

lemma listed_new_sorted: "sorted xs \<Longrightarrow> distinct xs \<Longrightarrow> listed (new xs) = xs"
  by (simp add: listed_eq laws sorted_list_of_set.idem_if_sorted_distinct)

text \<open>Inserting what is there, and deleting what was just inserted.\<close>

lemma listed_ins_again: "listed (ins ys (new (listed (ins ys (new xs))))) = listed (ins ys (new xs))"
  by (rule listed_cong) (auto simp: laws)

lemma listed_del_ins:
  assumes "set ys \<inter> set xs = {}"
  shows "listed (del ys (new (listed (ins ys (new xs))))) = listed (new xs)"
  using assms by (intro listed_cong) (auto simp: laws)

end

interpretation key_map: string_set NewString sets_Insert sets_Delete sets_Has sets_List set distinct
  by unfold_locales
    (simp_all add: NewString_def sets_Has_def sets_List_def set_sets_Insert distinct_sets_Insert
      set_sets_Delete distinct_sets_Delete)

lemma sets_HasAll_iff: "sets_HasAll s items \<longleftrightarrow> set items \<subseteq> set s"
  by (induction items) (auto simp: sets_Has_def)

end
