(* ===== verification/Object_Keys.thy ===== *)
theory Object_Keys
  imports Api_Types
begin

text \<open>
  The keys under which the controller queues objects: \<open>MetaNamespaceKeyFunc\<close>,
  \<open>DeletionHandlingMetaNamespaceKeyFunc\<close> and \<open>SplitMetaNamespaceKey\<close> of
  \<open>k8s.io/client-go/tools/cache\<close>. The interface \<open>key_codec\<close> states the round trip the
  controller needs: what an informer event enqueues is what the reconciler reads back.
\<close>

section \<open>Objects the informer delivers\<close>

text \<open>
  The dynamic types that matter to the key functions: a virtual machine, an explicit key, the
  tombstone of an object whose deletion the watch missed, and anything without metadata.
\<close>

datatype informer_object =
    VMObject virtual_machine
  | ExplicitKey string
  | DeletedFinalStateUnknown string informer_object
  | OtherObject string

fun MetaNamespaceKeyFunc :: "informer_object \<Rightarrow> string \<times> go_error option" where
  "MetaNamespaceKeyFunc (ExplicitKey key) = (key, None)"
| "MetaNamespaceKeyFunc (VMObject vm) =
     (if length (vm_namespace vm) > 0 then (vm_namespace vm @ ''/'' @ vm_name vm, None)
      else (vm_name vm, None))"
| "MetaNamespaceKeyFunc obj =
     ('''', Some (ErrorString (''object has no meta: '' @
        ''object does not implement the Object interfaces'')))"

fun DeletionHandlingMetaNamespaceKeyFunc :: "informer_object \<Rightarrow> string \<times> go_error option" where
  "DeletionHandlingMetaNamespaceKeyFunc (DeletedFinalStateUnknown key obj) = (key, None)"
| "DeletionHandlingMetaNamespaceKeyFunc obj = MetaNamespaceKeyFunc obj"

definition SplitMetaNamespaceKey :: "string \<Rightarrow> string \<times> string \<times> go_error option" where
  "SplitMetaNamespaceKey key =
     (case split_at_byte slash key of
        [name] \<Rightarrow> ('''', name, None)
      | [namespace, name] \<Rightarrow> (namespace, name, None)
      | _ \<Rightarrow> ('''', '''', Some (ErrorString (''unexpected key format: '' @ fmt_q key))))"

section \<open>The round trip\<close>

definition key_of :: "string \<Rightarrow> string \<Rightarrow> string" where
  "key_of namespace name = (if namespace = [] then name else namespace @ ''/'' @ name)"

text \<open>Names and namespaces of API objects contain no slash.\<close>

definition slash_free :: "string \<Rightarrow> bool" where
  "slash_free s = (slash \<notin> set s)"

lemma key_of_VMObject:
  "DeletionHandlingMetaNamespaceKeyFunc (VMObject vm) = (key_of (vm_namespace vm) (vm_name vm), None)"
  by (simp add: key_of_def)

lemma split_key_of:
  assumes "slash_free ns" "slash_free n"
  shows "SplitMetaNamespaceKey (key_of ns n) = (ns, n, None)"
proof (cases "ns = []")
  case True
  with assms show ?thesis
    by (simp add: SplitMetaNamespaceKey_def key_of_def slash_free_def split_at_byte_none)
next
  case False
  have "split_at_byte slash (ns @ slash # n) = [ns, n]"
    using assms by (simp add: slash_free_def split_at_byte_append split_at_byte_none)
  with False show ?thesis
    by (simp add: SplitMetaNamespaceKey_def key_of_def slash_def)
qed

lemma split_key_parts_slash_free:
  "SplitMetaNamespaceKey key = (ns, n, None) \<Longrightarrow> slash_free ns \<and> slash_free n"
  using split_at_byte_no_sep [of _ slash key]
  by (auto simp: SplitMetaNamespaceKey_def slash_free_def split: list.splits)

lemma split_key_error_iff:
  "(\<exists>e. SplitMetaNamespaceKey key = ([], [], Some e)) \<longleftrightarrow> 2 \<le> count_list key slash"
proof -
  have len: "length (split_at_byte slash key) = Suc (count_list key slash)"
    by (rule length_split_at_byte)
  consider (one) x where "split_at_byte slash key = [x]"
    | (two) x y where "split_at_byte slash key = [x, y]"
    | (more) x y z zs where "split_at_byte slash key = x # y # z # zs"
    by (metis list.exhaust split_at_byte_ne)
  then show ?thesis
    using len by cases (simp_all add: SplitMetaNamespaceKey_def)
qed

lemma split_key_error_parts:
  "SplitMetaNamespaceKey key = (a, b, Some e) \<Longrightarrow> a = [] \<and> b = []"
  by (auto simp: SplitMetaNamespaceKey_def split: list.splits)

locale key_codec =
  fixes encode :: "string \<Rightarrow> string \<Rightarrow> string"
    and decode :: "string \<Rightarrow> string \<times> string \<times> go_error option"
    and valid_part :: "string \<Rightarrow> bool"
  assumes decode_encode: "valid_part ns \<Longrightarrow> valid_part n \<Longrightarrow> decode (encode ns n) = (ns, n, None)"
    and decode_valid: "decode key = (ns, n, None) \<Longrightarrow> valid_part ns \<and> valid_part n"
begin

lemma encode_inj:
  assumes "valid_part ns" "valid_part n" "valid_part ns'" "valid_part n'"
  shows "encode ns n = encode ns' n' \<longleftrightarrow> ns = ns' \<and> n = n'"
  by (metis decode_encode [OF assms(1,2)] decode_encode [OF assms(3,4)] prod.inject)

lemma decode_stable: "decode key = (ns, n, None) \<Longrightarrow> decode (encode ns n) = (ns, n, None)"
  by (metis decode_valid decode_encode)

end

interpretation meta_key: key_codec key_of SplitMetaNamespaceKey slash_free
  by unfold_locales (simp_all add: split_key_of split_key_parts_slash_free)

end
