(* ===== verification/Reconciler.thy ===== *)
theory Reconciler
  imports Gce_Machines String_Sets Object_Keys
begin

text \<open>
  \<open>reconcile\<close> of \<open>pkg/controller/controller.go\<close>: one pass over one key, which drives the machine
  to what the object asks for, and the protocol it follows.
\<close>

section \<open>reconcile\<close>

text \<open>The object sent to remove the finalizer.\<close>

definition drop_finalizer :: "virtual_machine \<Rightarrow> virtual_machine" where
  "drop_finalizer vm =
     (let finalizers = NewString (vm_finalizers vm);
          finalizers = sets_Delete [VirtualMachineFinalizer] finalizers
      in vm\<lparr>metadata := (metadata vm)\<lparr>om_finalizers := Slice (sets_List finalizers)\<rparr>\<rparr>)"

definition reconcile ::
    "'e env \<Rightarrow> configuration \<Rightarrow> string \<Rightarrow> ('e world, go_error option) go" where
  "reconcile env cfg key =
     (case SplitMetaNamespaceKey key of
        (_, _, Some e) \<Rightarrow> ret (Some e)
      | (namespace, name, None) \<Rightarrow>
     andthen (vms_Get env namespace name) (\<lambda>(vm, err).
     if IsNotFound err then ret None
     else case err of
       Some e \<Rightarrow> ret (Some e)
     | None \<Rightarrow>
       if \<not> IsZero (om_deletionTimestamp (metadata vm)) then
         if \<not> sets_Has (NewString (vm_finalizers vm)) VirtualMachineFinalizer then ret None
         else
           andthen (deleteVM env cfg vm) (\<lambda>err.
           case err of
             Some e \<Rightarrow> ret (Some e)
           | None \<Rightarrow>
             andthen (vms_Update env namespace (drop_finalizer vm)) (\<lambda>err.
             case err of Some e \<Rightarrow> ret (Some e) | None \<Rightarrow> ret None))
       else ensureVM env cfg vm))"

section \<open>Finalizers\<close>

definition being_deleted :: "virtual_machine \<Rightarrow> bool" where
  "being_deleted vm = (\<not> IsZero (om_deletionTimestamp (metadata vm)))"

definition has_finalizer :: "virtual_machine \<Rightarrow> bool" where
  "has_finalizer vm = (VirtualMachineFinalizer \<in> set (vm_finalizers vm))"

lemma sets_Has_finalizer [simp]:
  "sets_Has (NewString (vm_finalizers vm)) VirtualMachineFinalizer = has_finalizer vm"
  by (simp add: has_finalizer_def key_map.has_new)

lemma drop_finalizer_finalizers:
  "vm_finalizers (drop_finalizer vm) =
     sorted_list_of_set (set (vm_finalizers vm) - {VirtualMachineFinalizer})"
  using key_map.listed_del_new [of "[VirtualMachineFinalizer]" "vm_finalizers vm"]
  by (simp add: drop_finalizer_def Let_def)

lemma drop_finalizer_rest:
  "spec (drop_finalizer vm) = spec vm" "status (drop_finalizer vm) = status vm"
  "vm_name (drop_finalizer vm) = vm_name vm" "vm_namespace (drop_finalizer vm) = vm_namespace vm"
  "om_deletionTimestamp (metadata (drop_finalizer vm)) = om_deletionTimestamp (metadata vm)"
  by (simp_all add: drop_finalizer_def Let_def)

section \<open>The protocol of a pass\<close>

inductive reconcile_run ::
    "'e env \<Rightarrow> configuration \<Rightarrow> string \<Rightarrow> call list \<Rightarrow> go_error option panicky \<Rightarrow> bool"
  for env cfg key where
  bad_key: "SplitMetaNamespaceKey key = (a, b, Some e) \<Longrightarrow>
    reconcile_run env cfg key [] (Returns (Some e))"
| deleted_object: "SplitMetaNamespaceKey key = (ns, n, None) \<Longrightarrow> IsNotFound (Some e) \<Longrightarrow>
    reconcile_run env cfg key [CVMGet ns n vm (Some e)] (Returns None)"
| unreadable: "SplitMetaNamespaceKey key = (ns, n, None) \<Longrightarrow> \<not> IsNotFound (Some e) \<Longrightarrow>
    reconcile_run env cfg key [CVMGet ns n vm (Some e)] (Returns (Some e))"
| finalized: "SplitMetaNamespaceKey key = (ns, n, None) \<Longrightarrow>
    being_deleted vm \<Longrightarrow> \<not> has_finalizer vm \<Longrightarrow>
    reconcile_run env cfg key [CVMGet ns n vm None] (Returns None)"
| not_deleted: "SplitMetaNamespaceKey key = (ns, n, None) \<Longrightarrow>
    being_deleted vm \<Longrightarrow> has_finalizer vm \<Longrightarrow>
    delete_run cfg vm ds r \<Longrightarrow> r \<noteq> Returns None \<Longrightarrow>
    reconcile_run env cfg key (CVMGet ns n vm None # ds) r"
| released: "SplitMetaNamespaceKey key = (ns, n, None) \<Longrightarrow>
    being_deleted vm \<Longrightarrow> has_finalizer vm \<Longrightarrow>
    delete_run cfg vm ds (Returns None) \<Longrightarrow>
    reconcile_run env cfg key (CVMGet ns n vm None # ds @ [CVMUpdate ns (drop_finalizer vm) ue]) (Returns ue)"
| ensured: "SplitMetaNamespaceKey key = (ns, n, None) \<Longrightarrow>
    \<not> being_deleted vm \<Longrightarrow> ensure_run env cfg vm es r \<Longrightarrow>
    reconcile_run env cfg key (CVMGet ns n vm None # es) r"

lemma reconcile_reads:
  assumes "SplitMetaNamespaceKey key = (ns, n, None)"
  obtains vm err w1 where "vms_Get env ns n w = (Returns (vm, err), w1)"
    "hist w1 = hist w @ [CVMGet ns n vm err]" "clock w \<le> clock w1"
    "reconcile env cfg key w =
       (if IsNotFound err then (Returns None, w1)
        else case err of
          Some e \<Rightarrow> (Returns (Some e), w1)
        | None \<Rightarrow>
          if being_deleted vm then
            if \<not> has_finalizer vm then (Returns None, w1)
            else andthen (deleteVM env cfg vm) (\<lambda>err. case err of
                Some e \<Rightarrow> ret (Some e)
              | None \<Rightarrow> vms_Update env ns (drop_finalizer vm)) w1
          else ensureVM env cfg vm w1)"
proof -
  have last: "andthen m (\<lambda>err. case err of Some e \<Rightarrow> ret (Some e) | None \<Rightarrow> ret None) = m"
    for m :: "('e world, go_error option) go"
  proof -
    have "(\<lambda>err. case err of Some e \<Rightarrow> ret (Some e) | None \<Rightarrow> ret None) =
        (ret :: go_error option \<Rightarrow> ('e world, go_error option) go)"
      by (auto simp: fun_eq_iff split: option.splits)
    then show ?thesis by simp
  qed
  obtain vm err w1 where get: "vms_Get env ns n w = (Returns (vm, err), w1)"
      "hist w1 = hist w @ [CVMGet ns n vm err]" "clock w \<le> clock w1"
    by (rule vms_Get_returns)
  from get(1) assms show thesis
    by (intro that [OF get])
      (auto simp: reconcile_def being_deleted_def last go_simps split: option.splits)
qed

lemma reconcile_follows_run:
  "\<exists>r w' cs. reconcile env cfg key w = (r, w') \<and> hist w' = hist w @ cs \<and> clock w \<le> clock w' \<and>
     reconcile_run env cfg key cs r"
proof -
  obtain ns n kerr where key: "SplitMetaNamespaceKey key = (ns, n, kerr)"
    by (metis prod_cases3)
  show ?thesis
  proof (cases kerr)
    case (Some e)
    with key show ?thesis by (auto simp: reconcile_def go_simps intro: reconcile_run.bad_key)
  next
    case None
    with key have key: "SplitMetaNamespaceKey key = (ns, n, None)" by simp
    obtain vm err w1 where get: "vms_Get env ns n w = (Returns (vm, err), w1)"
        "hist w1 = hist w @ [CVMGet ns n vm err]" "clock w \<le> clock w1"
      and eq: "reconcile env cfg key w =
       (if IsNotFound err then (Returns None, w1)
        else case err of
          Some e \<Rightarrow> (Returns (Some e), w1)
        | None \<Rightarrow>
          if being_deleted vm then
            if \<not> has_finalizer vm then (Returns None, w1)
            else andthen (deleteVM env cfg vm) (\<lambda>err. case err of
                Some e \<Rightarrow> ret (Some e)
              | None \<Rightarrow> vms_Update env ns (drop_finalizer vm)) w1
          else ensureVM env cfg vm w1)"
      by (rule reconcile_reads [OF key])
    consider (error) e where "err = Some e"
      | (finalized) "err = None" "being_deleted vm" "\<not> has_finalizer vm"
      | (deleting) "err = None" "being_deleted vm" "has_finalizer vm"
      | (ensuring) "err = None" "\<not> being_deleted vm"
      by (cases err) auto
    then show ?thesis
    proof cases
      case error
      with eq get key show ?thesis
        by (auto intro: reconcile_run.deleted_object reconcile_run.unreadable)
    next
      case finalized
      with eq get key show ?thesis by (auto intro: reconcile_run.finalized)
    next
      case deleting
      obtain r w2 ds where del: "deleteVM env cfg vm w1 = (r, w2)" "hist w2 = hist w1 @ ds"
          "clock w1 \<le> clock w2" "delete_run cfg vm ds r"
        using deleteVM_run by blast
      show ?thesis
      proof (cases "r = Returns None")
        case True
        obtain ue w3 where "vms_Update env ns (drop_finalizer vm) w2 = (Returns ue, w3)"
            "hist w3 = hist w2 @ [CVMUpdate ns (drop_finalizer vm) ue]" "clock w2 \<le> clock w3"
          by (rule vms_Update_returns)
        with eq deleting get del True reconcile_run.released [OF key deleting(2,3)]
        show ?thesis by (auto simp: go_simps)
      next
        case False
        with eq deleting get del have "reconcile env cfg key w = (r, w2)"
          by (cases r) (auto simp: go_simps split: option.splits)
        with get del False deleting reconcile_run.not_deleted [OF key deleting(2,3) del(4) False]
        show ?thesis by auto
      qed
    next
      case ensuring
      obtain r w2 es where "ensureVM env cfg vm w1 = (r, w2)" "hist w2 = hist w1 @ es"
          "clock w1 \<le> clock w2" "ensure_run env cfg vm es r"
        using ensureVM_run by blast
      with eq ensuring get reconcile_run.ensured [OF key ensuring(2)] show ?thesis by auto
    qed
  qed
qed

lemma reconcile_obeys:
  "reconcile_run env cfg key (calls_of (reconcile env cfg key) w) (fst (reconcile env cfg key w))"
  using reconcile_follows_run [of env cfg key w] by (auto simp: calls_of_eq)

end
