(* ===== verification/Effects.thy ===== *)
theory Effects
  imports Reconciler
begin

text \<open>
  What a pass changes: the calls that change a machine or an object of the cluster, in order, for
  each protocol. Everything a pass may do to the outside follows from these lists; lookups, polls,
  dials and key generation change nothing.
\<close>

text \<open>The calls of a pass, and of ensuring a machine.\<close>

abbreviation pass_calls :: "'e env \<Rightarrow> configuration \<Rightarrow> string \<Rightarrow> 'e world \<Rightarrow> call list" where
  "pass_calls env cfg key w \<equiv> calls_of (reconcile env cfg key) w"

abbreviation ensure_calls :: "'e env \<Rightarrow> configuration \<Rightarrow> virtual_machine \<Rightarrow> 'e world \<Rightarrow> call list" where
  "ensure_calls env cfg vm w \<equiv> calls_of (ensureVM env cfg vm) w"

section \<open>Calls without effect\<close>

definition effects :: "call list \<Rightarrow> call list" where
  "effects cs = filter (\<lambda>c. machine_change c \<or> cluster_change c) cs"

lemma effects_simps [simp]:
  "effects [] = []"
  "effects (c # cs) = (if machine_change c \<or> cluster_change c then c # effects cs else effects cs)"
  "effects (cs @ ds) = effects cs @ effects ds"
  by (simp_all add: effects_def)

lemma set_effects: "c \<in> set (effects cs) \<longleftrightarrow> c \<in> set cs \<and> (machine_change c \<or> cluster_change c)"
  by (simp add: effects_def)

lemma machine_changes_effects: "filter machine_change (effects cs) = filter machine_change cs"
  by (simp add: effects_def) (metis (mono_tags, lifting))

lemma op_poll_no_change: "is_op_poll c \<Longrightarrow> \<not> machine_change c \<and> \<not> cluster_change c"
  by (cases c) (simp_all add: is_op_poll_def)

lemma is_poll_no_change: "is_poll c \<Longrightarrow> \<not> machine_change c \<and> \<not> cluster_change c"
  by (cases c) (simp_all add: is_poll_def)

lemma effects_none:
  "list_all P cs \<Longrightarrow> (\<And>c. P c \<Longrightarrow> \<not> machine_change c \<and> \<not> cluster_change c) \<Longrightarrow> effects cs = []"
  by (induction cs) auto

lemma wait_run_effects [simp]: "wait_run cfg n op err cs r \<Longrightarrow> effects cs = []"
  by (rule effects_none [OF wait_run_is_op_poll op_poll_no_change])

lemma is_poll_effects [simp]: "list_all is_poll cs \<Longrightarrow> effects cs = []"
  by (erule effects_none) (rule is_poll_no_change)

section \<open>The effects of each protocol\<close>

inductive_cases publish_runE: "publish_run cfg vm pem pub cs r"
inductive_cases op_runE: "op_run env cfg vm recd cs r"
inductive_cases delete_runE: "delete_run cfg vm cs r"
inductive_cases ensure_runE: "ensure_run env cfg vm cs r"
inductive_cases reconcile_runE: "reconcile_run env cfg key cs r"

lemma publish_run_effects:
  assumes "publish_run cfg vm pem pub cs r"
  obtains (nothing) "effects cs = []" "r \<noteq> Returns None"
  | (secret) i h se where "effects cs = [CSecretCreate (vm_namespace vm) (ssh_secret vm pem pub i h) se]"
      "instance_hostname (Some i) = Returns h"
      "CInstancesGet (Project cfg) (Zone cfg) (vm_name vm) (Some i) None \<in> set cs"
      "r = Returns (map_option (errorf_v ''could not create SSH secret: '') se)"
  using assms by (elim publish_runE) auto

lemma op_run_effects:
  assumes "op_run env cfg vm recd cs r" "\<And>k op err. machine_change (recd k op err)"
  obtains (nothing) "effects cs = []" "\<exists>e. r = Returns (Some e)"
  | (started) pub op err where "effects cs = [recd (formatted_public_key pub) op err]"
      "r \<noteq> Returns None"
  | (failed) pub op err e ue where "effects cs = [recd (formatted_public_key pub) op err,
        CVMUpdateStatus (vm_namespace vm) (mark_failed vm (errorf_v ''error running operation: '' e)) ue]"
      "r = Returns ue"
  | (published) pem pub o' i h se where "keypair_of env pem pub"
      "effects cs = [recd (formatted_public_key pub) (Some o') None,
        CSecretCreate (vm_namespace vm) (ssh_secret vm pem pub i h) se]"
      "instance_hostname (Some i) = Returns h"
      "CInstancesGet (Project cfg) (Zone cfg) (vm_name vm) (Some i) None \<in> set cs"
      "\<exists>ps. wait_run cfg 120 (Some o') None ps (Returns None) \<and> set ps \<subseteq> set cs"
      "r = Returns (map_option (errorf_v ''could not create SSH secret: '') se)"
  using assms(1)
proof (cases rule: op_run.cases)
  case (completed pem pub o' ps ds)
  show thesis
  proof (cases rule: publish_run_effects [OF completed(4)])
    case 1
    with completed assms(2) show thesis by (intro started [of pub "Some o'" None]) auto
  next
    case (2 i h se)
    with completed assms(2) show thesis by (intro published [of pem pub o' i h se]) auto
  qed
qed (use assms(2) nothing started failed in auto)

text \<open>The secret is not looked up again.\<close>

lemma lookup_not_poll [simp]: "\<not> is_poll (CSecretGet ns n err)" "\<not> is_op_poll (CSecretGet ns n err)"
  by (simp_all add: is_poll_def is_op_poll_def)

lemma op_run_no_lookup:
  assumes "op_run env cfg vm recd cs r" "\<And>k op err. machine_change (recd k op err)"
  shows "CSecretGet ns n err \<notin> set cs"
proof -
  have other: "CSecretGet ns n err \<noteq> recd k op e" for k op e
    using assms(2) [of k op e] by (cases "recd k op e") auto
  have waits: "CSecretGet ns n err \<notin> set ps" if "wait_run cfg m op e ps r" for m op e ps r
    using wait_run_is_op_poll [OF that] lookup_not_poll(2) by (metis list_all_iff)
  have polls: "CSecretGet ns n err \<notin> set ps" if "list_all is_poll ps" for ps
    using that lookup_not_poll(1) by (metis list_all_iff)
  from assms(1) show ?thesis
    by (elim op_runE; (elim publish_runE)?) (auto simp: other dest: waits polls)
qed

text \<open>
  A secret is the last call of the protocol, and everything before it is determined.
\<close>

lemma publish_run_secret:
  assumes "publish_run cfg vm pem pub cs r" "CSecretCreate ns s se \<in> set cs"
  obtains i h qs where "s = ssh_secret vm pem pub i h" "ns = vm_namespace vm"
    "instance_hostname (Some i) = Returns h" "list_all is_poll qs"
    "cs = CInstancesGet (Project cfg) (Zone cfg) (vm_name vm) (Some i) None # qs @ [CSecretCreate ns s se]"
  using assms by (elim publish_runE) (auto simp: is_poll_def list_all_iff split: call.splits)

lemma op_run_secret:
  assumes run: "op_run env cfg vm recd cs r" and mc: "\<And>k op err. machine_change (recd k op err)"
    and sec: "CSecretCreate ns s se \<in> set cs"
  obtains pem pub o' ps i h qs where "keypair_of env pem pub" "s = ssh_secret vm pem pub i h"
    "ns = vm_namespace vm" "wait_run cfg 120 (Some o') None ps (Returns None)"
    "instance_hostname (Some i) = Returns h" "list_all is_poll qs"
    "cs = CGenerateKey 4096 None # recd (formatted_public_key pub) (Some o') None # ps @
       CInstancesGet (Project cfg) (Zone cfg) (vm_name vm) (Some i) None # qs @ [CSecretCreate ns s se]"
proof -
  have other: "CSecretCreate ns s se \<noteq> recd k op err" for k op err
    using mc [of k op err] by (cases "recd k op err") auto
  have poll: "CSecretCreate ns s se \<notin> set ps" if "wait_run cfg n op err ps r" for n op err ps r
    using wait_run_is_op_poll [OF that] by (auto simp: list_all_iff is_op_poll_def)
  show thesis
    using run
  proof (cases rule: op_run.cases)
    case (completed pem pub o' ps ds)
    with sec other poll have "CSecretCreate ns s se \<in> set ds" by auto
    from completed(4) this show thesis
      by (rule publish_run_secret) (rule that [OF completed(2) _ _ completed(3)], use completed(1) in auto)
  qed (use sec other poll in auto)
qed

text \<open>An operation that is refused ends the protocol: its error goes to the status.\<close>

lemma op_run_refused:
  assumes "op_run env cfg vm recd cs r" "recd k op (Some e) \<in> set cs"
    "\<And>k op err. machine_change (recd k op err)"
    "\<And>k op err k' op' err'. recd k op err = recd k' op' err' \<Longrightarrow> err = err'"
  obtains ue where "last cs = CVMUpdateStatus (vm_namespace vm)
      (mark_failed vm (errorf_v ''error running operation: '' e)) ue" "r = Returns ue"
proof -
  have mine: "machine_change (recd k op (Some e))" by (rule assms(3))
  with assms(2) have eff: "recd k op (Some e) \<in> set (effects cs)" by (simp add: set_effects)
  have other: "recd k op (Some e) \<noteq> CSecretCreate ns s se"
    "recd k op (Some e) \<noteq> CVMUpdateStatus ns v ue" for ns s se v ue using mine by auto
  from assms(1) show thesis
  proof (cases rule: op_run.cases)
    case (refused pem pub op' e' ue)
    with assms(2) mine have "e' = e" by (auto dest: assms(4))
    with refused show thesis by (intro that [of ue]) simp_all
  next
    case (completed pem pub o' ps ds)
    then show thesis using eff
      by (cases rule: publish_run_effects [OF completed(4)]) (auto simp: assms(3) other dest: assms(4))
  qed (use eff mine assms(3) in \<open>auto simp: other dest: assms(4)\<close>)
qed

lemma delete_run_effects:
  assumes "delete_run cfg vm cs r"
  obtains (nothing) "effects cs = []"
  | (started) op err where "effects cs = [CInstancesDelete (Project cfg) (Zone cfg) (vm_name vm) op err]"
  | (failed) op err e ue where "effects cs = [CInstancesDelete (Project cfg) (Zone cfg) (vm_name vm) op err,
        CVMUpdateStatus (vm_namespace vm) (mark_failed vm (errorf_v ''error deleting GCE instance: '' e)) ue]"
      "r = Returns ue"
  using assms by (elim delete_runE) auto

lemma ensure_run_effects:
  assumes "ensure_run env cfg vm cs r"
  obtains (nothing) "effects cs = []"
  | (renewal) ds where "effects cs = effects ds" "op_run env cfg vm (renewal_call cfg vm) ds r"
      "set ds \<subseteq> set cs"
  | (insertion) ds where "effects cs = effects ds" "op_run env cfg vm (insertion_call cfg vm) ds r"
      "set ds \<subseteq> set cs"
  using assms
proof (cases rule: ensure_run.cases)
  case (renewed e ds i err)
  then show thesis by (intro renewal [of ds]) auto
next
  case (created err ds)
  then show thesis by (intro insertion [of ds]) auto
qed (use nothing in auto)

lemma reconcile_run_effects:
  assumes "reconcile_run env cfg key cs r"
  obtains (nothing) "effects cs = []"
  | (deleting) ns n vm ds where "cs = CVMGet ns n vm None # ds" "SplitMetaNamespaceKey key = (ns, n, None)"
      "being_deleted vm" "has_finalizer vm" "delete_run cfg vm ds r" "r \<noteq> Returns None"
  | (releasing) ns n vm ds ue where "cs = CVMGet ns n vm None # ds @ [CVMUpdate ns (drop_finalizer vm) ue]"
      "SplitMetaNamespaceKey key = (ns, n, None)"
      "being_deleted vm" "has_finalizer vm" "delete_run cfg vm ds (Returns None)" "r = Returns ue"
  | (ensuring) ns n vm ds where "cs = CVMGet ns n vm None # ds"
      "SplitMetaNamespaceKey key = (ns, n, None)" "\<not> being_deleted vm" "ensure_run env cfg vm ds r"
  using assms by (elim reconcile_runE) auto

text \<open>The two operations are told apart by their call.\<close>

lemma renewal_never_inserts:
  assumes "op_run env cfg vm (renewal_call cfg vm) cs r"
  shows "CInstancesInsert p z inst op e \<notin> set cs"
proof
  assume "CInstancesInsert p z inst op e \<in> set cs"
  then have "CInstancesInsert p z inst op e \<in> set (effects cs)" by (simp add: set_effects)
  then show False by (cases rule: op_run_effects [OF assms]) auto
qed

lemma insertion_never_renews:
  assumes "op_run env cfg vm (insertion_call cfg vm) cs r"
  shows "CSetMetadata p z n md op e \<notin> set cs"
proof
  assume "CSetMetadata p z n md op e \<in> set cs"
  then have "CSetMetadata p z n md op e \<in> set (effects cs)" by (simp add: set_effects)
  then show False by (cases rule: op_run_effects [OF assms]) auto
qed

section \<open>Effects of a pass\<close>

lemma op_run_machine:
  assumes "op_run env cfg vm recd cs r" "\<And>k op err. machine_change (recd k op err)"
  shows "length (filter machine_change (effects cs)) \<le> 1"
  by (cases rule: op_run_effects [OF assms]) (simp_all add: assms(2))

lemma ensure_run_machine:
  assumes "ensure_run env cfg vm cs r"
  shows "length (filter machine_change (effects cs)) \<le> 1"
  by (cases rule: ensure_run_effects [OF assms]) (auto dest: op_run_machine)

lemma delete_run_machine:
  assumes "delete_run cfg vm cs r"
  shows "length (filter machine_change (effects cs)) \<le> 1"
  by (cases rule: delete_run_effects [OF assms]) simp_all

lemma reconcile_run_machine:
  assumes "reconcile_run env cfg key cs r"
  shows "length (filter machine_change (effects cs)) \<le> 1"
  by (cases rule: reconcile_run_effects [OF assms])
    (auto dest!: ensure_run_machine delete_run_machine)

text \<open>A secret in a run of \<open>ensureVM\<close> comes from one of the two operations.\<close>

lemma ensure_run_secret:
  assumes run: "ensure_run env cfg vm cs r" and sec: "CSecretCreate ns s se \<in> set cs"
  obtains call ds r' pre where "call \<in> {insertion_call cfg vm, renewal_call cfg vm}"
    "op_run env cfg vm call ds r" "cs = pre @ ds" "CSecretCreate ns s se \<in> set ds"
  using run
proof (cases rule: ensure_run.cases)
  case (renewed e ds i err)
  with sec show thesis
    by (intro that [of "renewal_call cfg vm" ds
          "[CInstancesGet (Project cfg) (Zone cfg) (vm_name vm) (Some i) err,
            CSecretGet (vm_namespace vm) (vm_name vm) (Some e)]"]) auto
next
  case (created err ds)
  with sec show thesis
    by (intro that [of "insertion_call cfg vm" ds
          "[CInstancesGet (Project cfg) (Zone cfg) (vm_name vm) None err]"]) auto
qed (use sec in auto)

text \<open>The calls that are about one object and its machine.\<close>

fun concerns :: "configuration \<Rightarrow> string \<Rightarrow> virtual_machine \<Rightarrow> call \<Rightarrow> bool" where
  "concerns cfg ns vm (CInstancesDelete p z n op err) =
     (p = Project cfg \<and> z = Zone cfg \<and> n = vm_name vm)"
| "concerns cfg ns vm (CInstancesInsert p z i op err) =
     (p = Project cfg \<and> z = Zone cfg \<and> (\<exists>key. i = insert_request cfg vm key))"
| "concerns cfg ns vm (CSetMetadata p z n md op err) =
     (p = Project cfg \<and> z = Zone cfg \<and> n = vm_name vm)"
| "concerns cfg ns vm (CVMUpdate ns' v err) = (ns' = ns \<and> v = drop_finalizer vm)"
| "concerns cfg ns vm (CVMUpdateStatus ns' v err) =
     (ns' = vm_namespace vm \<and> (\<exists>e. v = mark_failed vm e))"
| "concerns cfg ns vm (CSecretCreate ns' s err) =
     (ns' = vm_namespace vm \<and> (\<exists>pem pub i h. s = ssh_secret vm pem pub i h))"
| "concerns cfg ns vm c = True"

lemma op_run_concerns:
  assumes "op_run env cfg vm recd cs r" "\<And>k op err. machine_change (recd k op err)"
    "\<And>k op err. concerns cfg ns vm (recd k op err)"
  shows "list_all (concerns cfg ns vm) (effects cs)"
  by (cases rule: op_run_effects [OF assms(1,2)]) (auto simp: assms(3))

lemma delete_run_concerns:
  assumes "delete_run cfg vm cs r"
  shows "list_all (concerns cfg ns vm) (effects cs)"
  by (cases rule: delete_run_effects [OF assms]) auto

lemma ensure_run_concerns:
  assumes "ensure_run env cfg vm cs r"
  shows "list_all (concerns cfg ns vm) (effects cs)"
proof (cases rule: ensure_run_effects [OF assms])
  case (2 ds)
  then show ?thesis by (simp add: op_run_concerns)
next
  case (3 ds)
  then show ?thesis using op_run_concerns [OF 3(2), of ns] by auto
qed simp

lemma reconcile_run_concerns:
  assumes "reconcile_run env cfg key cs r" "c \<in> set (effects cs)"
  shows "\<exists>ns n vm rest. cs = CVMGet ns n vm None # rest \<and>
    SplitMetaNamespaceKey key = (ns, n, None) \<and> concerns cfg ns vm c"
  using assms
  by (cases rule: reconcile_run_effects)
    (auto simp: list_all_iff dest!: delete_run_concerns ensure_run_concerns)

section \<open>Reads and updates of the object\<close>

text \<open>The reads of a pass are of the object under its key.\<close>

lemma op_run_no_read:
  assumes "op_run env cfg vm recd cs r" "\<And>k op err. machine_change (recd k op err)"
  shows "CVMGet ns n v err \<notin> set cs \<and> CVMUpdate ns v err \<notin> set cs"
proof -
  have other: "CVMGet ns n v err \<noteq> recd k op e" "CVMUpdate ns v err \<noteq> recd k op e" for k op e
    using assms(2) [of k op e] by (cases "recd k op e"; auto)+
  have poll: "\<not> is_poll (CVMGet ns n v err)" "\<not> is_op_poll (CVMGet ns n v err)"
      "\<not> is_poll (CVMUpdate ns v err)" "\<not> is_op_poll (CVMUpdate ns v err)"
    by (simp_all add: is_poll_def is_op_poll_def)
  have waits: "c \<notin> set ps" if "wait_run cfg m op e ps r" "\<not> is_op_poll c" for m op e ps r c
    using wait_run_is_op_poll [OF that(1)] that(2) by (auto simp: list_all_iff)
  have polls: "c \<notin> set ps" if "list_all is_poll ps" "\<not> is_poll c" for ps c
    using that by (auto simp: list_all_iff)
  from assms(1) show ?thesis
    by (elim op_runE; (elim publish_runE)?) (auto simp: other dest: waits [OF _ poll(2)] waits [OF _ poll(4)] polls [OF _ poll(1)] polls [OF _ poll(3)])
qed

lemma delete_run_no_read:
  "delete_run cfg vm cs r \<Longrightarrow> CVMGet ns n v err \<notin> set cs \<and> CVMUpdate ns v err \<notin> set cs"
proof -
  assume run: "delete_run cfg vm cs r"
  have waits: "CVMGet ns n v err \<notin> set ps \<and> CVMUpdate ns v err \<notin> set ps" if "wait_run cfg m op e ps r" for m op e ps r
    using wait_run_is_op_poll [OF that] by (auto simp: list_all_iff is_op_poll_def)
  from run show ?thesis by (elim delete_runE) (auto dest: waits)
qed

lemma ensure_run_no_read:
  assumes "ensure_run env cfg vm cs r"
  shows "CVMGet ns n v err \<notin> set cs \<and> CVMUpdate ns v err \<notin> set cs"
  using assms by (elim ensure_runE) (auto dest: op_run_no_read)

lemma pass_reads:
  assumes "reconcile_run env cfg key cs r" "CVMGet ns n v err \<in> set cs"
  shows "SplitMetaNamespaceKey key = (ns, n, None)"
  using assms by (elim reconcile_runE) (auto dest: delete_run_no_read ensure_run_no_read)

text \<open>An object is updated only to release it.\<close>

lemma pass_updates:
  assumes "reconcile_run env cfg key cs r" "CVMUpdate ns u ue \<in> set cs"
  shows "\<exists>n vm rest. cs = CVMGet ns n vm None # rest \<and> being_deleted vm \<and> has_finalizer vm \<and> u = drop_finalizer vm"
  using assms by (elim reconcile_runE) (auto dest: delete_run_no_read ensure_run_no_read)

section \<open>Panics\<close>

text \<open>A panic comes from a nil pointer or an empty slice, and before any object is changed.\<close>

definition runtime_panic :: "string \<Rightarrow> bool" where
  "runtime_panic m = (m = nil_dereference \<or> m = index_out_of_range)"

lemma write_messages_panic: "write_messages errs items = Panics m \<Longrightarrow> m = nil_dereference"
  by (induction errs items rule: write_messages.induct) auto

lemma checkOp_panic: "checkOp op err = Panics m \<Longrightarrow> m = nil_dereference"
  by (auto simp: checkOp_def write_messages_panic split: if_splits option.splits panicky.splits)

lemma wait_run_panic: "wait_run cfg n op err cs r \<Longrightarrow> r = Panics m \<Longrightarrow> m = nil_dereference"
  by (induction rule: wait_run.induct) (auto dest: checkOp_panic)

lemma instance_hostname_panic: "instance_hostname i = Panics m \<Longrightarrow> runtime_panic m"
  by (auto simp: instance_hostname_def runtime_panic_def split: option.splits list.splits)

lemma machine_not_cluster: "machine_change c \<Longrightarrow> \<not> cluster_change c"
  by (cases c) simp_all

lemma no_cluster_change:
  assumes "list_all machine_change (effects cs)"
  shows "filter cluster_change cs = []"
proof -
  have "\<not> cluster_change c" if "c \<in> set cs" for c
    using assms that by (auto simp: list_all_iff set_effects dest: machine_not_cluster)
  then show ?thesis by (simp add: filter_empty_conv)
qed

definition clean_panic :: "call list \<Rightarrow> go_error option panicky \<Rightarrow> bool" where
  "clean_panic cs r = (\<forall>m. r = Panics m \<longrightarrow> runtime_panic m \<and> list_all machine_change (effects cs))"

lemma publish_run_panic: "publish_run cfg vm pem pub cs r \<Longrightarrow> clean_panic cs r"
  by (auto simp: clean_panic_def elim!: publish_runE dest: instance_hostname_panic)

lemma op_run_panic:
  assumes "op_run env cfg vm recd cs r" "\<And>k op err. machine_change (recd k op err)"
  shows "clean_panic cs r"
  using assms(1)
proof (cases rule: op_run.cases)
  case (completed pem pub o' ps ds)
  with publish_run_panic [OF completed(4)] assms(2) show ?thesis
    by (simp add: clean_panic_def)
qed (use assms(2) in \<open>auto simp: clean_panic_def runtime_panic_def dest: wait_run_panic\<close>)

lemma delete_run_panic: "delete_run cfg vm cs r \<Longrightarrow> clean_panic cs r"
  by (cases rule: delete_run.cases, assumption)
    (auto simp: clean_panic_def runtime_panic_def dest: wait_run_panic)

lemma ensure_run_panic:
  assumes "ensure_run env cfg vm cs r"
  shows "clean_panic cs r"
proof (cases rule: ensure_run.cases [OF assms])
  case (3 e ds r' i err)
  then show ?thesis
    using op_run_panic [OF 3(4)] by (simp add: clean_panic_def)
next
  case (5 err ds r')
  then show ?thesis
    using op_run_panic [OF 5(4)] by (simp add: clean_panic_def)
qed (auto simp: clean_panic_def)

lemma clean_panic_prefix:
  "clean_panic ds r \<Longrightarrow> \<not> cluster_change c \<Longrightarrow> clean_panic (c # ds) r"
  by (auto simp: clean_panic_def)

lemma reconcile_run_panic:
  assumes "reconcile_run env cfg key cs r"
  shows "clean_panic cs r"
proof (cases rule: reconcile_run.cases [OF assms])
  case (5 ns n vm ds r')
  then show ?thesis by (simp add: clean_panic_prefix delete_run_panic)
next
  case (7 ns n vm ds r')
  then show ?thesis by (simp add: clean_panic_prefix ensure_run_panic)
qed (auto simp: clean_panic_def)

end
