(* ===== verification/Sample_World.thy ===== *)
theory Sample_World
  imports Cloud_Env
begin

text \<open>
  Concrete inputs for the witnesses of the properties: a virtual machine, a configuration, and a
  world in which every service answers, an operation is done at the first poll, and the first dial
  connects. Witnesses that need a different answer change one function of \<open>sample_env\<close>.
\<close>

definition an_operation :: "string \<Rightarrow> operation" where
  "an_operation st = \<lparr>op_Name = ''op-1'', op_OperationType = ''delete'', op_Status = st,
     op_Zone = ''projects/p/zones/z'', op_Progress = 0, op_StatusMessage = [], op_Error = None\<rparr>"

definition an_instance :: gce_instance where
  "an_instance = \<lparr>in_Name = ''vm'', in_MachineType = [], in_Metadata = None, in_CanIpForward = True,
     in_NetworkInterfaces = [Some \<lparr>ni_Network = [], ni_AccessConfigs =
       [Some \<lparr>ac_Type = [], ac_Name = [], ac_NatIP = ''10.0.0.1''\<rparr>]\<rparr>], in_Disks = []\<rparr>"

definition sample_vm :: "gotime option \<Rightarrow> virtual_machine" where
  "sample_vm deleted =
     \<lparr>type_meta = \<lparr>kind = ''VirtualMachine'', apiVersion = ''ci.openshift.io/v1alpha1''\<rparr>,
      metadata = \<lparr>om_name = ''vm'', om_namespace = ''ci'', om_uid = ''u1'', om_resourceVersion = ''1'',
        om_generation = 1, om_creationTimestamp = 0, om_deletionTimestamp = deleted,
        om_labels = NilSlice, om_annotations = NilSlice, om_ownerReferences = NilSlice,
        om_finalizers = Slice [VirtualMachineFinalizer]\<rparr>,
      spec = \<lparr>machineType = ''n1-standard-1'',
        bootDisk = \<lparr>sizeGb = 25, disk_type = ''pd-standard'', imageFamily = ''centos-6''\<rparr>,
        disks = Slice [\<lparr>sizeGb = 10, disk_type = ''pd-ssd''\<rparr>]\<rparr>,
      status = \<lparr>state = \<lparr>processingPhase = ProcessingPhasePending, message = []\<rparr>, selfLink = [],
        secretRef = \<lparr>ref_kind = [], ref_namespace = [], ref_name = [], ref_uid = []\<rparr>\<rparr>\<rparr>"

definition sample_cfg :: configuration where
  "sample_cfg = \<lparr>Project = ''p'', Zone = ''z'',
     SSHConnectionConfig = \<lparr>Retries = 3, DelaySeconds = 1, TimeoutSeconds = 2\<rparr>\<rparr>"

definition sample_env :: "virtual_machine \<Rightarrow> nat env" where
  "sample_env vm =
     \<lparr>InstancesDelete = (\<lambda>p z n e. ((Some (an_operation ''RUNNING''), None), Suc e)),
      InstancesGet = (\<lambda>p z n e. ((Some an_instance, None), Suc e)),
      InstancesInsert = (\<lambda>p z i e. ((Some (an_operation ''RUNNING''), None), Suc e)),
      SetMetadata = (\<lambda>p z i m e. ((Some (an_operation ''RUNNING''), None), Suc e)),
      ZoneOperationsGet = (\<lambda>p z n e. ((Some (an_operation ''DONE''), None), Suc e)),
      VMGet = (\<lambda>ns n e. ((vm, None), Suc e)),
      VMUpdate = (\<lambda>ns v e. (None, Suc e)),
      VMUpdateStatus = (\<lambda>ns v e. (None, Suc e)),
      SecretGet = (\<lambda>ns n e. (None, Suc e)),
      SecretCreate = (\<lambda>ns s e. (None, Suc e)),
      GenerateKey = (\<lambda>b e. ((''key'', None), Suc e)),
      PEMEncode = (\<lambda>k. (''pem'', None)),
      NewPublicKey = (\<lambda>k. (''pub'', None)),
      MarshalAuthorizedKey = (\<lambda>k. ''ssh-rsa AAAA''),
      ParsePrivateKey = (\<lambda>k. (''signer'', None)),
      DialTimeout = (\<lambda>nw a t e. ((''conn'', None), Suc e)),
      NewClientConn = (\<lambda>c a u s e. ((''client'', None), Suc e)),
      CloseConn = (\<lambda>c e. (None, Suc e)),
      pick_done = (\<lambda>e. True),
      lag = (\<lambda>e. 1)\<rparr>"

definition sample_world :: "nat world" where
  "sample_world = \<lparr>ext = 0, clock = 0, hist = []\<rparr>"

definition sample_key :: string where
  "sample_key = ''ci/vm''"

end
