(* ===== verification/Sample_Passes.thy ===== *)
theory Sample_Passes
  imports Effects Sample_World
begin

text \<open>
  The calls of some passes in the sample world, evaluated once for the witnesses that need them.
\<close>

text \<open>The objects of the sample passes: one that is being deleted and one that is not.\<close>

abbreviation deleted_vm :: virtual_machine where "deleted_vm \<equiv> sample_vm (Some 5)"
abbreviation live_vm :: virtual_machine where "live_vm \<equiv> sample_vm None"

lemma deletion_pass:
  "pass_calls (sample_env deleted_vm) sample_cfg sample_key sample_world =
     [CVMGet ''ci'' ''vm'' deleted_vm None,
      CInstancesGet ''p'' ''z'' ''vm'' (Some an_instance) None,
      CInstancesDelete ''p'' ''z'' ''vm'' (Some (an_operation ''RUNNING'')) None,
      CZoneOperationsGet ''p'' ''z'' ''op-1'' (Some (an_operation ''DONE'')) None,
      CVMUpdate ''ci'' (drop_finalizer deleted_vm) None]"
  by code_simp

definition quota_error :: go_error where
  "quota_error = GoogleAPIError \<lparr>g_code = 403, g_message = ''quota'', g_body = [], g_errors = []\<rparr>"

lemma refused_pass:
  "pass_calls ((sample_env deleted_vm)\<lparr>InstancesDelete := \<lambda>p z n e. ((None, Some quota_error), e)\<rparr>)
     sample_cfg sample_key sample_world =
     [CVMGet ''ci'' ''vm'' deleted_vm None,
      CInstancesGet ''p'' ''z'' ''vm'' (Some an_instance) None,
      CInstancesDelete ''p'' ''z'' ''vm'' None (Some quota_error),
      CVMUpdateStatus ''ci'' (mark_failed deleted_vm (errorf_v ''error deleting GCE instance: '' quota_error)) None,
      CVMUpdate ''ci'' (drop_finalizer deleted_vm) None]"
  by code_simp

lemma panicking_pass:
  "fst (reconcile ((sample_env deleted_vm)\<lparr>InstancesDelete := \<lambda>p z n e. ((None, None), e)\<rparr>)
     sample_cfg sample_key sample_world) = Panics nil_dereference"
  by code_simp

definition gone_error :: go_error where
  "gone_error = StatusError ''NotFound'' ''virtual machine not found''"

lemma gone_pass:
  "pass_calls ((sample_env live_vm)\<lparr>VMGet := \<lambda>ns n e. ((live_vm, Some gone_error), e)\<rparr>)
     sample_cfg sample_key sample_world = [CVMGet ''ci'' ''vm'' live_vm (Some gone_error)]"
  by code_simp

lemma creation_pass:
  "pass_calls ((sample_env live_vm)\<lparr>SecretGet := \<lambda>ns n e. (Some (StatusError ''NotFound'' ''no secret''), e)\<rparr>)
     sample_cfg sample_key sample_world =
     [CVMGet ''ci'' ''vm'' live_vm None,
      CInstancesGet ''p'' ''z'' ''vm'' (Some an_instance) None,
      CSecretGet ''ci'' ''vm'' (Some (StatusError ''NotFound'' ''no secret'')),
      CGenerateKey 4096 None,
      CSetMetadata ''p'' ''z'' ''vm'' (ssh_keys_metadata (formatted_public_key ''ssh-rsa AAAA''))
        (Some (an_operation ''RUNNING'')) None,
      CZoneOperationsGet ''p'' ''z'' ''op-1'' (Some (an_operation ''DONE'')) None,
      CInstancesGet ''p'' ''z'' ''vm'' (Some an_instance) None,
      CDial ''tcp'' ''10.0.0.1:22'' 2000000000 None,
      CSshConn ''10.0.0.1'' ''cloud-user'' None, CSshClose None,
      CSecretCreate ''ci'' (ssh_secret live_vm ''pem'' ''ssh-rsa AAAA'' an_instance ''10.0.0.1'') None]"
  by code_simp

lemma stable_calls:
  "ensure_calls (sample_env live_vm) sample_cfg live_vm sample_world =
     [CInstancesGet ''p'' ''z'' ''vm'' (Some an_instance) None, CSecretGet ''ci'' ''vm'' None]"
  by code_simp

lemma rejected_calls:
  "ensure_calls ((sample_env live_vm)\<lparr>InstancesGet := \<lambda>p z n e. ((None, None), e),
       InstancesInsert := \<lambda>p z i e. ((None, Some quota_error), e)\<rparr>) sample_cfg live_vm sample_world =
     [CInstancesGet ''p'' ''z'' ''vm'' None None, CGenerateKey 4096 None,
      insertion_call sample_cfg live_vm ''cloud-user:ssh-rsa AAAA cloud-user'' None (Some quota_error),
      CVMUpdateStatus ''ci'' (mark_failed live_vm (errorf_v ''error running operation: '' quota_error)) None]"
  by code_simp

end
