(* ===== verification/Heap_Order.thy ===== *)
theory Heap_Order
  imports Prelude
begin

text \<open>
  The package \<open>container/heap\<close> of Go: its functions over the interface \<open>heap.Interface\<close>, which is a
  record of the methods of a container, and the order that they keep. The locale \<open>heap_container\<close> says
  what they rely on: \<open>Less\<close> compares the keys at two positions, and \<open>Swap\<close> exchanges them.
\<close>

section \<open>The functions\<close>

record ('x, 'h) heap_interface =
  h_Len :: "'h \<Rightarrow> nat"
  h_Less :: "nat \<Rightarrow> nat \<Rightarrow> 'h \<Rightarrow> bool"
  h_Swap :: "nat \<Rightarrow> nat \<Rightarrow> 'h \<Rightarrow> 'h"
  h_Push :: "'x \<Rightarrow> 'h \<Rightarrow> 'h"
  h_Pop :: "'h \<Rightarrow> 'x \<times> 'h"

function heap_up :: "('x, 'h) heap_interface \<Rightarrow> nat \<Rightarrow> 'h \<Rightarrow> 'h" where
  "heap_up I j h =
     (let i = (j - 1) div 2
      in if i = j \<or> \<not> h_Less I j i h then h else heap_up I i (h_Swap I i j h))"
  by pat_completeness auto
termination by (relation "measure (\<lambda>(I, j, h). j)") auto

text \<open>The position where \<open>down\<close> stops is returned too; its result is that this is below the start.\<close>

function heap_down :: "('x, 'h) heap_interface \<Rightarrow> nat \<Rightarrow> nat \<Rightarrow> 'h \<Rightarrow> nat \<times> 'h" where
  "heap_down I i n h =
     (let j1 = 2 * i + 1
      in if j1 \<ge> n then (i, h)
         else
           let j2 = j1 + 1;
               j = (if j2 < n \<and> h_Less I j2 j1 h then j2 else j1)
           in if \<not> h_Less I j i h then (i, h) else heap_down I j n (h_Swap I i j h))"
  by pat_completeness auto
termination by (relation "measure (\<lambda>(I, i, n, h). n - i)") (auto split: if_splits)

declare heap_up.simps [simp del] heap_down.simps [simp del]

fun heap_init_from :: "('x, 'h) heap_interface \<Rightarrow> nat \<Rightarrow> nat \<Rightarrow> 'h \<Rightarrow> 'h" where
  "heap_init_from I 0 n h = h"
| "heap_init_from I (Suc i) n h = heap_init_from I i n (snd (heap_down I i n h))"

definition heap_Init :: "('x, 'h) heap_interface \<Rightarrow> 'h \<Rightarrow> 'h" where
  "heap_Init I h = (let n = h_Len I h in heap_init_from I (n div 2) n h)"

definition heap_Push :: "('x, 'h) heap_interface \<Rightarrow> 'x \<Rightarrow> 'h \<Rightarrow> 'h" where
  "heap_Push I x h = (let h = h_Push I x h in heap_up I (h_Len I h - 1) h)"

definition heap_Pop :: "('x, 'h) heap_interface \<Rightarrow> 'h \<Rightarrow> 'x \<times> 'h" where
  "heap_Pop I h =
     (let n = h_Len I h - 1;
          h = h_Swap I 0 n h;
          h = snd (heap_down I 0 n h)
      in h_Pop I h)"

definition heap_Fix :: "('x, 'h) heap_interface \<Rightarrow> nat \<Rightarrow> 'h \<Rightarrow> 'h" where
  "heap_Fix I i h =
     (let (i', h') = heap_down I i (h_Len I h) h
      in if i' > i then h' else heap_up I i h')"

section \<open>The order\<close>

definition parent :: "nat \<Rightarrow> nat" where
  "parent j = (j - 1) div 2"

lemma parent_less [simp]: "0 < j \<Longrightarrow> parent j < j"
  by (simp add: parent_def less_mult_imp_div_less)

lemma parent_iff: "0 < k \<Longrightarrow> parent k = i \<longleftrightarrow> k = 2 * i + 1 \<or> k = 2 * i + 2"
  unfolding parent_def by presburger

lemma parent_child [simp]: "parent (Suc (2 * i)) = i" "parent (Suc (Suc (2 * i))) = i"
  by (simp_all add: parent_iff)

lemma heap_up_eq:
  "heap_up I j h =
     (if parent j = j \<or> \<not> h_Less I j (parent j) h then h else heap_up I (parent j) (h_Swap I (parent j) j h))"
  by (subst heap_up.simps) (simp add: parent_def Let_def)

definition heap_ordered :: "nat \<Rightarrow> (nat \<Rightarrow> 'a :: linorder) \<Rightarrow> bool" where
  "heap_ordered n f = (\<forall>k. 0 < k \<and> k < n \<longrightarrow> f (parent k) \<le> f k)"

text \<open>The order but for the element at \<open>j\<close>, which may be too small or too large for its place.\<close>

definition small_at :: "nat \<Rightarrow> nat \<Rightarrow> (nat \<Rightarrow> 'a :: linorder) \<Rightarrow> bool" where
  "small_at j n f =
     ((\<forall>k. 0 < k \<and> k < n \<and> k \<noteq> j \<longrightarrow> f (parent k) \<le> f k) \<and>
      (\<forall>k. 0 < k \<and> k < n \<and> parent k = j \<and> 0 < j \<longrightarrow> f (parent j) \<le> f k))"

definition large_at :: "nat \<Rightarrow> nat \<Rightarrow> (nat \<Rightarrow> 'a :: linorder) \<Rightarrow> bool" where
  "large_at i n f =
     ((\<forall>k. 0 < k \<and> k < n \<and> parent k \<noteq> i \<longrightarrow> f (parent k) \<le> f k) \<and>
      (\<forall>k. 0 < k \<and> k < n \<and> parent k = i \<and> 0 < i \<longrightarrow> f (parent i) \<le> f k))"

definition exchange :: "nat \<Rightarrow> nat \<Rightarrow> (nat \<Rightarrow> 'a) \<Rightarrow> nat \<Rightarrow> 'a" where
  "exchange i j f = f(i := f j, j := f i)"

lemma small_at_done: "small_at j n f \<Longrightarrow> j = 0 \<or> f (parent j) \<le> f j \<Longrightarrow> heap_ordered n f"
  unfolding small_at_def heap_ordered_def by (metis neq0_conv)

lemma small_at_step:
  assumes "small_at j n f" "0 < j" "j < n" "f j < f (parent j)"
  shows "small_at (parent j) n (exchange (parent j) j f)"
  unfolding small_at_def
proof (intro conjI allI impI)
  let ?i = "parent j" and ?g = "exchange (parent j) j f"
  have ne: "?i \<noteq> j" using assms(2) by (metis parent_less less_irrefl)
  have f: "f (parent k) \<le> f k" if "0 < k" "k < n" "k \<noteq> j" for k using assms(1) that by (simp add: small_at_def)
  fix k
  {
    assume k: "0 < k \<and> k < n \<and> k \<noteq> ?i"
    have pk: "parent k \<noteq> k" using k by (metis parent_less less_irrefl)
    consider "k = j" | "k \<noteq> j" "parent k = j" | "k \<noteq> j" "parent k = ?i" | "k \<noteq> j" "parent k \<noteq> j" "parent k \<noteq> ?i" by blast
    then show "?g (parent k) \<le> ?g k"
    proof cases
      case 1
      then show ?thesis using assms(4) ne by (simp add: exchange_def)
    next
      case 2
      then have "f ?i \<le> f k" using assms(1,2) k unfolding small_at_def by blast
      then show ?thesis using 2 k ne by (simp add: exchange_def)
    next
      case 3
      then show ?thesis using f [of k] assms(4) k ne by (simp add: exchange_def)
    next
      case 4
      then show ?thesis using f [of k] k by (simp add: exchange_def)
    qed
  }
  {
    assume k: "0 < k \<and> k < n \<and> parent k = ?i \<and> 0 < ?i"
    then have pi: "parent ?i < ?i" "?i < j" using assms(2) by simp_all
    have up: "f (parent ?i) \<le> f ?i" using f [of ?i] k assms(3) pi ne by simp
    have "k \<noteq> ?i" using k by (metis parent_less less_irrefl)
    then show "?g (parent ?i) \<le> ?g k"
      using up f [of k] k pi ne by (cases "k = j") (auto simp: exchange_def)
  }
qed

lemma large_at_done:
  "large_at i n f \<Longrightarrow> (\<And>k. 0 < k \<Longrightarrow> k < n \<Longrightarrow> parent k = i \<Longrightarrow> f i \<le> f k) \<Longrightarrow> heap_ordered n f"
  unfolding large_at_def heap_ordered_def by metis

lemma large_at_step:
  assumes "large_at i n f" "0 < j" "j < n" "parent j = i" "f j < f i"
    and least: "\<And>k. 0 < k \<Longrightarrow> k < n \<Longrightarrow> parent k = i \<Longrightarrow> f j \<le> f k"
  shows "large_at j n (exchange i j f)"
  unfolding large_at_def
proof (intro conjI allI impI)
  let ?g = "exchange i j f"
  have ij: "i < j" using parent_less [OF assms(2)] assms(4) by simp
  have f: "f (parent k) \<le> f k" if "0 < k" "k < n" "parent k \<noteq> i" for k using assms(1) that by (simp add: large_at_def)
  fix k
  {
    assume k: "0 < k \<and> k < n \<and> parent k \<noteq> j"
    have pk: "parent k < k" using k by simp
    consider "k = j" | "k \<noteq> j" "parent k = i" | "k = i" "parent k \<noteq> i" | "k \<noteq> j" "k \<noteq> i" "parent k \<noteq> i" by blast
    then show "?g (parent k) \<le> ?g k"
    proof cases
      case 1
      then show ?thesis using assms(4,5) ij by (simp add: exchange_def)
    next
      case 2
      then show ?thesis using least [of k] k pk by (auto simp: exchange_def)
    next
      case 3
      then have "f (parent i) \<le> f j" using assms(1-4) k unfolding large_at_def by blast
      then show ?thesis using 3 pk ij by (simp add: exchange_def)
    next
      case 4
      then show ?thesis using f [of k] k by (simp add: exchange_def)
    qed
  }
  {
    assume k: "0 < k \<and> k < n \<and> parent k = j \<and> 0 < j"
    then have "j < k" by (metis parent_less)
    then show "?g (parent j) \<le> ?g k" using f [of k] k ij assms(4) by (simp add: exchange_def)
  }
qed

lemma heap_root_least:
  assumes "heap_ordered n f" "k < n"
  shows "f 0 \<le> f k"
  using assms(2)
proof (induction k rule: less_induct)
  case (less k)
  then show ?case
  proof (cases "k = 0")
    case False
    then have "f 0 \<le> f (parent k)" using less by simp
    also have "\<dots> \<le> f k" using assms(1) less.prems False by (simp add: heap_ordered_def)
    finally show ?thesis .
  qed simp
qed

text \<open>The orders from which \<open>Push\<close>, \<open>Pop\<close> and \<open>Fix\<close> start.\<close>

lemma pushed_order: "heap_ordered n f \<Longrightarrow> \<forall>k < n. g k = f k \<Longrightarrow> small_at n (Suc n) g"
  unfolding heap_ordered_def small_at_def
  by (metis less_Suc_eq less_trans not_less_eq not_less_iff_gr_or_eq parent_less)

lemma popped_order: "heap_ordered (Suc n) f \<Longrightarrow> large_at 0 n (exchange 0 n f)"
  unfolding heap_ordered_def large_at_def exchange_def
  by (auto, metis less_SucI less_irrefl less_trans parent_less)

lemma lowered_order:
  assumes "heap_ordered n f" "i < n" "t \<le> f i"
  shows "small_at i n (f(i := t))" "0 < k \<Longrightarrow> k < n \<Longrightarrow> parent k = i \<Longrightarrow> (f(i := t)) i \<le> (f(i := t)) k"
proof -
  have f: "f (parent k) \<le> f k" if "0 < k" "k < n" for k using assms(1) that by (simp add: heap_ordered_def)
  have ne: "parent k \<noteq> k" if "0 < k" for k using that by (metis parent_less less_irrefl)
  show "small_at i n (f(i := t))"
    unfolding small_at_def
  proof (intro conjI allI impI)
    fix k assume "0 < k \<and> k < n \<and> k \<noteq> i"
    then show "(f(i := t)) (parent k) \<le> (f(i := t)) k" using f [of k] assms(3) by (auto intro: order_trans)
  next
    fix k assume k: "0 < k \<and> k < n \<and> parent k = i \<and> 0 < i"
    then have "f (parent i) \<le> f i" "f i \<le> f k" using f [of i] f [of k] assms(2) by auto
    then show "(f(i := t)) (parent i) \<le> (f(i := t)) k" using ne [of k] ne [of i] k by auto
  qed
  show "(f(i := t)) i \<le> (f(i := t)) k" if "0 < k" "k < n" "parent k = i"
    using f [of k] ne [of k] that assms(3) by auto
qed

section \<open>The interface\<close>

locale heap_container =
  fixes I :: "('x, 'h) heap_interface" and key :: "'h \<Rightarrow> nat \<Rightarrow> 'a :: linorder" and size :: "'h \<Rightarrow> nat"
    and ok :: "'h \<Rightarrow> bool"
  assumes Len: "ok h \<Longrightarrow> h_Len I h = size h"
    and Less: "ok h \<Longrightarrow> i < size h \<Longrightarrow> j < size h \<Longrightarrow> h_Less I i j h \<longleftrightarrow> key h i < key h j"
    and Swap: "ok h \<Longrightarrow> i < size h \<Longrightarrow> j < size h \<Longrightarrow>
      ok (h_Swap I i j h) \<and> size (h_Swap I i j h) = size h \<and> key (h_Swap I i j h) = exchange i j (key h)"
begin

text \<open>What holds before and is kept by exchanging positions below \<open>n\<close> holds after.\<close>

definition kept :: "nat \<Rightarrow> ('h \<Rightarrow> bool) \<Rightarrow> bool" where
  "kept n P = (\<forall>h i j. ok h \<and> n \<le> size h \<and> i < n \<and> j < n \<and> P h \<longrightarrow> P (h_Swap I i j h))"

lemma up_ok:
  assumes "ok h" "j < n" "n \<le> size h" "small_at j n (key h)" "kept n P" "P h"
  shows "ok (heap_up I j h) \<and> size (heap_up I j h) = size h \<and> heap_ordered n (key (heap_up I j h)) \<and> P (heap_up I j h)"
  using assms(1-4,6)
proof (induction j arbitrary: h rule: less_induct)
  case (less j)
  show ?case
  proof (cases "j = 0 \<or> \<not> h_Less I j (parent j) h")
    case True
    then have "heap_up I j h = h" by (subst heap_up_eq) (auto simp: parent_def)
    moreover have "j = 0 \<or> key h (parent j) \<le> key h j"
      using True Less [of h j "parent j"] less.prems(1-3)
      by (metis less_trans linorder_not_less neq0_conv order_less_le_trans parent_less)
    then have "heap_ordered n (key h)" using small_at_done less.prems(4) by blast
    ultimately show ?thesis using less.prems by simp
  next
    case False
    then have j: "0 < j" "h_Less I j (parent j) h" by simp_all
    have lt: "parent j < j" using j(1) by simp
    let ?h = "h_Swap I (parent j) j h"
    have step: "heap_up I j h = heap_up I (parent j) ?h"
      by (subst heap_up_eq) (use j lt in simp)
    have swap: "ok ?h" "size ?h = size h" "key ?h = exchange (parent j) j (key h)"
      using Swap [of h "parent j" j] less.prems(1-3) lt by simp_all
    have "key h j < key h (parent j)" using j(2) Less [of h j "parent j"] less.prems(1-3) lt by simp
    then have "small_at (parent j) n (key ?h)"
      using small_at_step less.prems(2,4) j(1) swap(3) by metis
    moreover have "P ?h" using assms(5) less.prems lt unfolding kept_def by (meson less_trans)
    ultimately show ?thesis
      using less.IH [OF lt swap(1)] less.prems(2,3) lt step swap(2) by simp
  qed
qed

lemma down_ok:
  assumes "ok h" "n \<le> size h" "large_at i n (key h)" "kept n P" "P h"
  shows "ok (snd (heap_down I i n h)) \<and> size (snd (heap_down I i n h)) = size h \<and>
    heap_ordered n (key (snd (heap_down I i n h))) \<and> P (snd (heap_down I i n h))"
  using assms(1-3,5)
proof (induction "n - i" arbitrary: i h rule: less_induct)
  case less
  let ?j = "if Suc (Suc (2 * i)) < n \<and> h_Less I (Suc (Suc (2 * i))) (Suc (2 * i)) h then Suc (Suc (2 * i)) else Suc (2 * i)"
  have eq: "heap_down I i n h =
      (if Suc (2 * i) \<ge> n \<or> \<not> h_Less I ?j i h then (i, h) else heap_down I ?j n (h_Swap I i ?j h))"
    by (subst heap_down.simps) (simp add: Let_def)
  show ?case
  proof (cases "Suc (2 * i) \<ge> n")
    case True
    then have "heap_ordered n (key h)"
      by (intro large_at_done [OF less.prems(3)]) (auto simp: parent_iff)
    with True eq less.prems show ?thesis by simp
  next
    case False
    have j: "?j < n" "0 < ?j" "parent ?j = i" "i < ?j" using False by (auto split: if_splits)
    have least: "key h ?j \<le> key h k" if k: "0 < k" "k < n" "parent k = i" for k
    proof -
      have "k = Suc (2 * i) \<or> k = Suc (Suc (2 * i))" using k by (auto simp: parent_iff)
      then show ?thesis
        using k(2) False less.prems(2) Less [OF less.prems(1), of "Suc (Suc (2 * i))" "Suc (2 * i)"] by auto
    qed
    have lt: "h_Less I ?j i h \<longleftrightarrow> key h ?j < key h i"
      by (rule Less) (use j less.prems(1,2) in linarith)+
    show ?thesis
    proof (cases "h_Less I ?j i h")
      case small: False
      then have "heap_ordered n (key h)"
        using least lt
      proof (intro large_at_done [OF less.prems(3)])
        fix k assume "0 < k" "k < n" "parent k = i"
        then have "key h ?j \<le> key h k" by (rule least)
        moreover have "key h i \<le> key h ?j" using small lt by simp
        ultimately show "key h i \<le> key h k" by (rule order_trans [rotated])
      qed
      with small eq less.prems show ?thesis by simp
    next
      case True
      let ?h = "h_Swap I i ?j h"
      have "?j < size h" "i < size h" using j less.prems(2) by linarith+
      then have swap: "ok ?h" "size ?h = size h" "key ?h = exchange i ?j (key h)"
        using Swap [OF less.prems(1), of i ?j] by blast+
      have "large_at ?j n (key ?h)"
        unfolding swap(3) using True lt least by (intro large_at_step [OF less.prems(3) j(2,1,3)]) blast+
      moreover have "P ?h" using assms(4) less.prems j unfolding kept_def by (meson less_trans)
      moreover have "n - ?j < n - i" using j by linarith
      ultimately have "ok (snd (heap_down I ?j n ?h)) \<and> size (snd (heap_down I ?j n ?h)) = size ?h \<and>
          heap_ordered n (key (snd (heap_down I ?j n ?h))) \<and> P (snd (heap_down I ?j n ?h))"
        using swap(1,2) less.prems(2) by (intro less.hyps) simp_all
      with True False eq swap(2) show ?thesis by simp
    qed
  qed
qed

text \<open>After a key became smaller, \<open>down\<close> does nothing and \<open>up\<close> restores the order.\<close>

lemma Fix_smaller:
  assumes "ok h" "i < size h" "small_at i (size h) (key h)"
    and below: "\<And>k. 0 < k \<Longrightarrow> k < size h \<Longrightarrow> parent k = i \<Longrightarrow> key h i \<le> key h k"
    and "kept (size h) P" "P h"
  shows "ok (heap_Fix I i h) \<and> size (heap_Fix I i h) = size h \<and>
    heap_ordered (size h) (key (heap_Fix I i h)) \<and> P (heap_Fix I i h)"
proof -
  let ?n = "size h"
  have "\<not> h_Less I k i h" if "0 < k" "k < ?n" "parent k = i" for k
    using below [OF that] Less [OF assms(1) that(2) assms(2)] by (meson linorder_not_less)
  then have "heap_down I i ?n h = (i, h)"
    by (subst heap_down.simps) (simp add: Let_def)
  then have "heap_Fix I i h = heap_up I i h" by (simp add: heap_Fix_def Len [OF assms(1)])
  then show ?thesis using up_ok [OF assms(1,2) order_refl assms(3,5,6)] by simp
qed

end

end
