(* ===== verification/Work_Queue.thy ===== *)
theory Work_Queue
  imports Prelude
begin

text \<open>
  The work queue of \<open>k8s.io/client-go/util/workqueue/queue.go\<close> that feeds the controller's
  workers: the items in the order they will be worked on, the set of items that need work, and
  the set of items being worked on. The interface \<open>work_queue\<close> states its contract in terms of
  the set of pending items; the model of the code interprets it.
\<close>

section \<open>State and operations\<close>

record 'k wqueue =
  queue :: "'k list"
  dirty :: "'k set"
  processing :: "'k set"
  shuttingDown :: bool

definition new_wqueue :: "'k wqueue" where
  "new_wqueue = \<lparr>queue = [], dirty = {}, processing = {}, shuttingDown = False\<rparr>"

definition wq_Add :: "'k \<Rightarrow> 'k wqueue \<Rightarrow> 'k wqueue" where
  "wq_Add item q =
     (if shuttingDown q then q
      else if item \<in> dirty q then q
      else let q1 = q\<lparr>dirty := insert item (dirty q)\<rparr> in
        if item \<in> processing q1 then q1
        else q1\<lparr>queue := queue q1 @ [item]\<rparr>)"

definition wq_Len :: "'k wqueue \<Rightarrow> nat" where
  "wq_Len q = length (queue q)"

text \<open>
  \<open>Get\<close> waits while the queue is empty and not shutting down, and otherwise either tells the
  worker to end or hands out the first item.
\<close>

datatype 'k got = Blocks | Quits | Gets 'k "'k wqueue"

definition wq_Get :: "'k wqueue \<Rightarrow> 'k got" where
  "wq_Get q =
     (if length (queue q) = 0 \<and> \<not> shuttingDown q then Blocks
      else case queue q of
        [] \<Rightarrow> Quits
      | item # rest \<Rightarrow>
          Gets item (q\<lparr>queue := rest, processing := insert item (processing q),
            dirty := dirty q - {item}\<rparr>))"

definition wq_Done :: "'k \<Rightarrow> 'k wqueue \<Rightarrow> 'k wqueue" where
  "wq_Done item q =
     (let q1 = q\<lparr>processing := processing q - {item}\<rparr> in
      if item \<in> dirty q1 then q1\<lparr>queue := queue q1 @ [item]\<rparr> else q1)"

definition wq_ShutDown :: "'k wqueue \<Rightarrow> 'k wqueue" where
  "wq_ShutDown q = q\<lparr>shuttingDown := True\<rparr>"

section \<open>The representation invariant\<close>

text \<open>
  The comments of the source: every element of \<open>queue\<close> is in the dirty set and not in the
  processing set. The invariant is stronger: the queue holds each dirty item that is not being
  processed, exactly once.
\<close>

definition wq_inv :: "'k wqueue \<Rightarrow> bool" where
  "wq_inv q = (distinct (queue q) \<and> set (queue q) = dirty q - processing q)"

lemma wq_inv_new: "wq_inv new_wqueue"
  by (simp add: wq_inv_def new_wqueue_def)

lemma wq_inv_Add: "wq_inv q \<Longrightarrow> wq_inv (wq_Add k q)"
  by (auto simp: wq_inv_def wq_Add_def Let_def)

lemma wq_inv_Get: "wq_inv q \<Longrightarrow> wq_Get q = Gets k q' \<Longrightarrow> wq_inv q'"
  by (auto simp: wq_inv_def wq_Get_def split: list.splits if_splits)

lemma wq_inv_Done: "wq_inv q \<Longrightarrow> k \<in> processing q \<Longrightarrow> wq_inv (wq_Done k q)"
  by (auto simp: wq_inv_def wq_Done_def Let_def)

lemma wq_inv_ShutDown: "wq_inv q \<Longrightarrow> wq_inv (wq_ShutDown q)"
  by (simp add: wq_inv_def wq_ShutDown_def)

lemma wq_Get_Gets:
  "wq_Get q = Gets k q' \<longleftrightarrow>
     (\<exists>rest. queue q = k # rest \<and>
        q' = q\<lparr>queue := rest, processing := insert k (processing q), dirty := dirty q - {k}\<rparr>)"
  by (auto simp: wq_Get_def split: list.splits)

lemma wq_Get_head:
  assumes "wq_inv q" "wq_Get q = Gets k q'"
  shows "k \<in> dirty q" "k \<notin> processing q"
    "dirty q' = dirty q - {k}" "processing q' = insert k (processing q)"
proof -
  obtain rest where "queue q = k # rest" and q':
    "q' = q\<lparr>queue := rest, processing := insert k (processing q), dirty := dirty q - {k}\<rparr>"
    using assms(2) by (auto simp only: wq_Get_Gets)
  then have "k \<in> set (queue q)" by simp
  with assms(1) have "k \<in> dirty q - processing q" by (simp only: wq_inv_def)
  then show "k \<in> dirty q" "k \<notin> processing q" by simp_all
  show "dirty q' = dirty q - {k}" "processing q' = insert k (processing q)"
    by (simp_all add: q')
qed

section \<open>The contract\<close>

text \<open>
  Seen from outside, the queue is the set of items pending work, the set in progress and
  whether it is shutting down: an item is handed out only if it is pending and not in progress,
  becomes in progress and stops being pending; an add is never lost unless the queue is shutting
  down; \<open>Done\<close> ends the progress of its item and keeps the rest.
\<close>

locale work_queue =
  fixes add :: "'k \<Rightarrow> 'q \<Rightarrow> 'q"
    and get :: "'q \<Rightarrow> ('k \<times> 'q) option"
    and finish :: "'k \<Rightarrow> 'q \<Rightarrow> 'q"
    and pending :: "'q \<Rightarrow> 'k set"
    and active :: "'q \<Rightarrow> 'k set"
    and closed :: "'q \<Rightarrow> bool"
    and invar :: "'q \<Rightarrow> bool"
  assumes invar_add: "invar q \<Longrightarrow> invar (add k q)"
    and invar_get: "invar q \<Longrightarrow> get q = Some (k, q') \<Longrightarrow> invar q'"
    and invar_finish: "invar q \<Longrightarrow> k \<in> active q \<Longrightarrow> invar (finish k q)"
    and pending_add:
      "invar q \<Longrightarrow> pending (add k q) = (if closed q then pending q else insert k (pending q))"
    and active_add: "invar q \<Longrightarrow> active (add k q) = active q"
    and closed_add: "closed (add k q) = closed q"
    and get_pending: "invar q \<Longrightarrow> get q = Some (k, q') \<Longrightarrow> k \<in> pending q"
    and get_inactive: "invar q \<Longrightarrow> get q = Some (k, q') \<Longrightarrow> k \<notin> active q"
    and pending_get: "invar q \<Longrightarrow> get q = Some (k, q') \<Longrightarrow> pending q' = pending q - {k}"
    and active_get: "invar q \<Longrightarrow> get q = Some (k, q') \<Longrightarrow> active q' = insert k (active q)"
    and get_progress: "invar q \<Longrightarrow> pending q - active q \<noteq> {} \<Longrightarrow> get q \<noteq> None"
    and pending_finish: "invar q \<Longrightarrow> k \<in> active q \<Longrightarrow> pending (finish k q) = pending q"
    and active_finish: "invar q \<Longrightarrow> k \<in> active q \<Longrightarrow> active (finish k q) = active q - {k}"
begin

lemmas laws = invar_add invar_get invar_finish pending_add active_add closed_add get_pending
  get_inactive pending_get active_get pending_finish active_finish

text \<open>An item added while it is being processed is pending again when the worker is done.\<close>

lemma readded_while_active:
  assumes "invar q" "k \<in> active q" "\<not> closed q"
  shows "k \<in> pending (finish k (add k q))" "k \<notin> active (finish k (add k q))"
  using assms by (simp_all add: laws)

lemma readded_is_served:
  assumes "invar q" "k \<in> active q" "\<not> closed q"
  shows "get (finish k (add k q)) \<noteq> None"
proof (rule get_progress)
  show "invar (finish k (add k q))" using assms by (simp add: laws)
  show "pending (finish k (add k q)) - active (finish k (add k q)) \<noteq> {}"
    using readded_while_active [OF assms] by blast
qed

text \<open>Adding twice is adding once, as far as the contract goes.\<close>

lemma add_idem_pending: "invar q \<Longrightarrow> pending (add k (add k q)) = pending (add k q)"
  by (simp add: laws)

text \<open>While an item is active, it is not handed out again, whatever is added meanwhile.\<close>

lemma not_served_while_active:
  assumes "invar q" "k \<in> active q" "get (fold add ks q) = Some (k', q')"
  shows "k' \<noteq> k"
proof -
  have "invar (fold add ks q) \<and> k \<in> active (fold add ks q)"
    using assms(1,2) by (induction ks arbitrary: q) (simp_all add: laws)
  with assms(3) get_inactive show ?thesis by blast
qed

end

definition wq_take :: "'k wqueue \<Rightarrow> ('k \<times> 'k wqueue) option" where
  "wq_take q = (case wq_Get q of Gets k q' \<Rightarrow> Some (k, q') | _ \<Rightarrow> None)"

lemma wq_take_Some: "wq_take q = Some (k, q') \<longleftrightarrow> wq_Get q = Gets k q'"
  by (auto simp: wq_take_def split: got.splits)

lemma wq_take_None: "wq_take q = None \<longleftrightarrow> queue q = []"
  by (auto simp: wq_take_def wq_Get_def split: got.splits list.splits)

lemmas wq_take_head = wq_Get_head [folded wq_take_Some]

interpretation wq: work_queue wq_Add wq_take wq_Done dirty processing shuttingDown wq_inv
proof
  fix q :: "'k wqueue" and k q'
  show "wq_inv q \<Longrightarrow> wq_inv (wq_Add k q)" by (rule wq_inv_Add)
  show "wq_inv q \<Longrightarrow> wq_take q = Some (k, q') \<Longrightarrow> wq_inv q'"
    by (simp add: wq_take_Some wq_inv_Get)
  show "wq_inv q \<Longrightarrow> k \<in> processing q \<Longrightarrow> wq_inv (wq_Done k q)" by (rule wq_inv_Done)
  show "dirty (wq_Add k q) = (if shuttingDown q then dirty q else insert k (dirty q))"
    by (auto simp: wq_Add_def Let_def)
  show "processing (wq_Add k q) = processing q" by (simp add: wq_Add_def Let_def)
  show "shuttingDown (wq_Add k q) = shuttingDown q" by (simp add: wq_Add_def Let_def)
  show "wq_inv q \<Longrightarrow> wq_take q = Some (k, q') \<Longrightarrow> k \<in> dirty q"
    by (erule (1) wq_take_head)
  show "wq_inv q \<Longrightarrow> wq_take q = Some (k, q') \<Longrightarrow> k \<notin> processing q"
    by (erule (1) wq_take_head)
  show "wq_inv q \<Longrightarrow> wq_take q = Some (k, q') \<Longrightarrow> dirty q' = dirty q - {k}"
    by (erule (1) wq_take_head)
  show "wq_inv q \<Longrightarrow> wq_take q = Some (k, q') \<Longrightarrow> processing q' = insert k (processing q)"
    by (erule (1) wq_take_head)
  show "wq_inv q \<Longrightarrow> dirty q - processing q \<noteq> {} \<Longrightarrow> wq_take q \<noteq> None"
    by (auto simp: wq_take_None wq_inv_def)
  show "wq_inv q \<Longrightarrow> k \<in> processing q \<Longrightarrow> dirty (wq_Done k q) = dirty q"
    by (simp add: wq_Done_def Let_def)
  show "wq_inv q \<Longrightarrow> k \<in> processing q \<Longrightarrow> processing (wq_Done k q) = processing q - {k}"
    by (simp add: wq_Done_def Let_def)
qed

end
