(* ===== verification/Rate_Limiter.thy ===== *)
theory Rate_Limiter
  imports Work_Queue
begin

text \<open>
  The rate limiters of \<open>k8s.io/client-go/util/workqueue/default_rate_limiters.go\<close> that decide how
  long a failed key waits, and the rate-limited queue of \<open>rate_limitting_queue.go\<close> and
  \<open>delaying_queue.go\<close> (up to the channel that feeds its waiting loop). Durations are nanoseconds.
  The token bucket of \<open>golang.org/x/time/rate\<close> reads the clock and is a parameter, \<open>reserve\<close>.
\<close>

section \<open>Durations\<close>

definition Millisecond :: int where "Millisecond = 1000000"
definition Second :: int where "Second = 1000000000"

section \<open>Exponential back-off per item\<close>

record 'k exp_limiter =
  failures :: "'k \<rightharpoonup> int"
  baseDelay :: int
  maxDelay :: int

definition NewItemExponentialFailureRateLimiter :: "int \<Rightarrow> int \<Rightarrow> 'k exp_limiter" where
  "NewItemExponentialFailureRateLimiter base mx =
     \<lparr>failures = Map.empty, baseDelay = base, maxDelay = mx\<rparr>"

definition map_index :: "('k \<rightharpoonup> int) \<Rightarrow> 'k \<Rightarrow> int" where
  "map_index m k = (case m k of None \<Rightarrow> 0 | Some v \<Rightarrow> v)"

text \<open>
  The product with a power of two is exact in \<open>float64\<close> while the base delay has at most 53
  significant bits, and the comparison with \<open>math.MaxInt64\<close> rounds that constant to \<open>2 ^ 63\<close>.
\<close>

definition exp_When :: "'k \<Rightarrow> 'k exp_limiter \<Rightarrow> int \<times> 'k exp_limiter" where
  "exp_When item r =
     (let ex = map_index (failures r) item;
          r' = r\<lparr>failures := (failures r)(item \<mapsto> map_index (failures r) item + 1)\<rparr>;
          backoff = baseDelay r * 2 ^ nat ex
      in if backoff > 2 ^ 63 then (maxDelay r, r')
         else let calculated = sint (word_of_int backoff :: int64) in
           if calculated > maxDelay r then (maxDelay r, r')
           else (calculated, r'))"

definition exp_NumRequeues :: "'k exp_limiter \<Rightarrow> 'k \<Rightarrow> int" where
  "exp_NumRequeues r item = map_index (failures r) item"

definition exp_Forget :: "'k \<Rightarrow> 'k exp_limiter \<Rightarrow> 'k exp_limiter" where
  "exp_Forget item r = r\<lparr>failures := (failures r)(item := None)\<rparr>"

definition exp_ok :: "'k exp_limiter \<Rightarrow> bool" where
  "exp_ok r = (0 < baseDelay r \<and> 0 \<le> maxDelay r \<and> maxDelay r < 2 ^ 63 \<and>
     (\<forall>k. 0 \<le> map_index (failures r) k))"

text \<open>The delay, without the overflow checks: the capped exponential.\<close>

lemma exp_When_delay:
  assumes "exp_ok r" "baseDelay r * 2 ^ nat (map_index (failures r) k) \<noteq> 2 ^ 63"
  shows "fst (exp_When k r) = min (baseDelay r * 2 ^ nat (map_index (failures r) k)) (maxDelay r)"
proof -
  let ?b = "baseDelay r * 2 ^ nat (map_index (failures r) k)"
  have "0 \<le> ?b" using assms(1) by (simp add: exp_ok_def)
  consider "?b > 2 ^ 63" | "?b < 2 ^ 63" using assms(2) by linarith
  then show ?thesis
  proof cases
    case 1
    then show ?thesis using assms(1) by (simp add: exp_When_def exp_ok_def Let_def min_def)
  next
    case 2
    with \<open>0 \<le> ?b\<close> have "sint (word_of_int ?b :: int64) = ?b"
      by (intro sint_of_int_int64) simp_all
    with 2 show ?thesis by (simp add: exp_When_def Let_def min_def)
  qed
qed

lemma exp_When_failures:
  "snd (exp_When k r) = r\<lparr>failures := (failures r)(k \<mapsto> map_index (failures r) k + 1)\<rparr>"
  by (simp add: exp_When_def Let_def)

lemma map_index_simps [simp]:
  "map_index Map.empty k = 0"
  "map_index (m(k \<mapsto> v)) k' = (if k' = k then v else map_index m k')"
  "map_index (m(k := None)) k' = (if k' = k then 0 else map_index m k')"
  by (simp_all add: map_index_def)

lemma exp_When_bounds: "exp_ok r \<Longrightarrow> 0 \<le> fst (exp_When k r) \<or> baseDelay r * 2 ^ nat (map_index (failures r) k) = 2 ^ 63"
  using exp_When_delay [of r k] by (auto simp: exp_ok_def)

section \<open>The limiters together\<close>

datatype ('k, 'b) limiter = ItemExponentialFailure "'k exp_limiter" | BucketRateLimiter 'b

fun limiter_When :: "('b \<Rightarrow> int \<times> 'b) \<Rightarrow> 'k \<Rightarrow> ('k, 'b) limiter \<Rightarrow> int \<times> ('k, 'b) limiter" where
  "limiter_When reserve item (ItemExponentialFailure r) =
     (let (d, r') = exp_When item r in (d, ItemExponentialFailure r'))"
| "limiter_When reserve item (BucketRateLimiter b) =
     (let (d, b') = reserve b in (d, BucketRateLimiter b'))"

fun limiter_NumRequeues :: "('k, 'b) limiter \<Rightarrow> 'k \<Rightarrow> int" where
  "limiter_NumRequeues (ItemExponentialFailure r) item = exp_NumRequeues r item"
| "limiter_NumRequeues (BucketRateLimiter b) item = 0"

fun limiter_Forget :: "'k \<Rightarrow> ('k, 'b) limiter \<Rightarrow> ('k, 'b) limiter" where
  "limiter_Forget item (ItemExponentialFailure r) = ItemExponentialFailure (exp_Forget item r)"
| "limiter_Forget item (BucketRateLimiter b) = BucketRateLimiter b"

text \<open>\<open>MaxOfRateLimiter\<close> asks every limiter and returns the worst answer.\<close>

fun maxof_When_from ::
    "('b \<Rightarrow> int \<times> 'b) \<Rightarrow> 'k \<Rightarrow> int \<Rightarrow> ('k, 'b) limiter list \<Rightarrow> int \<times> ('k, 'b) limiter list" where
  "maxof_When_from reserve item best [] = (best, [])"
| "maxof_When_from reserve item best (l # ls) =
     (let (curr, l') = limiter_When reserve item l;
          (worst, ls') = maxof_When_from reserve item (if curr > best then curr else best) ls
      in (worst, l' # ls'))"

definition maxof_When ::
    "('b \<Rightarrow> int \<times> 'b) \<Rightarrow> 'k \<Rightarrow> ('k, 'b) limiter list \<Rightarrow> int \<times> ('k, 'b) limiter list" where
  "maxof_When reserve item ls = maxof_When_from reserve item 0 ls"

fun maxof_NumRequeues_from :: "int \<Rightarrow> ('k, 'b) limiter list \<Rightarrow> 'k \<Rightarrow> int" where
  "maxof_NumRequeues_from best [] item = best"
| "maxof_NumRequeues_from best (l # ls) item =
     (let curr = limiter_NumRequeues l item
      in maxof_NumRequeues_from (if curr > best then curr else best) ls item)"

definition maxof_NumRequeues :: "('k, 'b) limiter list \<Rightarrow> 'k \<Rightarrow> int" where
  "maxof_NumRequeues ls item = maxof_NumRequeues_from 0 ls item"

definition maxof_Forget :: "'k \<Rightarrow> ('k, 'b) limiter list \<Rightarrow> ('k, 'b) limiter list" where
  "maxof_Forget item ls = map (limiter_Forget item) ls"

definition DefaultControllerRateLimiter :: "'b \<Rightarrow> ('k, 'b) limiter list" where
  "DefaultControllerRateLimiter bucket =
     [ItemExponentialFailure (NewItemExponentialFailureRateLimiter (5 * Millisecond) (1000 * Second)),
      BucketRateLimiter bucket]"

text \<open>The limiters a controller can have: the default pair, after any number of calls.\<close>

definition default_shape :: "('k, 'b) limiter list \<Rightarrow> bool" where
  "default_shape ls =
     (\<exists>r b. ls = [ItemExponentialFailure r, BucketRateLimiter b] \<and>
        exp_ok r \<and> baseDelay r = 5 * Millisecond \<and> maxDelay r = 1000 * Second)"

lemma default_shapeE:
  assumes "default_shape ls"
  obtains r b where "ls = [ItemExponentialFailure r, BucketRateLimiter b]" "exp_ok r"
    "baseDelay r = 5 * Millisecond" "maxDelay r = 1000 * Second"
  using assms by (auto simp: default_shape_def)

lemma default_shape_new: "default_shape (DefaultControllerRateLimiter bucket)"
  by (simp add: default_shape_def DefaultControllerRateLimiter_def
      NewItemExponentialFailureRateLimiter_def exp_ok_def Millisecond_def Second_def)

lemma exp_ok_When: "exp_ok r \<Longrightarrow> exp_ok (snd (exp_When k r))"
  by (simp add: exp_ok_def exp_When_failures)

lemma exp_ok_Forget: "exp_ok r \<Longrightarrow> exp_ok (exp_Forget k r)"
  by (simp add: exp_ok_def exp_Forget_def)

section \<open>The contract of a rate limiter\<close>

locale rate_limiter =
  fixes asked :: "'k \<Rightarrow> 'r \<Rightarrow> int \<times> 'r"
    and forget :: "'k \<Rightarrow> 'r \<Rightarrow> 'r"
    and requeues :: "'r \<Rightarrow> 'k \<Rightarrow> int"
    and invar :: "'r \<Rightarrow> bool"
  assumes invar_asked: "invar r \<Longrightarrow> invar (snd (asked k r))"
    and invar_forget: "invar r \<Longrightarrow> invar (forget k r)"
    and delay_nonneg: "invar r \<Longrightarrow> 0 \<le> fst (asked k r)"
    and requeues_asked:
      "invar r \<Longrightarrow> requeues (snd (asked k r)) k' = requeues r k' + (if k' = k then 1 else 0)"
    and requeues_forget:
      "invar r \<Longrightarrow> requeues (forget k r) k' = (if k' = k then 0 else requeues r k')"
    and requeues_nonneg: "invar r \<Longrightarrow> 0 \<le> requeues r k"
begin

lemma invar_asked_n: "invar r \<Longrightarrow> invar (((\<lambda>r. snd (asked k r)) ^^ n) r)"
  by (induction n) (simp_all add: invar_asked)

lemma requeues_asked_n:
  "invar r \<Longrightarrow> requeues (((\<lambda>r. snd (asked k r)) ^^ n) r) k = requeues r k + int n"
  by (induction n) (simp_all add: requeues_asked invar_asked_n)

lemma requeues_after_forget_n:
  "invar r \<Longrightarrow> requeues (((\<lambda>r. snd (asked k r)) ^^ n) (forget k r)) k = int n"
  by (simp add: requeues_asked_n invar_forget requeues_forget)

end

lemma maxof_NumRequeues_default:
  "exp_ok r \<Longrightarrow> maxof_NumRequeues [ItemExponentialFailure r, BucketRateLimiter b] k = map_index (failures r) k"
  by (auto simp: maxof_NumRequeues_def exp_NumRequeues_def exp_ok_def Let_def
      dest: spec [of _ k])

lemma maxof_When_default:
  "maxof_When reserve k [ItemExponentialFailure r, BucketRateLimiter b] =
     (max (max 0 (fst (exp_When k r))) (fst (reserve b)),
      [ItemExponentialFailure (snd (exp_When k r)), BucketRateLimiter (snd (reserve b))])"
  by (simp add: maxof_When_def Let_def max_def split: prod.splits)

interpretation default_limiter:
  rate_limiter "maxof_When reserve" maxof_Forget maxof_NumRequeues default_shape
  for reserve :: "'b \<Rightarrow> int \<times> 'b"
proof
  fix r :: "('k, 'b) limiter list" and k k'
  assume "default_shape r"
  then obtain e b where r: "r = [ItemExponentialFailure e, BucketRateLimiter b]" and ok: "exp_ok e"
    and delays: "baseDelay e = 5 * Millisecond" "maxDelay e = 1000 * Second"
    by (rule default_shapeE)
  show "default_shape (snd (maxof_When reserve k r))"
    using ok delays exp_ok_When [OF ok, of k]
    by (simp add: r maxof_When_default default_shape_def exp_When_failures)
  show "default_shape (maxof_Forget k r)"
    using ok delays exp_ok_Forget [OF ok, of k]
    by (simp add: r maxof_Forget_def default_shape_def exp_Forget_def)
  show "0 \<le> fst (maxof_When reserve k r)"
    by (simp add: r maxof_When_default)
  show "maxof_NumRequeues (snd (maxof_When reserve k r)) k' =
      maxof_NumRequeues r k' + (if k' = k then 1 else 0)"
    using ok exp_ok_When [OF ok, of k]
    by (simp add: r maxof_When_default maxof_NumRequeues_default exp_When_failures)
  show "maxof_NumRequeues (maxof_Forget k r) k' = (if k' = k then 0 else maxof_NumRequeues r k')"
    using ok exp_ok_Forget [OF ok, of k]
    by (simp add: r maxof_Forget_def maxof_NumRequeues_default exp_Forget_def)
  show "0 \<le> maxof_NumRequeues r k"
    using ok by (simp add: r maxof_NumRequeues_default exp_ok_def)
qed

section \<open>The rate-limited queue\<close>

text \<open>
  \<open>waitingForAdd\<close> is the channel to the waiting loop: the keys to add later, with the time each
  is ready.
\<close>

record ('k, 'b) rl_queue =
  base :: "'k wqueue"
  rateLimiter :: "('k, 'b) limiter list"
  waitingForAdd :: "('k \<times> int) list"

definition new_rl_queue :: "'b \<Rightarrow> ('k, 'b) rl_queue" where
  "new_rl_queue bucket = \<lparr>base = new_wqueue, rateLimiter = DefaultControllerRateLimiter bucket,
     waitingForAdd = []\<rparr>"

definition rlq_Add :: "'k \<Rightarrow> ('k, 'b) rl_queue \<Rightarrow> ('k, 'b) rl_queue" where
  "rlq_Add item q = q\<lparr>base := wq_Add item (base q)\<rparr>"

definition rlq_AddAfter :: "int \<Rightarrow> 'k \<Rightarrow> int \<Rightarrow> ('k, 'b) rl_queue \<Rightarrow> ('k, 'b) rl_queue" where
  "rlq_AddAfter clock item duration q =
     (if shuttingDown (base q) then q
      else if duration \<le> 0 then rlq_Add item q
      else q\<lparr>waitingForAdd := waitingForAdd q @ [(item, clock + duration)]\<rparr>)"

definition rlq_AddRateLimited ::
    "('b \<Rightarrow> int \<times> 'b) \<Rightarrow> int \<Rightarrow> 'k \<Rightarrow> ('k, 'b) rl_queue \<Rightarrow> ('k, 'b) rl_queue" where
  "rlq_AddRateLimited reserve clock item q =
     (let (delay, ls) = maxof_When reserve item (rateLimiter q)
      in rlq_AddAfter clock item delay (q\<lparr>rateLimiter := ls\<rparr>))"

definition rlq_NumRequeues :: "('k, 'b) rl_queue \<Rightarrow> 'k \<Rightarrow> int" where
  "rlq_NumRequeues q item = maxof_NumRequeues (rateLimiter q) item"

definition rlq_Forget :: "'k \<Rightarrow> ('k, 'b) rl_queue \<Rightarrow> ('k, 'b) rl_queue" where
  "rlq_Forget item q = q\<lparr>rateLimiter := maxof_Forget item (rateLimiter q)\<rparr>"

definition rlq_Done :: "'k \<Rightarrow> ('k, 'b) rl_queue \<Rightarrow> ('k, 'b) rl_queue" where
  "rlq_Done item q = q\<lparr>base := wq_Done item (base q)\<rparr>"

definition rlq_inv :: "('k, 'b) rl_queue \<Rightarrow> bool" where
  "rlq_inv q = (wq_inv (base q) \<and> default_shape (rateLimiter q))"

lemma rlq_inv_new: "rlq_inv (new_rl_queue bucket)"
  by (simp add: rlq_inv_def new_rl_queue_def wq_inv_new default_shape_new)

lemma rlq_AddAfter_base:
  "base (rlq_AddAfter clock k d q) = (if d \<le> 0 then wq_Add k (base q) else base q)"
  by (simp add: rlq_AddAfter_def rlq_Add_def wq_Add_def)

lemma rlq_AddAfter_limiter: "rateLimiter (rlq_AddAfter clock k d q) = rateLimiter q"
  by (simp add: rlq_AddAfter_def rlq_Add_def)

lemma rlq_AddRateLimited_limiter:
  "rateLimiter (rlq_AddRateLimited reserve clock k q) = snd (maxof_When reserve k (rateLimiter q))"
  by (simp add: rlq_AddRateLimited_def rlq_AddAfter_limiter split: prod.splits)

lemma rlq_inv_AddAfter: "rlq_inv q \<Longrightarrow> rlq_inv (rlq_AddAfter clock k d q)"
  by (simp add: rlq_inv_def rlq_AddAfter_base rlq_AddAfter_limiter wq_inv_Add)

lemma rlq_inv_AddRateLimited:
  assumes "rlq_inv q"
  shows "rlq_inv (rlq_AddRateLimited reserve clock k q)"
proof -
  obtain d ls where w: "maxof_When reserve k (rateLimiter q) = (d, ls)" by fastforce
  have "default_shape ls"
    using assms default_limiter.invar_asked [of "rateLimiter q" reserve k]
    by (simp add: rlq_inv_def w)
  with assms have "rlq_inv (q\<lparr>rateLimiter := ls\<rparr>)" by (simp add: rlq_inv_def)
  then show ?thesis by (simp add: rlq_AddRateLimited_def w rlq_inv_AddAfter)
qed

lemma rlq_inv_Forget: "rlq_inv q \<Longrightarrow> rlq_inv (rlq_Forget k q)"
  by (simp add: rlq_inv_def rlq_Forget_def default_limiter.invar_forget)

lemma rlq_inv_Done: "rlq_inv q \<Longrightarrow> k \<in> processing (base q) \<Longrightarrow> rlq_inv (rlq_Done k q)"
  by (simp add: rlq_inv_def rlq_Done_def wq_inv_Done)

lemma rlq_inv_Add: "rlq_inv q \<Longrightarrow> rlq_inv (rlq_Add k q)"
  by (simp add: rlq_inv_def rlq_Add_def wq_inv_Add)

end
