(* ===== verification/Controller.thy ===== *)
theory Controller
  imports Reconciler Rate_Limiter Sample_World
begin

text \<open>
  The controller of \<open>pkg/controller/controller.go\<close> around \<open>reconcile\<close>: the informer's handlers that
  queue keys, the worker that takes a key, reconciles it and decides about a retry, and the retry
  budget that \<open>maxRetries\<close> and the rate limiter give a failing key. Here one worker runs alone;
  the interleaving of workers, informer and timers is in \<open>Worker_Steps\<close>.
\<close>

section \<open>The informer's handlers\<close>

text \<open>A handler changes the queue; a failed type assertion panics, a bad tombstone is reported.\<close>

definition enqueue :: "informer_object \<Rightarrow> ((string, 'b) rl_queue, unit) go" where
  "enqueue obj = (\<lambda>q.
     case DeletionHandlingMetaNamespaceKeyFunc obj of
       (_, Some e) \<Rightarrow> (Returns (), q)
     | (key, None) \<Rightarrow> (Returns (), rlq_Add key q))"

definition interface_conversion :: string where
  "interface_conversion = ''interface conversion: interface {} is not *v1alpha1.VirtualMachine''"

fun handler_add :: "informer_object \<Rightarrow> ((string, 'b) rl_queue, unit) go" where
  "handler_add (VMObject vm) = enqueue (VMObject vm)"
| "handler_add obj = panic interface_conversion"

fun handler_update :: "informer_object \<Rightarrow> informer_object \<Rightarrow> ((string, 'b) rl_queue, unit) go" where
  "handler_update old (VMObject vm) = enqueue (VMObject vm)"
| "handler_update old obj = panic interface_conversion"

fun handler_delete :: "informer_object \<Rightarrow> ((string, 'b) rl_queue, unit) go" where
  "handler_delete (VMObject vm) = enqueue (VMObject vm)"
| "handler_delete (DeletedFinalStateUnknown key (VMObject vm)) = enqueue (VMObject vm)"
| "handler_delete obj = ret ()"

lemma enqueue_VMObject [simp]:
  "enqueue (VMObject vm) q = (Returns (), rlq_Add (key_of (vm_namespace vm) (vm_name vm)) q)"
  unfolding enqueue_def key_of_VMObject by simp

lemma handler_delete_cases:
  obtains (queued) vm where "handler_delete obj q = enqueue (VMObject vm) q"
  | (ignored) "handler_delete obj q = (Returns (), q)"
  by (cases obj rule: handler_delete.cases) (auto simp: go_simps)

section \<open>Deciding about a retry\<close>

definition maxRetries :: int where "maxRetries = 15"

definition handleErr ::
    "('b \<Rightarrow> int \<times> 'b) \<Rightarrow> int \<Rightarrow> go_error option \<Rightarrow> string \<Rightarrow> (string, 'b) rl_queue \<Rightarrow> (string, 'b) rl_queue" where
  "handleErr reserve clk err key q =
     (case err of
        None \<Rightarrow> rlq_Forget key q
      | Some e \<Rightarrow>
          if rlq_NumRequeues q key < maxRetries then rlq_AddRateLimited reserve clk key q
          else rlq_Forget key q)"

lemma rlq_inv_handleErr: "rlq_inv q \<Longrightarrow> rlq_inv (handleErr reserve clk err key q)"
  by (simp add: handleErr_def rlq_inv_AddRateLimited rlq_inv_Forget split: option.split)

text \<open>What a decision does to the limiter and to the queues.\<close>

lemma handleErr_limiter:
  "rateLimiter (handleErr reserve clk err key q) =
     (if err \<noteq> None \<and> rlq_NumRequeues q key < maxRetries
      then snd (maxof_When reserve key (rateLimiter q)) else maxof_Forget key (rateLimiter q))"
  by (simp add: handleErr_def rlq_AddRateLimited_limiter rlq_Forget_def split: option.split)

lemma rlq_AddRateLimited_eq:
  "rlq_AddRateLimited reserve clk key q =
     rlq_AddAfter clk key (fst (maxof_When reserve key (rateLimiter q)))
       (q\<lparr>rateLimiter := snd (maxof_When reserve key (rateLimiter q))\<rparr>)"
  by (simp add: rlq_AddRateLimited_def split: prod.splits)

lemma handleErr_base:
  "processing (base (handleErr reserve clk err key q)) = processing (base q)"
  "shuttingDown (base (handleErr reserve clk err key q)) = shuttingDown (base q)"
  by (simp_all add: handleErr_def rlq_AddRateLimited_eq rlq_AddAfter_base rlq_Forget_def
      wq_Add_def Let_def split: option.split)

lemma handleErr_dirty:
  "dirty (base q) \<subseteq> dirty (base (handleErr reserve clk err key q))"
  by (auto simp: handleErr_def rlq_AddRateLimited_eq rlq_AddAfter_base rlq_Forget_def
      wq_Add_def Let_def split: option.split)

lemma handleErr_shutting_down:
  "shuttingDown (base q) \<Longrightarrow> base (handleErr reserve clk err key q) = base q"
  by (simp add: handleErr_def rlq_AddRateLimited_eq rlq_AddAfter_def rlq_Forget_def split: option.split)

text \<open>
  The delay before the next try, on the default limiters: five milliseconds, doubled for each
  failure so far, unless the token bucket asks for more.
\<close>

definition backoff :: "int \<Rightarrow> int" where
  "backoff n = 5 * Millisecond * 2 ^ nat n"

lemma backoff_small: "0 \<le> n \<Longrightarrow> n < maxRetries \<Longrightarrow> 5000000 \<le> backoff n \<and> backoff n \<le> 81920000000"
proof -
  assume "0 \<le> n" "n < maxRetries"
  then have "2 ^ nat n \<le> (2 :: int) ^ 14" by (intro power_increasing) (auto simp: maxRetries_def)
  then show ?thesis by (simp add: backoff_def Millisecond_def)
qed

lemma retry_delay:
  assumes "default_shape ls" "maxof_NumRequeues ls key < maxRetries"
  obtains b where "BucketRateLimiter b \<in> set ls"
    "fst (maxof_When reserve key ls) = max (backoff (maxof_NumRequeues ls key)) (fst (reserve b))"
proof -
  obtain r b where ls: "ls = [ItemExponentialFailure r, BucketRateLimiter b]" and ok: "exp_ok r"
    and d: "baseDelay r = 5 * Millisecond" "maxDelay r = 1000 * Second"
    using assms(1) by (rule default_shapeE)
  let ?n = "map_index (failures r) key"
  have n: "maxof_NumRequeues ls key = ?n" using ls ok by (simp add: maxof_NumRequeues_default)
  have "0 \<le> ?n" using ok by (simp add: exp_ok_def)
  with assms(2) n backoff_small [of ?n] have small: "5000000 \<le> backoff ?n" "backoff ?n \<le> 81920000000"
    by simp_all
  have "baseDelay r * 2 ^ nat ?n = backoff ?n" by (simp add: d backoff_def)
  moreover from this small(2) have "fst (exp_When key r) = min (backoff ?n) (maxDelay r)"
    using exp_When_delay [OF ok, of key] by simp
  ultimately have "fst (exp_When key r) = backoff ?n"
    using small by (simp add: d Second_def)
  then have "fst (maxof_When reserve key ls) = max (backoff ?n) (fst (reserve b))"
    using small(1) by (simp add: ls maxof_When_default)
  with n ls show thesis by (intro that [of b]) simp_all
qed

lemma handleErr_retries:
  assumes "rlq_inv q" "\<not> shuttingDown (base q)" "rlq_NumRequeues q key < maxRetries"
  obtains b where "BucketRateLimiter b \<in> set (rateLimiter q)"
    "handleErr reserve clk (Some e) key q =
       q\<lparr>rateLimiter := snd (maxof_When reserve key (rateLimiter q)),
         waitingForAdd := waitingForAdd q @
           [(key, clk + max (backoff (rlq_NumRequeues q key)) (fst (reserve b)))]\<rparr>"
proof -
  have shape: "default_shape (rateLimiter q)" using assms(1) by (simp add: rlq_inv_def)
  have few: "maxof_NumRequeues (rateLimiter q) key < maxRetries"
    using assms(3) by (simp add: rlq_NumRequeues_def)
  obtain b where b: "BucketRateLimiter b \<in> set (rateLimiter q)"
    "fst (maxof_When reserve key (rateLimiter q)) =
       max (backoff (maxof_NumRequeues (rateLimiter q) key)) (fst (reserve b))"
    using shape few by (rule retry_delay)
  have "0 \<le> maxof_NumRequeues (rateLimiter q) key"
    using shape by (rule default_limiter.requeues_nonneg)
  with few backoff_small [of "maxof_NumRequeues (rateLimiter q) key"]
  have "0 < max (backoff (maxof_NumRequeues (rateLimiter q) key)) (fst (reserve b))"
    by linarith
  then have wait: "\<not> fst (maxof_When reserve key (rateLimiter q)) \<le> 0" using b(2) by linarith
  have "handleErr reserve clk (Some e) key q =
      rlq_AddAfter clk key (fst (maxof_When reserve key (rateLimiter q)))
        (q\<lparr>rateLimiter := snd (maxof_When reserve key (rateLimiter q))\<rparr>)"
    using assms(3) by (simp add: handleErr_def rlq_AddRateLimited_eq)
  also have "\<dots> = q\<lparr>rateLimiter := snd (maxof_When reserve key (rateLimiter q)),
      waitingForAdd := waitingForAdd q @ [(key, clk + fst (maxof_When reserve key (rateLimiter q)))]\<rparr>"
    using assms(2) wait by (simp add: rlq_AddAfter_def)
  finally show thesis
    unfolding b(2) by (intro that [OF b(1)]) (simp add: rlq_NumRequeues_def)
qed

text \<open>
  The budget of any rate limiter under the policy \<open>retry while fewer than m requeues, then forget\<close>:
  failures are counted modulo the budget.
\<close>

context rate_limiter
begin

lemma budget_step:
  assumes "invar r" "requeues r k = int n" "n \<le> m"
    "r' = (if requeues r k < int m then snd (asked k r) else forget k r)"
  shows "invar r' \<and> requeues r' k = int (Suc n mod Suc m)"
  using assms
  by (cases "n < m") (auto simp: invar_asked invar_forget requeues_asked requeues_forget)

end

lemma handleErr_counts:
  assumes "rlq_inv q" "rlq_NumRequeues q key = int n" "n \<le> 15"
  shows "rlq_NumRequeues (handleErr reserve clk (Some e) key q) key = int (Suc n mod 16)"
  using assms
    default_limiter.budget_step [of "rateLimiter q" key n 15
      "rateLimiter (handleErr reserve clk (Some e) key q)" reserve]
  by (simp add: rlq_inv_def rlq_NumRequeues_def handleErr_limiter maxRetries_def)

lemma handleErr_fold_counts:
  assumes "rlq_inv q" "rlq_NumRequeues q key = int (n mod 16)"
  shows "rlq_inv (fold (\<lambda>(clk, e). handleErr reserve clk (Some e) key) fs q) \<and>
    rlq_NumRequeues (fold (\<lambda>(clk, e). handleErr reserve clk (Some e) key) fs q) key =
      int ((n + length fs) mod 16)"
  using assms
proof (induction fs arbitrary: q n)
  case (Cons f fs)
  obtain clk e where f: "f = (clk, e)" by fastforce
  have "rlq_NumRequeues (handleErr reserve clk (Some e) key q) key = int (Suc n mod 16)"
    using handleErr_counts [OF Cons.prems] by (simp add: mod_Suc_eq)
  with Cons.IH [of "handleErr reserve clk (Some e) key q" "Suc n"] Cons.prems(1) f
  show ?case by (simp add: rlq_inv_handleErr)
qed simp

section \<open>One turn of a worker\<close>

record ('b, 'e) controller =
  work :: "(string, 'b) rl_queue"
  outside :: "'e world"

text \<open>
  \<open>None\<close> is a call that waits in \<open>Get\<close>. A panic of the pass unwinds through the deferred
  \<open>Done\<close>.
\<close>

definition processNextWorkItem ::
    "('b \<Rightarrow> int \<times> 'b) \<Rightarrow> 'e env \<Rightarrow> configuration \<Rightarrow> ('b, 'e) controller \<Rightarrow>
     (bool panicky \<times> ('b, 'e) controller) option" where
  "processNextWorkItem reserve env cfg c =
     (case wq_Get (base (work c)) of
        Blocks \<Rightarrow> None
      | Quits \<Rightarrow> Some (Returns False, c)
      | Gets key q \<Rightarrow>
          let got = (work c)\<lparr>base := q\<rparr> in
          (case reconcile env cfg key (outside c) of
             (Returns err, w) \<Rightarrow>
               Some (Returns True,
                 \<lparr>work = rlq_Done key (handleErr reserve (clock w) err key got), outside = w\<rparr>)
           | (Panics m, w) \<Rightarrow>
               Some (Panics m, \<lparr>work = rlq_Done key got, outside = w\<rparr>)))"

text \<open>\<open>worker\<close>; \<open>None\<close> is a worker that does not return.\<close>

partial_function (option) worker ::
    "('b \<Rightarrow> int \<times> 'b) \<Rightarrow> 'e env \<Rightarrow> configuration \<Rightarrow> ('b, 'e) controller \<Rightarrow>
     (unit panicky \<times> ('b, 'e) controller) option" where
  "worker reserve env cfg c =
     Option.bind (processNextWorkItem reserve env cfg c) (\<lambda>(r, c').
       case r of
         Returns continue \<Rightarrow> if continue then worker reserve env cfg c' else Some (Returns (), c')
       | Panics m \<Rightarrow> Some (Panics m, c'))"

text \<open>What the worker does to a queue that is shutting down: one pass per queued key, in order.\<close>

fun drain :: "'e env \<Rightarrow> configuration \<Rightarrow> string list \<Rightarrow> 'e world \<Rightarrow> unit panicky \<times> 'e world" where
  "drain env cfg [] w = (Returns (), w)"
| "drain env cfg (k # ks) w =
     (case reconcile env cfg k w of
        (Returns err, w') \<Rightarrow> drain env cfg ks w'
      | (Panics m, w') \<Rightarrow> (Panics m, w'))"

lemma turn_shutting_down:
  assumes "shuttingDown (base (work c))" "queue (base (work c)) = k # ks"
    "reconcile env cfg k (outside c) = (Returns err, w)"
  obtains q where "processNextWorkItem reserve env cfg c = Some (Returns True, \<lparr>work = q, outside = w\<rparr>)"
    "shuttingDown (base q)" "queue (base q) = ks"
proof -
  let ?b = "(base (work c))\<lparr>queue := ks, processing := insert k (processing (base (work c))),
      dirty := dirty (base (work c)) - {k}\<rparr>"
  let ?h = "handleErr reserve (clock w) err k ((work c)\<lparr>base := ?b\<rparr>)"
  have "base ?h = ?b" using assms(1) by (simp add: handleErr_shutting_down)
  moreover have "wq_Get (base (work c)) = Gets k ?b" using assms(2) by (simp add: wq_Get_def)
  ultimately show thesis
    using assms(1,3) by (intro that [of "rlq_Done k ?h"])
      (simp_all add: processNextWorkItem_def rlq_Done_def wq_Done_def)
qed

lemma worker_drains_queue:
  assumes "shuttingDown (base (work c))"
  obtains q where "worker reserve env cfg c =
      Some (fst (drain env cfg (queue (base (work c))) (outside c)),
        \<lparr>work = q, outside = snd (drain env cfg (queue (base (work c))) (outside c))\<rparr>)"
proof -
  have "\<exists>q. worker reserve env cfg c =
      Some (fst (drain env cfg ks (outside c)),
        \<lparr>work = q, outside = snd (drain env cfg ks (outside c))\<rparr>)"
    if "queue (base (work c)) = ks" "shuttingDown (base (work c))" for ks c
    using that
  proof (induction ks arbitrary: c)
    case Nil
    then show ?case
      by (subst worker.simps) (auto simp: processNextWorkItem_def wq_Get_def intro: exI [of _ "work c"])
  next
    case (Cons k ks)
    obtain r w where rec: "reconcile env cfg k (outside c) = (r, w)" by fastforce
    show ?case
    proof (cases r)
      case (Returns err)
      obtain q where q: "processNextWorkItem reserve env cfg c = Some (Returns True, \<lparr>work = q, outside = w\<rparr>)"
          "shuttingDown (base q)" "queue (base q) = ks"
        using Cons.prems rec Returns by (elim turn_shutting_down) auto
      with Cons.IH [of "\<lparr>work = q, outside = w\<rparr>"] rec Returns show ?thesis
        by (subst worker.simps) simp
    next
      case (Panics m)
      with rec Cons.prems show ?thesis
        by (subst worker.simps) (simp add: processNextWorkItem_def wq_Get_def)
    qed
  qed
  with assms that show thesis by blast
qed

text \<open>A worker that returns has found the queue shut down and empty.\<close>

lemma turn_ends:
  "processNextWorkItem reserve env cfg c = Some (Returns False, c') \<Longrightarrow>
     c' = c \<and> shuttingDown (base (work c)) \<and> queue (base (work c)) = []"
  by (auto simp: processNextWorkItem_def wq_Get_def Let_def
      split: got.splits prod.splits panicky.splits if_splits list.splits)

lemma worker_returns:
  assumes "worker reserve env cfg c = Some y"
  shows "fst y = Returns () \<longrightarrow>
    shuttingDown (base (work (snd y))) \<and> queue (base (work (snd y))) = []"
  using assms
proof (rule worker.raw_induct [rotated])
  fix self reserve env cfg and c :: "('a, 'b) controller" and y
  assume IH: "\<And>reserve env cfg c y. self reserve env cfg c = Some y \<Longrightarrow>
      fst y = Returns () \<longrightarrow> shuttingDown (base (work (snd y))) \<and> queue (base (work (snd y))) = []"
    and "Option.bind (processNextWorkItem reserve env cfg c) (\<lambda>(r, c').
       case r of
         Returns continue \<Rightarrow> if continue then self reserve env cfg c' else Some (Returns (), c')
       | Panics m \<Rightarrow> Some (Panics m, c')) = Some y"
  then obtain r c' where turn: "processNextWorkItem reserve env cfg c = Some (r, c')"
    and y: "(case r of
         Returns continue \<Rightarrow> if continue then self reserve env cfg c' else Some (Returns (), c')
       | Panics m \<Rightarrow> Some (Panics m, c')) = Some y"
    by (auto simp: Option.bind_eq_Some_conv)
  show "fst y = Returns () \<longrightarrow>
      shuttingDown (base (work (snd y))) \<and> queue (base (work (snd y))) = []"
  proof (cases r)
    case (Returns continue)
    with y turn IH [of reserve env cfg c' y] turn_ends [of reserve env cfg c c'] show ?thesis
      by (cases continue) auto
  next
    case (Panics m)
    with y show ?thesis by auto
  qed
qed

text \<open>What a turn that ends has done to the queue.\<close>

lemma turn_cases:
  assumes "processNextWorkItem reserve env cfg c = Some (r, c')"
  obtains (quit) "c' = c" "r = Returns False"
  | (served) key q clk err where "wq_Get (base (work c)) = Gets key q"
      "work c' = rlq_Done key (handleErr reserve clk err key ((work c)\<lparr>base := q\<rparr>))"
  | (panicked) key q where "wq_Get (base (work c)) = Gets key q"
      "work c' = rlq_Done key ((work c)\<lparr>base := q\<rparr>)"
proof (cases "wq_Get (base (work c))")
  case (Gets key q)
  obtain x w where rec: "reconcile env cfg key (outside c) = (x, w)" by fastforce
  show thesis
    using assms Gets rec served [OF Gets] panicked [OF Gets]
    by (cases x) (auto simp: processNextWorkItem_def)
qed (use assms quit in \<open>auto simp: processNextWorkItem_def\<close>)

lemma rlq_Done_processing: "processing (base (rlq_Done k q)) = processing (base q) - {k}"
  by (simp add: rlq_Done_def wq_Done_def Let_def)

lemma turn_keeps:
  assumes inv: "rlq_inv (work c)" and turn: "processNextWorkItem reserve env cfg c = Some (r, c')"
  shows "rlq_inv (work c') \<and> processing (base (work c')) = processing (base (work c))"
proof -
  have got: "rlq_inv ((work c)\<lparr>base := q\<rparr>)" "key \<in> processing q"
      "processing q - {key} = processing (base (work c))"
    if "wq_Get (base (work c)) = Gets key q" for key q
  proof -
    have wq: "wq_inv (base (work c))" using inv by (simp add: rlq_inv_def)
    note head = wq_Get_head [OF wq that]
    show "rlq_inv ((work c)\<lparr>base := q\<rparr>)"
      using inv wq_inv_Get [OF wq that] by (simp add: rlq_inv_def)
    show "key \<in> processing q" "processing q - {key} = processing (base (work c))"
      using head(2) unfolding head(4) by simp_all
  qed
  show ?thesis
  proof (cases rule: turn_cases [OF turn])
    case 1
    with inv show ?thesis by simp
  next
    case (2 key q clk err)
    with got [OF 2(1)] show ?thesis
      by (simp add: rlq_inv_Done rlq_inv_handleErr rlq_Done_processing handleErr_base)
  next
    case (3 key q)
    with got [OF 3(1)] show ?thesis by (simp add: rlq_inv_Done rlq_Done_processing)
  qed
qed

section \<open>Properties\<close>

text \<open>
  C27. The retry budget: a key with no failures so far, that fails again and again, has its
  failures counted modulo sixteen. It is queued again fifteen times, and the sixteenth failure in a
  row drops it, with its counter back at zero.
\<close>

theorem retry_budget:
  fixes fs :: "(int \<times> go_error) list" and reserve :: "'b \<Rightarrow> int \<times> 'b"
  assumes "rlq_inv q" "rlq_NumRequeues q key = 0"
  defines "q' \<equiv> fold (\<lambda>(clk, e). handleErr reserve clk (Some e) key) fs q"
  shows "rlq_NumRequeues q' key = int (length fs mod 16) \<and>
    (length fs mod 16 = 15 \<longrightarrow> handleErr reserve clk (Some e) key q' = rlq_Forget key q')"
proof -
  have "rlq_NumRequeues q' key = int (length fs mod 16)"
    using handleErr_fold_counts [OF assms(1), of key 0 reserve fs] assms(2) by (simp add: q'_def)
  then show ?thesis by (simp add: handleErr_def maxRetries_def)
qed

lemma new_rl_queue_fields:
  "base (new_rl_queue bucket) = new_wqueue" "waitingForAdd (new_rl_queue bucket) = []"
  by (simp_all add: new_rl_queue_def)

lemma new_queue_requeues: "rlq_NumRequeues (new_rl_queue bucket) key = 0"
  by (simp add: rlq_NumRequeues_def new_rl_queue_def DefaultControllerRateLimiter_def
      maxof_NumRequeues_def exp_NumRequeues_def NewItemExponentialFailureRateLimiter_def)

definition fifteen_failures :: "(int \<times> go_error) list" where
  "fifteen_failures = map (\<lambda>i. (int i, ErrorString ''x'')) [0..<15]"

theorem retry_budget_witness:
  "\<exists>q. rlq_NumRequeues q ''vm'' = 15 \<and>
     handleErr (\<lambda>_. (0, ())) 9 (Some (ErrorString ''y'')) ''vm'' q = rlq_Forget ''vm'' q"
proof -
  have n: "length fifteen_failures = 15" by (simp add: fifteen_failures_def)
  note retry_budget [OF rlq_inv_new new_queue_requeues, where fs = fifteen_failures and key = "''vm''"
      and reserve = "\<lambda>_. (0, ())" and clk = 9 and e = "ErrorString ''y''"]
  then show ?thesis unfolding n by (intro exI conjI) auto
qed

text \<open>
  C28. The delay before the \<open>n+1\<close>st retry: \<open>5ms * 2^n\<close>, which lies between 5 ms and 81.92 s, unless the
  token bucket of the limiter asks for a longer wait. The key goes to the waiting loop with the
  time at which that delay ends, and the queue of ready keys does not change.
\<close>

theorem retry_delays:
  assumes "rlq_inv q" "\<not> shuttingDown (base q)" "rlq_NumRequeues q key < maxRetries"
  shows "\<exists>b delay. BucketRateLimiter b \<in> set (rateLimiter q) \<and>
    delay = max (5000000 * 2 ^ nat (rlq_NumRequeues q key)) (fst (reserve b)) \<and>
    5000000 * 2 ^ nat (rlq_NumRequeues q key) \<le> (81920000000 :: int) \<and>
    base (handleErr reserve clk (Some e) key q) = base q \<and>
    waitingForAdd (handleErr reserve clk (Some e) key q) = waitingForAdd q @ [(key, clk + delay)]"
proof -
  obtain b where b: "BucketRateLimiter b \<in> set (rateLimiter q)"
    "handleErr reserve clk (Some e) key q =
       q\<lparr>rateLimiter := snd (maxof_When reserve key (rateLimiter q)),
         waitingForAdd := waitingForAdd q @
           [(key, clk + max (backoff (rlq_NumRequeues q key)) (fst (reserve b)))]\<rparr>"
    by (rule handleErr_retries [OF assms])
  have "0 \<le> rlq_NumRequeues q key"
    using assms(1) by (simp add: rlq_inv_def rlq_NumRequeues_def default_limiter.requeues_nonneg)
  with backoff_small assms(3) have "backoff (rlq_NumRequeues q key) \<le> 81920000000" by blast
  with b show ?thesis by (auto simp: backoff_def Millisecond_def)
qed

theorem retry_delays_witness:
  "waitingForAdd (handleErr (\<lambda>_. (7000000, ())) 100 (Some (ErrorString ''x'')) ''vm'' (new_rl_queue ())) =
     [(''vm'', 7000100)]"
proof -
  have "rlq_NumRequeues (new_rl_queue ()) ''vm'' < maxRetries"
    by (simp add: new_queue_requeues maxRetries_def)
  from retry_delays [OF rlq_inv_new _ this, of "\<lambda>_. (7000000, ())" 100 "ErrorString ''x''"]
  show ?thesis by (auto simp: new_queue_requeues new_rl_queue_fields new_wqueue_def)
qed


definition closing_controller :: "(unit, nat) controller" where
  "closing_controller =
     \<lparr>work = (new_rl_queue ())\<lparr>base := wq_ShutDown (wq_Add sample_key new_wqueue)\<rparr>,
      outside = sample_world\<rparr>"


text \<open>
  A worker returns without a panic only when the queue has been shut down and is empty: as
  long as the controller runs, its workers keep serving.
\<close>

theorem worker_ends_on_shutdown:
  assumes "worker reserve env cfg c = Some (Returns (), c')"
  shows "shuttingDown (base (work c')) \<and> queue (base (work c')) = []"
  using worker_returns [OF assms] by simp

definition closed_controller :: "(unit, nat) controller" where
  "closed_controller =
     \<lparr>work = (new_rl_queue ())\<lparr>base := wq_ShutDown new_wqueue\<rparr>, outside = sample_world\<rparr>"

theorem worker_ends_on_shutdown_witness:
  "shuttingDown (base (work closed_controller)) \<and> queue (base (work closed_controller)) = []"
proof (rule worker_ends_on_shutdown)
  show "worker (\<lambda>_. (0, ())) (sample_env (sample_vm None)) sample_cfg closed_controller =
      Some (Returns (), closed_controller)"
    by (subst worker.simps)
      (simp add: processNextWorkItem_def wq_Get_def closed_controller_def wq_ShutDown_def new_wqueue_def)
qed

text \<open>
  A turn that ends, even by a panic of the pass, keeps the invariant of the queue and leaves
  the set of keys in progress as it found it: the deferred \<open>Done\<close> always releases the key.
\<close>

theorem turn_releases_key:
  assumes "rlq_inv (work c)" "processNextWorkItem reserve env cfg c = Some (r, c')"
  shows "rlq_inv (work c') \<and> processing (base (work c')) = processing (base (work c))"
  by (rule turn_keeps [OF assms])

definition panicking_controller :: "(unit, nat) controller" where
  "panicking_controller =
     \<lparr>work = rlq_Add sample_key (new_rl_queue ()), outside = sample_world\<rparr>"

theorem turn_releases_key_witness:
  "\<exists>c'. processNextWorkItem (\<lambda>_. (0, ()))
       ((sample_env (sample_vm (Some 5)))\<lparr>InstancesDelete := \<lambda>p z n e. ((None, None), e)\<rparr>)
       sample_cfg panicking_controller = Some (Panics nil_dereference, c') \<and>
     processing (base (work c')) = {}"
proof -
  let ?env = "(sample_env (sample_vm (Some 5)))\<lparr>InstancesDelete := \<lambda>p z n e. ((None, None), e)\<rparr>"
  have "fst (reconcile ?env sample_cfg sample_key sample_world) = Panics nil_dereference"
    by code_simp
  then obtain w where "reconcile ?env sample_cfg sample_key sample_world = (Panics nil_dereference, w)"
    by (metis prod.collapse)
  then obtain c' where turn: "processNextWorkItem (\<lambda>_. (0, ())) ?env sample_cfg panicking_controller =
      Some (Panics nil_dereference, c')"
    by (simp add: processNextWorkItem_def panicking_controller_def rlq_Add_def wq_Add_def
        new_rl_queue_def new_wqueue_def wq_Get_def)
  have "rlq_inv (work panicking_controller)"
    by (simp add: panicking_controller_def rlq_inv_Add rlq_inv_new)
  from turn_releases_key [OF this turn] turn show ?thesis
    by (simp add: panicking_controller_def rlq_Add_def wq_Add_def new_rl_queue_def new_wqueue_def)
qed

end
