(* ===== verification/Worker_Steps.thy ===== *)
theory Worker_Steps
  imports Controller Sample_World
begin

text \<open>
  The workers, the informer, the waiting loop of the delaying queue and the clock running together:
  a labelled step relation whose steps are the atomic operations on the queue, in any order. A pass
  over a key may end with any error, so a step relation with the passes themselves has no more
  behaviours. The waiting loop of \<open>delaying_queue.go\<close> is modelled up to the order in which its heap
  pops entries that are ready at the same time.
\<close>

section \<open>The waiting loop\<close>

text \<open>
  \<open>knownEntries\<close>: a key that already waits is only ever moved forward.
\<close>

definition delay_insert :: "'k \<times> int \<Rightarrow> ('k \<rightharpoonup> int) \<Rightarrow> ('k \<rightharpoonup> int)" where
  "delay_insert entry knownEntries =
     (case knownEntries (fst entry) of
        Some existing \<Rightarrow>
          if existing > snd entry then knownEntries(fst entry \<mapsto> snd entry) else knownEntries
      | None \<Rightarrow> knownEntries(fst entry \<mapsto> snd entry))"

lemma dom_delay_insert [simp]: "dom (delay_insert x m) = insert (fst x) (dom m)"
  by (auto simp: delay_insert_def split: option.splits)

lemma delay_insert_sooner:
  "delay_insert (k, t) m k = Some (case m k of None \<Rightarrow> t | Some t' \<Rightarrow> min t t')"
  by (simp add: delay_insert_def split: option.splits)

section \<open>The system\<close>

datatype phase = Idle | Reconciling string | Reported string

fun holds_key :: "phase \<Rightarrow> string option" where
  "holds_key Idle = None"
| "holds_key (Reconciling k) = Some k"
| "holds_key (Reported k) = Some k"

record 'b system =
  sq :: "(string, 'b) rl_queue"
  known :: "string \<rightharpoonup> int"
  crew :: "nat \<Rightarrow> phase"
  now :: int

datatype act =
    Event informer_object
  | Takes nat string
  | Reports nat string "go_error option"
  | Finishes nat string
  | Receives string
  | Fires string
  | Elapses
  | Closes

definition start :: "'b \<Rightarrow> int \<Rightarrow> 'b system" where
  "start bucket t =
     \<lparr>sq = new_rl_queue bucket, known = Map.empty, crew = (\<lambda>_. Idle), now = t\<rparr>"

definition handled :: "informer_object \<Rightarrow> (string, 'b) rl_queue \<Rightarrow> (string, 'b) rl_queue \<Rightarrow> bool" where
  "handled obj q q' =
     (handler_add obj q = (Returns (), q') \<or> (\<exists>old. handler_update old obj q = (Returns (), q')) \<or>
      handler_delete obj q = (Returns (), q'))"

inductive step :: "('b \<Rightarrow> int \<times> 'b) \<Rightarrow> 'b system \<Rightarrow> act \<Rightarrow> 'b system \<Rightarrow> bool" for reserve where
  event: "handled obj (sq s) q \<Longrightarrow> step reserve s (Event obj) (s\<lparr>sq := q\<rparr>)"
| takes: "crew s w = Idle \<Longrightarrow> wq_Get (base (sq s)) = Gets k b \<Longrightarrow>
    step reserve s (Takes w k)
      (s\<lparr>sq := (sq s)\<lparr>base := b\<rparr>, crew := (crew s)(w := Reconciling k)\<rparr>)"
| reports: "crew s w = Reconciling k \<Longrightarrow>
    step reserve s (Reports w k err)
      (s\<lparr>sq := handleErr reserve (now s) err k (sq s), crew := (crew s)(w := Reported k)\<rparr>)"
| finishes: "crew s w = Reported k \<Longrightarrow>
    step reserve s (Finishes w k)
      (s\<lparr>sq := rlq_Done k (sq s), crew := (crew s)(w := Idle)\<rparr>)"
| receives_later: "waitingForAdd (sq s) = (k, t) # ws \<Longrightarrow> t > now s \<Longrightarrow>
    step reserve s (Receives k)
      (s\<lparr>sq := (sq s)\<lparr>waitingForAdd := ws\<rparr>, known := delay_insert (k, t) (known s)\<rparr>)"
| receives_due: "waitingForAdd (sq s) = (k, t) # ws \<Longrightarrow> \<not> t > now s \<Longrightarrow>
    step reserve s (Receives k) (s\<lparr>sq := rlq_Add k ((sq s)\<lparr>waitingForAdd := ws\<rparr>)\<rparr>)"
| fires: "known s k = Some t \<Longrightarrow> \<not> t > now s \<Longrightarrow> (\<forall>t' \<in> ran (known s). t \<le> t') \<Longrightarrow>
    step reserve s (Fires k) (s\<lparr>sq := rlq_Add k (sq s), known := (known s)(k := None)\<rparr>)"
| elapses: "now s \<le> t \<Longrightarrow> step reserve s Elapses (s\<lparr>now := t\<rparr>)"
| closes: "step reserve s Closes (s\<lparr>sq := (sq s)\<lparr>base := wq_ShutDown (base (sq s))\<rparr>\<rparr>)"

inductive_cases step_TakesE: "step reserve s (Takes w k) s'"
inductive_simps step_Takes_iff: "step reserve s (Takes w k) s'"

inductive steps :: "('b \<Rightarrow> int \<times> 'b) \<Rightarrow> 'b system \<Rightarrow> act list \<Rightarrow> 'b system \<Rightarrow> bool" for reserve where
  none: "steps reserve s [] s"
| more: "step reserve s a s1 \<Longrightarrow> steps reserve s1 as s2 \<Longrightarrow> steps reserve s (a # as) s2"

inductive_cases steps_ConsE: "steps reserve s (a # as) s'"

definition reachable :: "('b \<Rightarrow> int \<times> 'b) \<Rightarrow> 'b system \<Rightarrow> bool" where
  "reachable reserve s = (\<exists>bucket t as. steps reserve (start bucket t) as s)"

text \<open>A handler that returns adds at most one key.\<close>

lemma handledE:
  assumes "handled obj q q'"
  obtains (queued) k where "q' = rlq_Add k q" | (ignored) "q' = q"
proof -
  have "(\<exists>k. q' = rlq_Add k q) \<or> q' = q"
    using assms unfolding handled_def
  proof (elim disjE exE)
    assume "handler_add obj q = (Returns (), q')"
    then show ?thesis by (cases obj rule: handler_add.cases) (auto simp: go_simps)
  next
    fix old assume "handler_update old obj q = (Returns (), q')"
    then show ?thesis by (cases obj) (auto simp: go_simps)
  next
    assume "handler_delete obj q = (Returns (), q')"
    then show ?thesis by (cases obj rule: handler_delete.cases) (auto simp: go_simps)
  qed
  then show thesis using queued ignored by blast
qed

lemma rlq_Add_base [simp]:
  "base (rlq_Add k q) = wq_Add k (base q)" "waitingForAdd (rlq_Add k q) = waitingForAdd q"
  "rateLimiter (rlq_Add k q) = rateLimiter q"
  by (simp_all add: rlq_Add_def)

lemma wq_Add_keeps [simp]:
  "processing (wq_Add k q) = processing q" "shuttingDown (wq_Add k q) = shuttingDown q"
  by (simp_all add: wq_Add_def Let_def)

lemma wq_ShutDown_keeps: "processing (wq_ShutDown q) = processing q"
  by (simp add: wq_ShutDown_def)

lemma handled_keeps:
  assumes "handled obj q q'"
  shows "processing (base q') = processing (base q)" "waitingForAdd q' = waitingForAdd q"
    "shuttingDown (base q') = shuttingDown (base q)" "rlq_inv q \<Longrightarrow> rlq_inv q'"
  using assms by (auto elim!: handledE simp: rlq_inv_Add)

section \<open>Mutual exclusion\<close>

definition sys_inv :: "'b system \<Rightarrow> bool" where
  "sys_inv s =
     (rlq_inv (sq s) \<and>
      processing (base (sq s)) = {k. \<exists>w. holds_key (crew s w) = Some k} \<and>
      (\<forall>w1 w2 k. holds_key (crew s w1) = Some k \<longrightarrow> holds_key (crew s w2) = Some k \<longrightarrow> w1 = w2))"

lemma sys_inv_start: "sys_inv (start bucket t)"
  by (simp add: sys_inv_def start_def rlq_inv_new) (simp add: new_rl_queue_def new_wqueue_def)

text \<open>Steps that leave the workers alone.\<close>

lemma sys_inv_quiet:
  assumes "sys_inv s" "rlq_inv (sq s')" "processing (base (sq s')) = processing (base (sq s))"
    "\<And>w. holds_key (crew s' w) = holds_key (crew s w)"
  shows "sys_inv s'"
  using assms by (simp add: sys_inv_def)

lemma sys_inv_takes:
  assumes inv: "sys_inv s" and idle: "crew s w = Idle" and got: "wq_Get (base (sq s)) = Gets k b"
  shows "sys_inv (s\<lparr>sq := (sq s)\<lparr>base := b\<rparr>, crew := (crew s)(w := Reconciling k)\<rparr>)"
proof -
  have q: "wq_inv (base (sq s))" using inv by (simp add: sys_inv_def rlq_inv_def)
  note head = wq_Get_head [OF q got]
  have free: "holds_key (crew s w') \<noteq> Some k" for w'
    using inv head(2) by (auto simp: sys_inv_def)
  have "processing b = {k'. \<exists>w'. holds_key (((crew s)(w := Reconciling k)) w') = Some k'}"
    using inv head(4) idle by (auto simp: sys_inv_def) (metis holds_key.simps(1) option.distinct(1))
  with inv free wq_inv_Get [OF q got] show ?thesis
    by (auto simp: sys_inv_def rlq_inv_def)
qed

lemma sys_inv_finishes:
  assumes inv: "sys_inv s" and w: "crew s w = Reported k"
  shows "sys_inv (s\<lparr>sq := rlq_Done k (sq s), crew := (crew s)(w := Idle)\<rparr>)"
proof -
  have k: "holds_key (crew s w) = Some k" by (simp add: w)
  then have mine: "holds_key (crew s w') = Some k \<longleftrightarrow> w' = w" for w'
    using inv by (auto simp: sys_inv_def)
  have p: "k \<in> processing (base (sq s))" using inv k by (auto simp: sys_inv_def)
  then have released: "rlq_inv (rlq_Done k (sq s))"
    using inv by (simp add: sys_inv_def rlq_inv_Done)
  have "processing (base (rlq_Done k (sq s))) = processing (base (sq s)) - {k}"
    by (simp add: rlq_Done_def wq_Done_def Let_def)
  moreover have "processing (base (sq s)) - {k} =
      {k'. \<exists>w'. holds_key (((crew s)(w := Idle)) w') = Some k'}"
    using inv mine k by (auto simp: sys_inv_def) (metis option.inject)
  ultimately show ?thesis
    using inv released by (auto simp: sys_inv_def)
qed

lemma sys_inv_step: "step reserve s a s' \<Longrightarrow> sys_inv s \<Longrightarrow> sys_inv s'"
proof (induction rule: step.induct)
  case (event obj s q)
  then have "rlq_inv (sq s)" by (simp add: sys_inv_def)
  with handled_keeps [OF event.hyps] event.prems show ?case by - (rule sys_inv_quiet [of s]; simp)
next
  case (takes s w k b)
  then show ?case by (simp add: sys_inv_takes)
next
  case (reports s w k err)
  then have "rlq_inv (sq s)" by (simp add: sys_inv_def)
  with reports show ?case
    by - (rule sys_inv_quiet [of s]; simp add: rlq_inv_handleErr handleErr_base)
next
  case (finishes s w k)
  then show ?case by (simp add: sys_inv_finishes)
next
  case (receives_later s k t ws)
  then have "rlq_inv (sq s)" by (simp add: sys_inv_def)
  with receives_later show ?case by - (rule sys_inv_quiet [of s]; simp add: rlq_inv_def)
next
  case (receives_due s k t ws)
  then have "rlq_inv (sq s)" by (simp add: sys_inv_def)
  with receives_due show ?case
    by - (rule sys_inv_quiet [of s]; simp add: rlq_inv_def wq_inv_Add)
next
  case (fires s k t)
  then have "rlq_inv (sq s)" by (simp add: sys_inv_def)
  with fires show ?case by - (rule sys_inv_quiet [of s]; simp add: rlq_inv_Add)
next
  case (elapses s t)
  then show ?case by (simp add: sys_inv_def)
next
  case (closes s)
  then have "rlq_inv (sq s)" by (simp add: sys_inv_def)
  with closes show ?case
    by - (rule sys_inv_quiet [of s]; simp add: rlq_inv_def wq_inv_ShutDown wq_ShutDown_keeps)
qed

lemma sys_inv_steps: "steps reserve s as s' \<Longrightarrow> sys_inv s \<Longrightarrow> sys_inv s'"
  by (induction rule: steps.induct) (auto dest: sys_inv_step)

lemma sys_inv_reachable: "reachable reserve s \<Longrightarrow> sys_inv s"
  by (auto simp: reachable_def dest: sys_inv_steps intro: sys_inv_start)

section \<open>No key is lost\<close>

text \<open>
  A key is on its way to a worker while it is dirty, in the channel of the waiting loop, or among
  the loop's entries. It stays on its way until a worker takes it, unless the queue is shut down.
\<close>

definition on_its_way :: "'b system \<Rightarrow> string \<Rightarrow> bool" where
  "on_its_way s k =
     (k \<in> dirty (base (sq s)) \<or> k \<in> fst ` set (waitingForAdd (sq s)) \<or> k \<in> dom (known s))"

lemma dirty_wq_Add: "dirty (wq_Add k q) = (if shuttingDown q then dirty q else insert k (dirty q))"
  by (auto simp: wq_Add_def Let_def)

lemma handled_dirty: "handled obj q q' \<Longrightarrow> dirty (base q) \<subseteq> dirty (base q')"
  by (auto elim!: handledE simp: dirty_wq_Add)

lemma handleErr_waiting:
  "set (waitingForAdd q) \<subseteq> set (waitingForAdd (handleErr reserve clk err k q))"
  by (auto simp: handleErr_def rlq_AddRateLimited_eq rlq_AddAfter_def rlq_Forget_def split: option.split)

lemma rlq_Done_keeps [simp]:
  "dirty (base (rlq_Done k q)) = dirty (base q)" "waitingForAdd (rlq_Done k q) = waitingForAdd q"
  by (simp_all add: rlq_Done_def wq_Done_def Let_def)

lemma step_on_its_way:
  assumes "step reserve s a s'" "on_its_way s k" "\<not> shuttingDown (base (sq s))"
  shows "on_its_way s' k \<or> (\<exists>w. a = Takes w k)"
  using assms
proof (induction rule: step.induct)
  case (event obj s q)
  then show ?case
    using handled_dirty [of obj "sq s" q] handled_keeps(2) [of obj "sq s" q]
    by (auto simp: on_its_way_def)
next
  case (takes s w k' b)
  then have "dirty b = dirty (base (sq s)) - {k'}" by (auto simp: wq_Get_Gets)
  with takes show ?case by (auto simp: on_its_way_def)
next
  case (reports s w k' err)
  then show ?case
    using handleErr_dirty [of "sq s" reserve "now s" err k']
      handleErr_waiting [of "sq s" reserve "now s" err k']
    by (auto simp: on_its_way_def)
next
  case (fires s k' t)
  then show ?case by (auto simp: on_its_way_def dirty_wq_Add)
qed (auto simp: on_its_way_def dirty_wq_Add wq_ShutDown_def)

text \<open>A failed pass puts its key on its way again, until the budget is used up.\<close>

lemma report_on_its_way:
  assumes "sys_inv s" "step reserve s (Reports w k (Some e)) s'"
    "\<not> shuttingDown (base (sq s))" "rlq_NumRequeues (sq s) k < maxRetries"
  shows "on_its_way s' k"
proof -
  have q: "sq s' = handleErr reserve (now s) (Some e) k (sq s)"
    using assms(2) by (auto elim: step.cases)
  have inv: "rlq_inv (sq s)" using assms(1) by (simp add: sys_inv_def)
  obtain b where "handleErr reserve (now s) (Some e) k (sq s) =
       (sq s)\<lparr>rateLimiter := snd (maxof_When reserve k (rateLimiter (sq s))),
         waitingForAdd := waitingForAdd (sq s) @
           [(k, now s + max (backoff (rlq_NumRequeues (sq s) k)) (fst (reserve b)))]\<rparr>"
    by (rule handleErr_retries [OF inv assms(3,4)])
  with q show ?thesis by (simp add: on_its_way_def)
qed

section \<open>Bounded waiting\<close>

fun is_take :: "act \<Rightarrow> bool" where
  "is_take (Takes w k) = True"
| "is_take _ = False"

lemma queue_wq_Add: "\<exists>ys. queue (wq_Add k q) = queue q @ ys"
  by (auto simp: wq_Add_def Let_def)

lemma handled_queue: "handled obj q q' \<Longrightarrow> \<exists>ys. queue (base q') = queue (base q) @ ys"
  by (auto elim!: handledE simp: queue_wq_Add)

lemma handleErr_queue:
  "\<exists>ys. queue (base (handleErr reserve clk err k q)) = queue (base q) @ ys"
  using queue_wq_Add
  by (auto simp: handleErr_def rlq_AddRateLimited_eq rlq_AddAfter_base rlq_Forget_def split: option.split)

lemma rlq_Done_queue: "\<exists>ys. queue (base (rlq_Done k q)) = queue (base q) @ ys"
  by (simp add: rlq_Done_def wq_Done_def Let_def)

text \<open>Only taking shortens the queue, and only at its head.\<close>

lemma step_queue:
  assumes "step reserve s a s'"
  obtains (grows) ys where "\<not> is_take a" "queue (base (sq s')) = queue (base (sq s)) @ ys"
  | (served) w k ks where "a = Takes w k" "queue (base (sq s)) = k # ks" "queue (base (sq s')) = ks"
  using assms
proof (cases rule: step.cases)
  case (event obj q)
  then show thesis using handled_queue [of obj "sq s" q] by (auto intro: grows)
next
  case (takes w k b)
  then show thesis by (auto simp: wq_Get_Gets intro: served)
next
  case (reports w k err)
  then show thesis using handleErr_queue [of reserve "now s" err k "sq s"] by (auto intro: grows)
next
  case (finishes w k)
  then show thesis using rlq_Done_queue [of k "sq s"] by (auto intro: grows)
next
  case (receives_due k t ws)
  then show thesis using queue_wq_Add [of k "base (sq s)"] by (auto intro: grows)
next
  case (fires k t)
  then show thesis using queue_wq_Add [of k "base (sq s)"] by (auto intro: grows)
qed (auto intro: grows simp: wq_ShutDown_def)

lemma steps_serve:
  assumes "steps reserve s as s'" "i < length (queue (base (sq s)))"
    "i < length (filter is_take as)"
  shows "\<exists>w. Takes w (queue (base (sq s)) ! i) \<in> set as"
  using assms
proof (induction arbitrary: i rule: steps.induct)
  case (more s a s1 as s2)
  show ?case
  proof (cases rule: step_queue [OF more.hyps(1)])
    case (1 ys)
    with more.IH [of i] more.prems show ?thesis by (auto simp: nth_append)
  next
    case (2 w k ks)
    with more.IH [of "i - 1"] more.prems show ?thesis by (cases i) auto
  qed
qed simp

lemma idle_worker_can_take:
  assumes "sys_inv s" "k \<in> dirty (base (sq s))" "\<And>w. holds_key (crew s w) \<noteq> Some k"
    "crew s w = Idle"
  obtains k' s' where "step reserve s (Takes w k') s'"
proof -
  have "wq_inv (base (sq s))" "k \<notin> processing (base (sq s))"
    using assms(1,3) by (auto simp: sys_inv_def rlq_inv_def)
  with assms(2) wq.get_progress [of "base (sq s)"] obtain k' b where "wq_Get (base (sq s)) = Gets k' b"
    by (cases "wq_take (base (sq s))") (auto simp: wq_take_Some)
  with assms(4) that show thesis by (blast intro: step.takes)
qed

lemma steps_on_its_way:
  assumes "steps reserve s as s'" "on_its_way s k" "\<not> shuttingDown (base (sq s))" "Closes \<notin> set as"
  shows "on_its_way s' k \<or> (\<exists>w. Takes w k \<in> set as)"
  using assms
proof (induction rule: steps.induct)
  case (more s a s1 as s2)
  have "\<not> shuttingDown (base (sq s1))"
    using more.hyps(1) more.prems(2,3)
    by (cases rule: step.cases)
      (auto simp: handled_keeps handleErr_base wq_Get_Gets rlq_Done_def wq_Done_def Let_def)
  with more step_on_its_way [OF more.hyps(1) more.prems(1,2)] show ?case by auto
qed simp

section \<open>Properties\<close>

text \<open>A run in which a worker takes a key that the informer queued.\<close>

definition queued_once :: "unit system" where
  "queued_once = (start () 0)\<lparr>sq := rlq_Add sample_key (new_rl_queue ())\<rparr>"

definition taken_once :: "unit system" where
  "taken_once = queued_once\<lparr>sq := (new_rl_queue ())\<lparr>base := new_wqueue\<lparr>processing := {sample_key}\<rparr>\<rparr>,
     crew := (\<lambda>_. Idle)(0 := Reconciling sample_key)\<rparr>"

lemmas sample_run_defs = queued_once_def taken_once_def start_def new_rl_queue_def new_wqueue_def
  rlq_Add_def wq_Add_def

lemma sample_takes: "step reserve queued_once (Takes 0 sample_key) taken_once"
proof -
  have "wq_Get (base (sq queued_once)) = Gets sample_key (new_wqueue\<lparr>processing := {sample_key}\<rparr>)"
    by (simp add: sample_run_defs wq_Get_def)
  from step.takes [OF _ this, of 0 reserve] show ?thesis
    by (simp add: sample_run_defs)
qed

lemma sample_event: "step reserve (start () 0) (Event (VMObject (sample_vm None))) queued_once"
proof -
  have "handled (VMObject (sample_vm None)) (new_rl_queue ()) (rlq_Add sample_key (new_rl_queue ()))"
    by (simp add: handled_def sample_vm_def sample_key_def key_of_def)
  with step.event [of "VMObject (sample_vm None)" "start () 0"] show ?thesis
    by (simp add: queued_once_def start_def)
qed

lemma sample_steps:
  "steps reserve (start () 0) [Event (VMObject (sample_vm None)), Takes 0 sample_key] taken_once"
  by (rule steps.more [OF sample_event steps.more [OF sample_takes steps.none]])

lemma sample_reachable: "reachable reserve queued_once" "reachable reserve taken_once"
  unfolding reachable_def using sample_steps steps.more [OF sample_event steps.none] by blast+

text \<open>
  C3. In every reachable state, two workers that hold the same key are the same worker: however
  the workers, the informer, the timers and the shutdown interleave, no key is ever reconciled
  twice at the same time.
\<close>

theorem workers_exclusive:
  assumes "reachable reserve s" "holds_key (crew s w1) = Some k" "holds_key (crew s w2) = Some k"
  shows "w1 = w2"
  using sys_inv_reachable [OF assms(1)] assms(2,3) unfolding sys_inv_def by blast

theorem workers_exclusive_witness: "{w. holds_key (crew taken_once w) = Some sample_key} = {0}"
proof -
  have mine: "holds_key (crew taken_once 0) = Some sample_key" by (simp add: taken_once_def)
  have "w = 0" if "holds_key (crew taken_once w) = Some sample_key" for w
    using sample_reachable(2) [of "\<lambda>_. (0, ())"] that mine by (rule workers_exclusive)
  with mine show ?thesis by blast
qed





text \<open>
  A key whose pass has failed is on its way to a worker again as soon as the failure is
  reported, as long as fewer than \<open>maxRetries\<close> requeues are counted for it and the queue is not shut
  down, so that another worker can take it later.
\<close>

theorem failed_pass_requeued:
  assumes "reachable reserve s" "step reserve s (Reports w k (Some e)) s'"
    "\<not> shuttingDown (base (sq s))" "rlq_NumRequeues (sq s) k < maxRetries"
  shows "on_its_way s' k"
  using sys_inv_reachable [OF assms(1)] assms(2-) by (rule report_on_its_way)

theorem failed_pass_requeued_witness:
  "\<exists>s. step (\<lambda>_. (0, ())) taken_once (Reports 0 sample_key (Some (ErrorString []))) s \<and> on_its_way s sample_key"
proof -
  let ?s = "taken_once\<lparr>sq := handleErr (\<lambda>_. (0, ())) (now taken_once) (Some (ErrorString [])) sample_key (sq taken_once),
      crew := (crew taken_once)(0 := Reported sample_key)\<rparr>"
  have step: "step (\<lambda>_. (0, ())) taken_once (Reports 0 sample_key (Some (ErrorString []))) ?s"
    by (rule step.reports) (simp add: taken_once_def)
  have few: "rlq_NumRequeues (sq taken_once) sample_key < maxRetries" by code_simp
  have "\<not> shuttingDown (base (sq taken_once))" by (simp add: sample_run_defs)
  with step few have "on_its_way ?s sample_key"
    by (intro failed_pass_requeued [OF sample_reachable(2) step]) simp_all
  with step show ?thesis by blast
qed

end
