(* ===== verification/Waiting_Loop.thy ===== *)
theory Waiting_Loop
  imports Heap_Order Worker_Steps
begin

text \<open>
  The waiting loop of \<open>delaying_queue.go\<close> with its heap. The entries are cells that the heap and the
  map \<open>waitingEntryByData\<close> share: \<open>insert\<close> writes the time of an entry through the map and repairs the
  heap at the index which the entry itself keeps. The loop runs beside the workers of \<open>Worker_Steps\<close>.
\<close>

section \<open>The priority queue\<close>

record 'k wait_for =
  wf_data :: 'k
  wf_readyAt :: int
  wf_index :: int

text \<open>The heap holds addresses of cells, which are never freed.\<close>

record 'k waiting =
  pq :: "nat list"
  cells :: "'k wait_for list"
  waitingEntryByData :: "'k \<rightharpoonup> nat"

definition new_waiting :: "'k waiting" where
  "new_waiting = \<lparr>pq = [], cells = [], waitingEntryByData = Map.empty\<rparr>"

abbreviation entry_at :: "'k waiting \<Rightarrow> nat \<Rightarrow> 'k wait_for" where
  "entry_at w i \<equiv> cells w ! (pq w ! i)"

definition set_index :: "nat \<Rightarrow> int \<Rightarrow> 'k waiting \<Rightarrow> 'k waiting" where
  "set_index a i w = w\<lparr>cells := (cells w)[a := (cells w ! a)\<lparr>wf_index := i\<rparr>]\<rparr>"

definition pq_Len :: "'k waiting \<Rightarrow> nat" where
  "pq_Len w = length (pq w)"

definition pq_Less :: "nat \<Rightarrow> nat \<Rightarrow> 'k waiting \<Rightarrow> bool" where
  "pq_Less i j w = (wf_readyAt (entry_at w i) < wf_readyAt (entry_at w j))"

definition pq_Swap :: "nat \<Rightarrow> nat \<Rightarrow> 'k waiting \<Rightarrow> 'k waiting" where
  "pq_Swap i j w =
     (let w = w\<lparr>pq := (pq w)[i := pq w ! j, j := pq w ! i]\<rparr>;
          w = set_index (pq w ! i) (int i) w
      in set_index (pq w ! j) (int j) w)"

definition pq_Push :: "nat \<Rightarrow> 'k waiting \<Rightarrow> 'k waiting" where
  "pq_Push item w =
     (let n = length (pq w);
          w = set_index item (int n) w
      in w\<lparr>pq := pq w @ [item]\<rparr>)"

definition pq_Pop :: "'k waiting \<Rightarrow> nat \<times> 'k waiting" where
  "pq_Pop w =
     (let n = length (pq w);
          item = pq w ! (n - 1);
          w = set_index item (-1) w
      in (item, w\<lparr>pq := take (n - 1) (pq w)\<rparr>))"

definition pq_Peek :: "'k waiting \<Rightarrow> nat" where
  "pq_Peek w = pq w ! 0"

definition waitForPriorityQueue :: "(nat, 'k waiting) heap_interface" where
  "waitForPriorityQueue = \<lparr>h_Len = pq_Len, h_Less = pq_Less, h_Swap = pq_Swap, h_Push = pq_Push, h_Pop = pq_Pop\<rparr>"

lemma waitForPriorityQueue_simps [simp]:
  "h_Len waitForPriorityQueue = pq_Len" "h_Less waitForPriorityQueue = pq_Less"
  "h_Swap waitForPriorityQueue = pq_Swap" "h_Push waitForPriorityQueue = pq_Push" "h_Pop waitForPriorityQueue = pq_Pop"
  by (simp_all add: waitForPriorityQueue_def)

section \<open>The entries\<close>

text \<open>\<open>insert\<close>: an entry that waits already is only moved forward.\<close>

definition insert_entry :: "nat \<Rightarrow> 'k waiting \<Rightarrow> 'k waiting" where
  "insert_entry entry w =
     (case waitingEntryByData w (wf_data (cells w ! entry)) of
        Some existing \<Rightarrow>
          if wf_readyAt (cells w ! existing) > wf_readyAt (cells w ! entry) then
            let w = w\<lparr>cells := (cells w)[existing :=
                  (cells w ! existing)\<lparr>wf_readyAt := wf_readyAt (cells w ! entry)\<rparr>]\<rparr>
            in heap_Fix waitForPriorityQueue (nat (wf_index (cells w ! existing))) w
          else w
      | None \<Rightarrow>
          let w = heap_Push waitForPriorityQueue entry w
          in w\<lparr>waitingEntryByData := (waitingEntryByData w)(wf_data (cells w ! entry) \<mapsto> entry)\<rparr>)"

text \<open>An entry comes out of the channel as a cell of its own, with the zero index.\<close>

definition receive_entry :: "'k \<times> int \<Rightarrow> 'k waiting \<Rightarrow> nat \<times> 'k waiting" where
  "receive_entry kt w =
     (length (cells w), w\<lparr>cells := cells w @ [\<lparr>wf_data = fst kt, wf_readyAt = snd kt, wf_index = 0\<rparr>]\<rparr>)"

definition insert_received :: "'k \<times> int \<Rightarrow> 'k waiting \<Rightarrow> 'k waiting" where
  "insert_received kt w = (let (entry, w) = receive_entry kt w in insert_entry entry w)"

text \<open>One turn of the loop that adds ready entries: the first is taken off the heap and forgotten.\<close>

definition pop_ready :: "'k waiting \<Rightarrow> 'k \<times> 'k waiting" where
  "pop_ready w =
     (let (entry, w) = heap_Pop waitForPriorityQueue w;
          data = wf_data (cells w ! entry)
      in (data, w\<lparr>waitingEntryByData := (waitingEntryByData w)(data := None)\<rparr>))"

definition head_ready :: "int \<Rightarrow> 'k waiting \<Rightarrow> bool" where
  "head_ready clk w = (pq_Len w > 0 \<and> \<not> wf_readyAt (cells w ! pq_Peek w) > clk)"

section \<open>The invariant\<close>

text \<open>The heap holds cells once each, and each knows its index.\<close>

definition indexed_cells :: "'k waiting \<Rightarrow> bool" where
  "indexed_cells w =
     (distinct (pq w) \<and> set (pq w) \<subseteq> {..<length (cells w)} \<and>
      (\<forall>i < length (pq w). wf_index (entry_at w i) = int i))"

definition times :: "'k waiting \<Rightarrow> nat \<Rightarrow> int" where
  "times w i = (if i < length (pq w) then wf_readyAt (entry_at w i) else 0)"

text \<open>The entries of the map are those of the heap, under their data.\<close>

definition mapped :: "'k waiting \<Rightarrow> bool" where
  "mapped w = (\<forall>k a. waitingEntryByData w k = Some a \<longleftrightarrow> a \<in> set (pq w) \<and> wf_data (cells w ! a) = k)"

definition waiting_inv :: "'k waiting \<Rightarrow> bool" where
  "waiting_inv w = (indexed_cells w \<and> heap_ordered (length (pq w)) (times w) \<and> mapped w)"

text \<open>What the loop waits for: the times of \<open>known\<close> in \<open>Worker_Steps\<close>.\<close>

definition awaited :: "'k waiting \<Rightarrow> 'k \<rightharpoonup> int" where
  "awaited w = (\<lambda>k. map_option (\<lambda>a. wf_readyAt (cells w ! a)) (waitingEntryByData w k))"

text \<open>Two states that wait for the same, but for the order of the heap.\<close>

definition same_entries :: "'k waiting \<Rightarrow> 'k waiting \<Rightarrow> bool" where
  "same_entries w w' =
     (set (pq w') = set (pq w) \<and> length (pq w') = length (pq w) \<and> length (cells w') = length (cells w) \<and>
      waitingEntryByData w' = waitingEntryByData w \<and>
      (\<forall>a < length (cells w). wf_data (cells w' ! a) = wf_data (cells w ! a) \<and>
        wf_readyAt (cells w' ! a) = wf_readyAt (cells w ! a)))"

lemma same_entries_refl [simp]: "same_entries w w"
  by (simp add: same_entries_def)

lemma same_entries_trans: "same_entries w w' \<Longrightarrow> same_entries w' w'' \<Longrightarrow> same_entries w w''"
  by (simp add: same_entries_def)

lemma set_index_entry:
  "cells (set_index a i w) ! b =
     (if b = a \<and> a < length (cells w) then (cells w ! a)\<lparr>wf_index := i\<rparr> else cells w ! b)"
  by (cases "a < length (cells w)") (auto simp: set_index_def list_update_beyond)

lemma set_index_simps [simp]:
  "pq (set_index a i w) = pq w" "length (cells (set_index a i w)) = length (cells w)"
  "waitingEntryByData (set_index a i w) = waitingEntryByData w"
  "wf_data (cells (set_index a i w) ! b) = wf_data (cells w ! b)"
  "wf_readyAt (cells (set_index a i w) ! b) = wf_readyAt (cells w ! b)"
  "b < length (cells w) \<Longrightarrow> wf_index (cells (set_index a i w) ! b) = (if b = a then i else wf_index (cells w ! b))"
  by (simp_all add: set_index_entry) (simp_all add: set_index_def)

lemma in_heap: "indexed_cells w \<Longrightarrow> i < length (pq w) \<Longrightarrow> pq w ! i < length (cells w)"
  unfolding indexed_cells_def by (meson lessThan_iff nth_mem subsetD)

lemma pq_Swap_ok:
  assumes "indexed_cells w" "i < length (pq w)" "j < length (pq w)"
  shows "indexed_cells (pq_Swap i j w)" "same_entries w (pq_Swap i j w)"
    "times (pq_Swap i j w) = exchange i j (times w)"
    "pq (pq_Swap i j w) = (pq w)[i := pq w ! j, j := pq w ! i]"
proof -
  let ?l = "(pq w)[i := pq w ! j, j := pq w ! i]"
  have l: "set ?l = set (pq w)" "length ?l = length (pq w)" "distinct ?l"
    using assms by (simp_all add: indexed_cells_def)
  show pq: "pq (pq_Swap i j w) = ?l"
    by (simp add: pq_Swap_def Let_def)
  show "same_entries w (pq_Swap i j w)"
    using l by (simp add: same_entries_def pq) (simp add: pq_Swap_def Let_def)
  have a: "?l ! k < length (cells w)" if "k < length (pq w)" for k
    using l assms(1) that unfolding indexed_cells_def by (metis lessThan_iff nth_mem subsetD)
  have "wf_index (cells (pq_Swap i j w) ! (?l ! k)) = int k" if k: "k < length (pq w)" for k
  proof -
    have inj: "?l ! k = ?l ! k' \<longleftrightarrow> k = k'" if "k' < length (pq w)" for k'
      using l k that by (simp add: nth_eq_iff_index_eq)
    have old: "k \<noteq> i \<Longrightarrow> k \<noteq> j \<Longrightarrow> wf_index (cells w ! (pq w ! k)) = int k"
      using assms(1) k by (simp add: indexed_cells_def)
    show ?thesis
      using a [OF k] inj [OF assms(2)] inj [OF assms(3)] old by (auto simp: pq_Swap_def Let_def)
  qed
  with l assms(1) show "indexed_cells (pq_Swap i j w)"
    by (simp add: indexed_cells_def pq) (simp add: pq_Swap_def Let_def)
  show "times (pq_Swap i j w) = exchange i j (times w)"
  proof
    fix k
    show "times (pq_Swap i j w) k = exchange i j (times w) k"
      using assms(2,3) by (auto simp: times_def exchange_def pq_Swap_def Let_def nth_list_update)
  qed
qed

interpretation wait_heap: heap_container waitForPriorityQueue times "\<lambda>w. length (pq w)" indexed_cells
  by standard
    (simp_all add: pq_Len_def pq_Less_def times_def pq_Swap_ok
      same_entries_def [THEN iffD1, OF pq_Swap_ok(2)])

lemma kept_same: "wait_heap.kept n (same_entries w)"
  unfolding wait_heap.kept_def
  by (auto intro!: same_entries_trans [OF _ pq_Swap_ok(2)])

lemma same_entries_mapped:
  assumes "same_entries w w'" "mapped w" "indexed_cells w"
  shows "mapped w'" "awaited w' = awaited w"
proof -
  have range: "a < length (cells w)" if "a \<in> set (pq w)" for a
    using assms(3) that by (auto simp: indexed_cells_def)
  have at: "a \<in> set (pq w)" if "waitingEntryByData w k = Some a" for k a
    using assms(2) that by (simp add: mapped_def)
  show "mapped w'"
    using assms(1,2) range unfolding mapped_def same_entries_def by metis
  show "awaited w' = awaited w"
    using assms(1) range at by (auto simp: awaited_def same_entries_def fun_eq_iff option.map_comp intro!: option.map_cong)
qed

lemma heap_position:
  assumes "indexed_cells w" "a \<in> set (pq w)"
  obtains i where "i < length (pq w)" "pq w ! i = a" "wf_index (cells w ! a) = int i"
  using assms unfolding indexed_cells_def in_set_conv_nth by blast

section \<open>What insert and pop do\<close>

lemma receive_ok:
  assumes "waiting_inv w"
  obtains w' where "receive_entry (k, t) w = (length (cells w), w')" "waiting_inv w'" "awaited w' = awaited w"
    "length (cells w) \<notin> set (pq w')" "length (cells w) < length (cells w')" "pq w' = pq w"
    "waitingEntryByData w' = waitingEntryByData w" "cells w' ! length (cells w) = \<lparr>wf_data = k, wf_readyAt = t, wf_index = 0\<rparr>"
proof -
  let ?w = "w\<lparr>cells := cells w @ [\<lparr>wf_data = k, wf_readyAt = t, wf_index = 0\<rparr>]\<rparr>"
  have idx: "indexed_cells w" and ord: "heap_ordered (length (pq w)) (times w)" and m: "mapped w"
    using assms by (simp_all add: waiting_inv_def)
  have old: "cells ?w ! a = cells w ! a" if "a \<in> set (pq w)" for a
    using that idx by (auto simp: indexed_cells_def nth_append)
  have at: "a \<in> set (pq w)" if "waitingEntryByData w k = Some a" for k a
    using m that by (simp add: mapped_def)
  have "times ?w = times w" using old by (auto simp: times_def)
  moreover have "indexed_cells ?w"
    using idx old by (auto simp: indexed_cells_def)
  moreover have "mapped ?w" using m old by (auto simp: mapped_def)
  ultimately have "waiting_inv ?w" using ord by (simp add: waiting_inv_def)
  moreover have "awaited ?w = awaited w"
    using old at by (auto simp: awaited_def fun_eq_iff intro!: option.map_cong)
  moreover have "length (cells w) \<notin> set (pq w)" using idx by (auto simp: indexed_cells_def)
  ultimately show thesis by (intro that [of ?w]) (simp_all add: receive_entry_def)
qed

lemma push_ok:
  assumes "indexed_cells w" "heap_ordered (length (pq w)) (times w)" "a \<notin> set (pq w)" "a < length (cells w)"
  obtains w' where "heap_Push waitForPriorityQueue a w = w'" "indexed_cells w'" "heap_ordered (length (pq w')) (times w')"
    "set (pq w') = insert a (set (pq w))" "waitingEntryByData w' = waitingEntryByData w"
    "length (cells w') = length (cells w)"
    "\<forall>b < length (cells w). wf_data (cells w' ! b) = wf_data (cells w ! b) \<and> wf_readyAt (cells w' ! b) = wf_readyAt (cells w ! b)"
proof -
  let ?n = "length (pq w)" and ?w = "pq_Push a w"
  let ?w' = "heap_up waitForPriorityQueue ?n ?w"
  have pq: "pq ?w = pq w @ [a]" by (simp add: pq_Push_def Let_def)
  have push: "heap_Push waitForPriorityQueue a w = ?w'"
    by (simp add: heap_Push_def Let_def pq_Len_def pq)
  have "wf_index (cells ?w ! (pq ?w ! i)) = int i" if "i < Suc ?n" for i
  proof (cases "i < ?n")
    case True
    then have "pq w ! i \<noteq> a" "pq w ! i < length (cells w)" using assms(3) in_heap [OF assms(1)] by auto
    then show ?thesis using True assms(1) by (simp add: pq_Push_def Let_def nth_append indexed_cells_def)
  next
    case False
    then have "i = ?n" using that by simp
    then show ?thesis using assms(4) by (simp add: pq_Push_def Let_def)
  qed
  then have idx: "indexed_cells ?w"
    using assms(1,3,4) by (simp add: indexed_cells_def pq) (auto simp: pq_Push_def Let_def)
  have "\<forall>k < ?n. times ?w k = times w k" by (simp add: times_def pq_Push_def Let_def nth_append)
  then have small: "small_at ?n (Suc ?n) (times ?w)" by (rule pushed_order [OF assms(2)])
  have "Suc ?n \<le> length (pq ?w)" by (simp add: pq)
  from wait_heap.up_ok [OF idx _ this small kept_same same_entries_refl]
  have up: "indexed_cells ?w'" "length (pq ?w') = Suc ?n" "heap_ordered (Suc ?n) (times ?w')" "same_entries ?w ?w'"
    by (simp_all add: pq)
  show thesis
    by (rule that [OF push up(1)])
      (use up in \<open>simp_all add: same_entries_def pq\<close>, simp_all add: pq_Push_def Let_def)
qed

lemma insert_received_ok:
  assumes "waiting_inv w"
  shows "waiting_inv (insert_received (k, t) w) \<and> awaited (insert_received (k, t) w) = delay_insert (k, t) (awaited w)"
proof -
  let ?a = "length (cells w)"
  obtain w1 where w1: "receive_entry (k, t) w = (?a, w1)" "waiting_inv w1" "awaited w1 = awaited w"
    "?a \<notin> set (pq w1)" "?a < length (cells w1)" "pq w1 = pq w" "waitingEntryByData w1 = waitingEntryByData w"
    "cells w1 ! ?a = \<lparr>wf_data = k, wf_readyAt = t, wf_index = 0\<rparr>"
    by (rule receive_ok [OF assms])
  have w1i: "indexed_cells w1" "heap_ordered (length (pq w1)) (times w1)" "mapped w1"
    using w1(2) by (simp_all add: waiting_inv_def)
  show ?thesis
  proof (cases "waitingEntryByData w1 k")
    case None
    obtain w2 where w2: "heap_Push waitForPriorityQueue ?a w1 = w2" "indexed_cells w2"
      "heap_ordered (length (pq w2)) (times w2)" "set (pq w2) = insert ?a (set (pq w1))"
      "waitingEntryByData w2 = waitingEntryByData w1" "length (cells w2) = length (cells w1)"
      "\<forall>b < length (cells w1). wf_data (cells w2 ! b) = wf_data (cells w1 ! b) \<and> wf_readyAt (cells w2 ! b) = wf_readyAt (cells w1 ! b)"
      by (rule push_ok [OF w1i(1,2) w1(4,5)])
    let ?w = "w2\<lparr>waitingEntryByData := (waitingEntryByData w2)(k \<mapsto> ?a)\<rparr>"
    have ins: "insert_received (k, t) w = ?w"
      using w1(1,5,8) None w2(1,7) by (simp add: insert_received_def insert_entry_def Let_def)
    have same: "indexed_cells ?w = indexed_cells w2" "times ?w = times w2"
      by (simp_all add: indexed_cells_def times_def fun_eq_iff)
    have data: "wf_data (cells w2 ! ?a) = k" "wf_readyAt (cells w2 ! ?a) = t"
      using w2(7) w1(5,8) by simp_all
    have range: "a < length (cells w1)" if "a \<in> set (pq w1)" for a
      using w1i(1) that by (auto simp: indexed_cells_def)
    have old: "wf_data (cells w2 ! a) = wf_data (cells w1 ! a)" if "a \<in> set (pq w1)" for a
      using w2(7) range [OF that] by blast
    have free: "wf_data (cells w1 ! a) \<noteq> k" if "a \<in> set (pq w1)" for a
      using w1i(3) that None unfolding mapped_def by (metis option.distinct(1))
    have "mapped ?w"
      unfolding mapped_def
    proof (intro allI)
      fix k' a
      show "waitingEntryByData ?w k' = Some a \<longleftrightarrow> a \<in> set (pq ?w) \<and> wf_data (cells ?w ! a) = k'"
        using w1i(3) w2(4,5) data w1(4) old free unfolding mapped_def by auto
    qed
    moreover have "awaited ?w = delay_insert (k, t) (awaited w1)"
    proof
      fix k'
      have at: "a \<in> set (pq w1)" if "waitingEntryByData w1 k' = Some a" for a
        using w1i(3) that by (simp add: mapped_def)
      show "awaited ?w k' = delay_insert (k, t) (awaited w1) k'"
        using None w2(5,7) data at range
        by (auto simp: awaited_def delay_insert_def intro!: option.map_cong)
    qed
    ultimately show ?thesis using ins w2(2,3) same w1(3) by (simp add: waiting_inv_def)
  next
    case (Some e)
    then have e: "e \<in> set (pq w1)" "wf_data (cells w1 ! e) = k" using w1i(3) by (simp_all add: mapped_def)
    have known: "awaited w1 k = Some (wf_readyAt (cells w1 ! e))"
      using Some by (simp add: awaited_def)
    show ?thesis
    proof (cases "wf_readyAt (cells w1 ! e) > t")
      case False
      then have "insert_received (k, t) w = w1"
        using w1(1,8) Some by (simp add: insert_received_def insert_entry_def)
      with False known w1(2,3) show ?thesis by (simp add: delay_insert_def)
    next
      case True
      obtain i where i: "i < length (pq w1)" "pq w1 ! i = e" "wf_index (cells w1 ! e) = int i"
        by (rule heap_position [OF w1i(1) e(1)])
      let ?w2 = "w1\<lparr>cells := (cells w1)[e := (cells w1 ! e)\<lparr>wf_readyAt := t\<rparr>]\<rparr>"
      let ?w3 = "heap_Fix waitForPriorityQueue i ?w2"
      have el: "e < length (cells w1)" using in_heap [OF w1i(1) i(1)] i(2) by simp
      then have ins: "insert_received (k, t) w = ?w3"
        using w1(1,8) Some True i by (simp add: insert_received_def insert_entry_def Let_def)
      have inj: "pq w1 ! j = e \<longleftrightarrow> j = i" if "j < length (pq w1)" for j
        using w1i(1) i that by (auto simp: indexed_cells_def nth_eq_iff_index_eq)
      have idx: "indexed_cells ?w2"
        using w1i(1) el by (auto simp: indexed_cells_def nth_list_update)
      have times: "times ?w2 = (times w1)(i := t)"
      proof
        fix x
        show "times ?w2 x = ((times w1)(i := t)) x"
          using inj [of x] el i by (cases "x < length (pq w1)") (auto simp: times_def nth_list_update)
      qed
      have le: "t \<le> times w1 i" using True i by (simp add: times_def)
      have m: "mapped ?w2" using w1i(3) el by (auto simp: mapped_def nth_list_update)
      have fix': "indexed_cells ?w3 \<and> length (pq ?w3) = length (pq ?w2) \<and>
          heap_ordered (length (pq ?w2)) (times ?w3) \<and> same_entries ?w2 ?w3"
        using lowered_order [OF w1i(2) i(1) le] i(1) times
        by (intro wait_heap.Fix_smaller [OF idx _ _ _ kept_same same_entries_refl]) simp_all
      then have "mapped ?w3" "awaited ?w3 = awaited ?w2"
        using same_entries_mapped [OF _ m idx] by blast+
      moreover have "awaited ?w2 = delay_insert (k, t) (awaited w1)"
      proof
        fix k'
        have "a = e \<longleftrightarrow> k' = k" if "waitingEntryByData w1 k' = Some a" for a
          using w1i(3) that Some e(2) unfolding mapped_def by (metis option.inject)
        then show "awaited ?w2 k' = delay_insert (k, t) (awaited w1) k'"
          using known True Some el by (cases "waitingEntryByData w1 k'") (auto simp: awaited_def delay_insert_def)
      qed
      ultimately show ?thesis using ins fix' w1(3) by (simp add: waiting_inv_def)
    qed
  qed
qed

text \<open>What is popped is the entry that waits the least.\<close>

lemma pop_ready_ok:
  assumes "waiting_inv w" "pq w \<noteq> []"
  obtains k w' where "pop_ready w = (k, w')" "waiting_inv w'" "awaited w' = (awaited w)(k := None)"
    "awaited w k = Some (wf_readyAt (cells w ! pq_Peek w))"
    "\<forall>t \<in> ran (awaited w). wf_readyAt (cells w ! pq_Peek w) \<le> t" "length (pq w) = Suc (length (pq w'))"
proof -
  let ?I = "waitForPriorityQueue :: (nat, 'a waiting) heap_interface"
  obtain n where n: "length (pq w) = Suc n" using assms(2) by (cases "pq w") auto
  have w: "indexed_cells w" "heap_ordered (Suc n) (times w)" "mapped w"
    using assms(1) n by (simp_all add: waiting_inv_def)
  let ?a = "pq w ! 0" and ?w1 = "pq_Swap 0 n w"
  let ?w2 = "snd (heap_down ?I 0 n ?w1)"
  have w1: "indexed_cells ?w1" "same_entries w ?w1" "times ?w1 = exchange 0 n (times w)"
    "pq ?w1 = (pq w)[0 := pq w ! n, n := pq w ! 0]"
    using pq_Swap_ok [OF w(1), of 0 n] n by simp_all
  let ?P = "\<lambda>v. same_entries w v \<and> pq v ! n = ?a"
  have "wait_heap.kept n ?P"
    unfolding wait_heap.kept_def
    by (auto simp: pq_Swap_ok(4) intro!: same_entries_trans [OF _ pq_Swap_ok(2)])
  moreover have "large_at 0 n (times ?w1)" unfolding w1(3) using w(2) by (rule popped_order)
  moreover have "?P ?w1" using w1(2,4) n by simp
  ultimately have w2: "indexed_cells ?w2 \<and> length (pq ?w2) = length (pq ?w1) \<and> heap_ordered n (times ?w2) \<and> ?P ?w2"
    using w1(4) n by (intro wait_heap.down_ok [OF w1(1)]) simp_all
  then have len: "length (pq ?w2) = Suc n" using w1(4) n by simp
  let ?w3 = "(set_index ?a (-1) ?w2)\<lparr>pq := take n (pq ?w2)\<rparr>"
  have pop: "heap_Pop ?I w = (?a, ?w3)"
    using conjunct2 [OF conjunct2 [OF conjunct2 [OF conjunct2 [OF w2]]]] len n
    by (simp add: heap_Pop_def Let_def pq_Len_def pq_Pop_def)
  let ?k = "wf_data (cells w ! ?a)"
  let ?w' = "?w3\<lparr>waitingEntryByData := (waitingEntryByData ?w3)(?k := None)\<rparr>"
  have a: "?a \<in> set (pq w)" "?a < length (cells w)" using n in_heap [OF w(1), of 0] by simp_all
  have same: "same_entries w ?w2" using w2 by simp
  then have data: "wf_data (cells ?w2 ! ?a) = ?k" using a(2) by (simp add: same_entries_def)
  have m2: "mapped ?w2" "awaited ?w2 = awaited w" using same_entries_mapped [OF same w(3,1)] by simp_all
  have split: "pq ?w2 = take n (pq ?w2) @ [?a]"
    using len w2 by (metis (no_types, lifting) lessI take_Suc_conv_app_nth take_all_iff order_refl)
  have dist: "distinct (take n (pq ?w2))" "?a \<notin> set (take n (pq ?w2))" "set (pq ?w2) = insert ?a (set (take n (pq ?w2)))"
  proof -
    have "distinct (take n (pq ?w2) @ [?a])" using w2 split by (simp add: indexed_cells_def)
    then show "distinct (take n (pq ?w2))" "?a \<notin> set (take n (pq ?w2))" by simp_all
    show "set (pq ?w2) = insert ?a (set (take n (pq ?w2)))" by (subst split) simp
  qed
  have at: "take n (pq ?w2) ! i = pq ?w2 ! i" "pq ?w2 ! i \<noteq> ?a" "pq ?w2 ! i < length (cells ?w2)" if "i < n" for i
    using that dist(2) len in_heap [of ?w2 i] w2 by (auto simp: in_set_conv_nth)
  have "indexed_cells ?w3"
    unfolding indexed_cells_def
  proof (intro conjI allI impI)
    show "distinct (pq ?w3)" using dist(1) by simp
    show "set (pq ?w3) \<subseteq> {..<length (cells ?w3)}" using w2 dist(3) by (auto simp: indexed_cells_def)
    show "wf_index (entry_at ?w3 i) = int i" if "i < length (pq ?w3)" for i
      using that at [of i] w2 len by (simp add: indexed_cells_def)
  qed
  moreover have "heap_ordered n (times ?w3)"
    using w2 at len unfolding heap_ordered_def times_def by (simp add: less_trans [OF parent_less])
  moreover have "mapped ?w'"
    unfolding mapped_def
  proof (intro allI)
    fix k' b
    have "wf_data (cells ?w2 ! b) \<noteq> ?k" if "b \<in> set (take n (pq ?w2))"
      using m2(1) that dist(2,3) data unfolding mapped_def by (metis insertI1 insertI2 option.inject)
    then show "waitingEntryByData ?w' k' = Some b \<longleftrightarrow> b \<in> set (pq ?w') \<and> wf_data (cells ?w' ! b) = k'"
      using m2(1) dist(3) data unfolding mapped_def by auto
  qed
  moreover have "indexed_cells ?w' = indexed_cells ?w3" "times ?w' = times ?w3"
    by (simp_all add: indexed_cells_def times_def fun_eq_iff)
  ultimately have inv: "waiting_inv ?w'" using len by (simp add: waiting_inv_def)
  have "awaited ?w' = (awaited ?w2)(?k := None)" by (simp add: awaited_def fun_eq_iff)
  moreover have "awaited w ?k = Some (wf_readyAt (cells w ! ?a))"
    using w(3) a(1) unfolding mapped_def awaited_def by auto
  moreover have "wf_readyAt (cells w ! ?a) \<le> t" if t: "t \<in> ran (awaited w)" for t
  proof -
    obtain k' b where "waitingEntryByData w k' = Some b" "t = wf_readyAt (cells w ! b)"
      using t by (auto simp: awaited_def ran_def)
    then have "b \<in> set (pq w)" using w(3) by (simp add: mapped_def)
    then obtain i where "i < Suc n" "pq w ! i = b" using n by (auto simp: in_set_conv_nth)
    then show ?thesis
      using heap_root_least [OF w(2), of i] n \<open>t = wf_readyAt (cells w ! b)\<close> by (simp add: times_def)
  qed
  moreover have "pop_ready w = (?k, ?w')" using pop data by (simp add: pop_ready_def Let_def)
  ultimately show thesis using inv n len m2(2) by (intro that [of ?k ?w']) (simp_all add: pq_Peek_def)
qed

end
