(* ===== verification/Waiting_Steps.thy ===== *)
theory Waiting_Steps
  imports Waiting_Loop
begin

text \<open>
  \<open>waitingLoop\<close> step by step over its heap, beside the workers, the informer and the clock, and the
  simulation by \<open>Worker_Steps\<close>, where the loop only knows for when each key waits.
\<close>

section \<open>Adding ready entries\<close>

lemma length_pq_Swap [simp]: "length (pq (pq_Swap i j w)) = length (pq w)"
  by (simp add: pq_Swap_def Let_def)

lemma length_heap_down: "length (pq (snd (heap_down waitForPriorityQueue i n w))) = length (pq w)"
proof (induction "n - i" arbitrary: i w rule: less_induct)
  case less
  show ?case
    by (subst heap_down.simps) (auto simp: Let_def less.hyps)
qed

lemma length_pop_ready: "pq w \<noteq> [] \<Longrightarrow> length (pq (snd (pop_ready w))) < length (pq w)"
  by (simp add: pop_ready_def heap_Pop_def Let_def split_beta pq_Pop_def length_heap_down)

function add_ready :: "int \<Rightarrow> 'k waiting \<Rightarrow> ('k, 'b) rl_queue \<Rightarrow> 'k waiting \<times> ('k, 'b) rl_queue" where
  "add_ready clk w q =
     (if head_ready clk w then let (data, w) = pop_ready w in add_ready clk w (rlq_Add data q) else (w, q))"
  by pat_completeness auto
termination
  by (relation "measure (\<lambda>(clk, w, q). length (pq w))")
    (auto simp: head_ready_def pq_Len_def dest!: sym [of "(_, _)"] length_pop_ready)

declare add_ready.simps [simp del]

text \<open>
  What is added is what is due, in the order of the times, and what is not due goes on waiting.
\<close>

definition due :: "int \<Rightarrow> ('k \<rightharpoonup> int) \<Rightarrow> 'k set" where
  "due clk m = {k. \<exists>t. m k = Some t \<and> t \<le> clk}"

lemma add_ready_ok:
  assumes "waiting_inv w"
  obtains w' ks where "add_ready clk w q = (w', fold rlq_Add ks q)" "waiting_inv w'"
    "awaited w' = awaited w |` (- due clk (awaited w))" "distinct ks" "set ks = due clk (awaited w)"
    "sorted (map (\<lambda>k. the (awaited w k)) ks)"
  using assms
proof (induction "length (pq w)" arbitrary: w q thesis rule: less_induct)
  case less
  show ?case
  proof (cases "head_ready clk w")
    case False
    have "awaited w k \<noteq> Some t" if "t \<le> clk" for k t
    proof
      assume k: "awaited w k = Some t"
      then have ne: "pq w \<noteq> []" using less.prems(2) by (auto simp: awaited_def waiting_inv_def mapped_def)
      then have "clk < wf_readyAt (cells w ! pq_Peek w)" using False by (simp add: head_ready_def pq_Len_def)
      moreover obtain k' w' where "\<forall>t \<in> ran (awaited w). wf_readyAt (cells w ! pq_Peek w) \<le> t"
        by (rule pop_ready_ok [OF less.prems(2) ne])
      ultimately show False using k that by (force simp: ran_def)
    qed
    then have "due clk (awaited w) = {}" by (auto simp: due_def)
    then show ?thesis
      using False less.prems(2) by (intro less.prems(1) [of w "[]"]) (simp_all add: add_ready.simps restrict_map_def)
  next
    case True
    then have ne: "pq w \<noteq> []" by (simp add: head_ready_def pq_Len_def)
    obtain k w1 where w1: "pop_ready w = (k, w1)" "waiting_inv w1" "awaited w1 = (awaited w)(k := None)"
      "awaited w k = Some (wf_readyAt (cells w ! pq_Peek w))"
      "\<forall>t \<in> ran (awaited w). wf_readyAt (cells w ! pq_Peek w) \<le> t" "length (pq w) = Suc (length (pq w1))"
      by (rule pop_ready_ok [OF less.prems(2) ne])
    obtain w' ks where ks: "add_ready clk w1 (rlq_Add k q) = (w', fold rlq_Add ks (rlq_Add k q))" "waiting_inv w'"
      "awaited w' = awaited w1 |` (- due clk (awaited w1))" "distinct ks" "set ks = due clk (awaited w1)"
      "sorted (map (\<lambda>k. the (awaited w1 k)) ks)"
      using less.hyps [of w1 "rlq_Add k q"] w1(2,6) by (metis lessI)
    have due: "due clk (awaited w) = insert k (due clk (awaited w1))" "k \<notin> due clk (awaited w1)"
      using True w1(3,4) by (auto simp: due_def head_ready_def split: if_splits)
    have same: "map (\<lambda>k. the (awaited w1 k)) ks = map (\<lambda>k. the (awaited w k)) ks"
      using ks(5) due(2) w1(3) by (intro map_cong) auto
    moreover have "sorted (map (\<lambda>k. the (awaited w k)) ks)" using ks(6) unfolding same .
    moreover have "wf_readyAt (cells w ! pq_Peek w) \<le> the (awaited w k')" if "k' \<in> set ks" for k'
      using that ks(5) due w1(5) by (force simp: due_def ran_def)
    ultimately have "sorted (map (\<lambda>k. the (awaited w k)) (k # ks))" using w1(4) by simp
    moreover have "add_ready clk w q = (w', fold rlq_Add (k # ks) q)"
      using True w1(1) ks(1) by (simp add: add_ready.simps)
    moreover have "awaited w' = awaited w |` (- due clk (awaited w))"
      unfolding ks(3) w1(3) due(1) by (auto simp: restrict_map_def fun_eq_iff due_def)
    ultimately show ?thesis
      using ks(2,4,5) due by (intro less.prems(1) [of w' "k # ks"]) auto
  qed
qed

section \<open>The system\<close>

datatype loop_phase = Turning | Adding int | Selecting | Draining | Left

record 'b delayed =
  dq :: "(string, 'b) rl_queue"
  waits :: "string waiting"
  loop :: loop_phase
  workers :: "nat \<Rightarrow> phase"
  clk :: int

definition delayed_start :: "'b \<Rightarrow> int \<Rightarrow> 'b delayed" where
  "delayed_start bucket t =
     \<lparr>dq = new_rl_queue bucket, waits = heap_Init waitForPriorityQueue new_waiting, loop = Turning,
      workers = (\<lambda>_. Idle), clk = t\<rparr>"

text \<open>The loop forgets the heap; its entries are what \<open>Worker_Steps\<close> knows.\<close>

definition system_of :: "'b delayed \<Rightarrow> 'b system" where
  "system_of d = \<lparr>sq = dq d, known = awaited (waits d), crew = workers d, now = clk d\<rparr>"

text \<open>
  \<open>waitingLoop\<close>. At the top it looks whether the queue is shutting down and reads the clock; while
  entries are ready by that clock it adds them; then it waits for a signal, a time, or an entry,
  and takes all entries that the channel holds.
\<close>

inductive loop_step :: "'b delayed \<Rightarrow> act option \<Rightarrow> 'b delayed \<Rightarrow> bool" where
  leaves: "loop d = Turning \<Longrightarrow> shuttingDown (base (dq d)) \<Longrightarrow> loop_step d None (d\<lparr>loop := Left\<rparr>)"
| turns: "loop d = Turning \<Longrightarrow> \<not> shuttingDown (base (dq d)) \<Longrightarrow> loop_step d None (d\<lparr>loop := Adding (clk d)\<rparr>)"
| adds: "loop d = Adding t \<Longrightarrow> head_ready t (waits d) \<Longrightarrow> pop_ready (waits d) = (k, w) \<Longrightarrow>
    loop_step d (Some (Fires k)) (d\<lparr>dq := rlq_Add k (dq d), waits := w\<rparr>)"
| selects: "loop d = Adding t \<Longrightarrow> \<not> head_ready t (waits d) \<Longrightarrow> loop_step d None (d\<lparr>loop := Selecting\<rparr>)"
| stops: "loop d = Selecting \<Longrightarrow> shuttingDown (base (dq d)) \<Longrightarrow> loop_step d None (d\<lparr>loop := Left\<rparr>)"
| wakes: "loop d = Selecting \<Longrightarrow> loop_step d None (d\<lparr>loop := Turning\<rparr>)"
| waits_for: "loop d \<in> {Selecting, Draining} \<Longrightarrow> waitingForAdd (dq d) = (k, t) # ws \<Longrightarrow> t > clk d \<Longrightarrow>
    loop_step d (Some (Receives k))
      (d\<lparr>dq := (dq d)\<lparr>waitingForAdd := ws\<rparr>, waits := insert_received (k, t) (waits d), loop := Draining\<rparr>)"
| adds_now: "loop d \<in> {Selecting, Draining} \<Longrightarrow> waitingForAdd (dq d) = (k, t) # ws \<Longrightarrow> \<not> t > clk d \<Longrightarrow>
    loop_step d (Some (Receives k))
      (d\<lparr>dq := rlq_Add k ((dq d)\<lparr>waitingForAdd := ws\<rparr>), loop := Draining\<rparr>)"
| drained: "loop d = Draining \<Longrightarrow> waitingForAdd (dq d) = [] \<Longrightarrow> loop_step d None (d\<lparr>loop := Turning\<rparr>)"

fun of_loop :: "act \<Rightarrow> bool" where
  "of_loop (Receives k) = True"
| "of_loop (Fires k) = True"
| "of_loop a = False"

inductive delayed_step :: "('b \<Rightarrow> int \<times> 'b) \<Rightarrow> 'b delayed \<Rightarrow> act option \<Rightarrow> 'b delayed \<Rightarrow> bool" for reserve where
  looped: "loop_step d a d' \<Longrightarrow> delayed_step reserve d a d'"
| other: "step reserve (system_of d) a s \<Longrightarrow> \<not> of_loop a \<Longrightarrow>
    delayed_step reserve d (Some a) (d\<lparr>dq := sq s, workers := crew s, clk := now s\<rparr>)"

inductive delayed_steps :: "('b \<Rightarrow> int \<times> 'b) \<Rightarrow> 'b delayed \<Rightarrow> act list \<Rightarrow> 'b delayed \<Rightarrow> bool" for reserve where
  still: "delayed_steps reserve d [] d"
| silent: "delayed_step reserve d None d1 \<Longrightarrow> delayed_steps reserve d1 as d2 \<Longrightarrow> delayed_steps reserve d as d2"
| visible: "delayed_step reserve d (Some a) d1 \<Longrightarrow> delayed_steps reserve d1 as d2 \<Longrightarrow>
    delayed_steps reserve d (a # as) d2"

section \<open>The simulation\<close>

definition delayed_inv :: "'b delayed \<Rightarrow> bool" where
  "delayed_inv d = (waiting_inv (waits d) \<and> (\<forall>t. loop d = Adding t \<longrightarrow> t \<le> clk d))"

lemma waiting_inv_new: "waiting_inv new_waiting" "awaited new_waiting = Map.empty"
  by (simp_all add: waiting_inv_def new_waiting_def indexed_cells_def heap_ordered_def mapped_def awaited_def fun_eq_iff)

lemma heap_Init_new: "heap_Init waitForPriorityQueue new_waiting = new_waiting"
  by (simp add: heap_Init_def pq_Len_def new_waiting_def)

lemma delayed_start_ok: "delayed_inv (delayed_start bucket t)" "system_of (delayed_start bucket t) = start bucket t"
  by (simp_all add: delayed_inv_def delayed_start_def heap_Init_new waiting_inv_new system_of_def start_def)

lemma loop_step_ok:
  assumes "loop_step d a d'" "delayed_inv d"
  shows "delayed_inv d' \<and> (case a of None \<Rightarrow> system_of d' = system_of d | Some x \<Rightarrow> step reserve (system_of d) x (system_of d'))"
  using assms
proof (induction rule: loop_step.induct)
  case (adds d t k w)
  have ne: "pq (waits d) \<noteq> []" using adds.hyps(2) by (simp add: head_ready_def pq_Len_def)
  have inv: "waiting_inv (waits d)" "t \<le> clk d" using adds by (simp_all add: delayed_inv_def)
  obtain w' where w: "waiting_inv w" "awaited w = (awaited (waits d))(k := None)"
    "awaited (waits d) k = Some (wf_readyAt (cells (waits d) ! pq_Peek (waits d)))"
    "\<forall>t \<in> ran (awaited (waits d)). wf_readyAt (cells (waits d) ! pq_Peek (waits d)) \<le> t"
    using pop_ready_ok [OF inv(1) ne] adds.hyps(3) by (metis prod.inject)
  have "step reserve (system_of d) (Fires k)
      ((system_of d)\<lparr>sq := rlq_Add k (sq (system_of d)), known := (known (system_of d))(k := None)\<rparr>)"
    by (rule step.fires [of _ k "wf_readyAt (cells (waits d) ! pq_Peek (waits d))"])
      (use w(3,4) adds.hyps(2) inv(2) in \<open>auto simp: system_of_def head_ready_def\<close>)
  then show ?case using w(1,2) inv(2) adds.hyps(1) by (simp add: delayed_inv_def system_of_def)
next
  case (waits_for d k t ws)
  have inv: "waiting_inv (waits d)" using waits_for.prems by (simp add: delayed_inv_def)
  note ins = insert_received_ok [OF inv, of k t]
  have "step reserve (system_of d) (Receives k)
      ((system_of d)\<lparr>sq := (sq (system_of d))\<lparr>waitingForAdd := ws\<rparr>, known := delay_insert (k, t) (known (system_of d))\<rparr>)"
    by (rule step.receives_later) (use waits_for.hyps in \<open>simp_all add: system_of_def\<close>)
  then show ?case using ins by (simp add: delayed_inv_def system_of_def)
next
  case (adds_now d k t ws)
  have "step reserve (system_of d) (Receives k)
      ((system_of d)\<lparr>sq := rlq_Add k ((sq (system_of d))\<lparr>waitingForAdd := ws\<rparr>)\<rparr>)"
    by (rule step.receives_due) (use adds_now.hyps in \<open>simp_all add: system_of_def\<close>)
  then show ?case using adds_now.prems by (simp add: delayed_inv_def system_of_def)
qed (simp_all add: delayed_inv_def system_of_def)

lemma step_frame:
  assumes "step reserve s a s'" "\<not> of_loop a"
  shows "known s' = known s \<and> now s \<le> now s'"
  using assms by (induction rule: step.induct) simp_all

lemma delayed_step_ok:
  assumes "delayed_step reserve d a d'" "delayed_inv d"
  shows "delayed_inv d' \<and> (case a of None \<Rightarrow> system_of d' = system_of d | Some x \<Rightarrow> step reserve (system_of d) x (system_of d'))"
  using assms
proof (induction rule: delayed_step.induct)
  case (looped d a d')
  then show ?case by (rule loop_step_ok)
next
  case (other d a s)
  have frame: "known s = awaited (waits d)" "clk d \<le> now s" using step_frame [OF other.hyps] by (simp_all add: system_of_def)
  then have "system_of (d\<lparr>dq := sq s, workers := crew s, clk := now s\<rparr>) = s" by (cases s) (simp add: system_of_def)
  then show ?case using other frame(2) by (auto simp: delayed_inv_def)
qed

lemma delayed_steps_ok:
  assumes "delayed_steps reserve d as d'" "delayed_inv d"
  shows "delayed_inv d' \<and> steps reserve (system_of d) as (system_of d')"
  using assms
proof (induction rule: delayed_steps.induct)
  case (still d)
  then show ?case by (simp add: steps.none)
next
  case (silent d d1 as d2)
  then show ?case using delayed_step_ok [OF silent.hyps(1)] by simp
next
  case (visible d a d1 as d2)
  then show ?case using delayed_step_ok [OF visible.hyps(1)] by (auto intro: steps.more)
qed

section \<open>Properties\<close>

text \<open>
  C24. Every run of the workers, the informer and the waiting loop over its heap is a run of the system
  of \<open>Worker_Steps\<close>, which knows no heap: the entry at the root is always one that waits the least,
  the indices by which \<open>insert\<close> repairs the heap are right, and nothing waits that the map does not
  hold. So what is shown of that system, as that no key is lost or reconciled twice at a time,
  holds of the code's data structure.
\<close>
theorem waiting_loop_refines:
  assumes "delayed_steps reserve (delayed_start bucket t) as d"
  shows "steps reserve (start bucket t) as (system_of d) \<and> waiting_inv (waits d)"
  using delayed_steps_ok [OF assms delayed_start_ok(1)] by (simp add: delayed_start_ok(2) delayed_inv_def)

theorem waiting_loop_refines_witness:
  "steps (\<lambda>_. (0, ())) (start () 0) [Event (VMObject (sample_vm None))] queued_once"
proof -
  let ?r = "\<lambda>_ :: unit. (0 :: int, ())" and ?e = "Event (VMObject (sample_vm None))"
  let ?d = "delayed_start () 0" and ?d1 = "(delayed_start () 0)\<lparr>loop := Adding 0\<rparr>"
  let ?d2 = "?d1\<lparr>dq := sq queued_once, workers := crew queued_once, clk := now queued_once\<rparr>"
  have turns: "delayed_step ?r ?d None ?d1"
    using loop_step.turns [of ?d] by (intro delayed_step.looped) (simp add: delayed_start_def sample_run_defs)
  have "system_of ?d1 = start () 0" using delayed_start_ok(2) [of "()" 0] by (simp add: system_of_def)
  then have "delayed_step ?r ?d1 (Some ?e) ?d2"
    using delayed_step.other [of ?r ?d1 ?e queued_once] sample_event by simp
  then have "delayed_steps ?r ?d [?e] ?d2"
    by (intro delayed_steps.silent [OF turns] delayed_steps.visible [OF _ delayed_steps.still])
  from waiting_loop_refines [OF this] show ?thesis
    by (simp add: system_of_def queued_once_def start_def delayed_start_def heap_Init_new waiting_inv_new)
qed

text \<open>
  C25. Whatever entries the waiting loop has taken into its heap, when it adds those that are ready
  it adds exactly the keys whose earliest time has come, each once and in the order of these times,
  and goes on waiting for the other keys, each until its earliest time.
\<close>
theorem ready_in_order:
  "\<exists>w ks. add_ready c (fold insert_received xs new_waiting) q = (w, fold rlq_Add ks q) \<and>
     distinct ks \<and> set ks = due c (fold delay_insert xs Map.empty) \<and>
     sorted (map (\<lambda>k. the (fold delay_insert xs Map.empty k)) ks) \<and>
     awaited w = fold delay_insert xs Map.empty |` (- due c (fold delay_insert xs Map.empty))"
proof -
  have inserted: "waiting_inv (fold insert_received xs w) \<and> awaited (fold insert_received xs w) = fold delay_insert xs (awaited w)"
    if "waiting_inv w" for w :: "'a waiting"
    using that
  proof (induction xs arbitrary: w)
    case (Cons x xs)
    then show ?case using insert_received_ok [OF Cons.prems, of "fst x" "snd x"] by simp
  qed simp
  let ?w = "fold insert_received xs new_waiting :: 'a waiting"
  have w: "waiting_inv ?w" "awaited ?w = fold delay_insert xs Map.empty"
    using inserted [OF waiting_inv_new(1)] by (simp_all add: waiting_inv_new(2))
  show ?thesis
    unfolding w(2) [symmetric] by (rule add_ready_ok [OF w(1), of c q]) blast
qed

end
