(* ===== verification/Process_Life.thy ===== *)
theory Process_Life
  imports Controller
begin

text \<open>
  The life of the controller's process: \<open>main\<close> of \<open>cmd/ci-vm-operator/ci-vm-operator.go\<close> once it is
  set up, with its signal handler, \<open>Run\<close> of \<open>pkg/controller/controller.go\<close>, and the goroutines
  that \<open>Run\<close> starts with \<open>wait.Until\<close> (\<open>k8s.io/apimachinery/pkg/util/wait\<close>). The goroutines interleave
  freely; what a worker does between two visits to \<open>wait.Until\<close> is one call here and is the subject
  of \<open>Controller\<close> and \<open>Worker_Steps\<close>.
\<close>

section \<open>The goroutines\<close>

text \<open>The signal handler: before the first receive, between the two, and after the second.\<close>

datatype signal_handler = AwaitsFirst | AwaitsSecond | Exiting

text \<open>\<open>Run\<close>: waiting for the caches, waiting for the stop channel, returned.\<close>

datatype run_state = Syncing | Serving | Left

text \<open>
  A goroutine of \<open>wait.Until\<close>: not started, at the first select of the loop, in the call of
  \<open>worker\<close>, at the second select, returned.
\<close>

datatype until_state = Unborn | AtTop | Calling | Waiting | Ended

record process =
  pending :: nat
  received :: nat
  listener :: signal_handler
  stop_closed :: bool
  caches_synced :: bool
  run_at :: run_state
  goroutine :: "nat \<Rightarrow> until_state"
  queue_down :: bool
  exit_code :: "nat option"

definition launch :: process where
  "launch = \<lparr>pending = 0, received = 0, listener = AwaitsFirst, stop_closed = False,
     caches_synced = False, run_at = Syncing, goroutine = (\<lambda>_. Unborn), queue_down = False,
     exit_code = None\<rparr>"

datatype life_event =
    SignalArrives
  | FirstSignal
  | SecondSignal
  | CachesFill
  | CachesReady
  | SyncAborted
  | RunReturns
  | Stops nat
  | Calls nat
  | WorkerReturns nat
  | TimerFires nat
  | Crashes nat

text \<open>The channel of \<open>signal.Notify\<close> holds two signals; one that finds it full is dropped.\<close>

definition deliver :: "process \<Rightarrow> process" where
  "deliver s = s\<lparr>received := Suc (received s), pending := min 2 (Suc (pending s))\<rparr>"

text \<open>
  \<open>Run\<close> after \<open>WaitForCacheSync\<close>, whatever that returned: a failure is logged, and the workers are
  started all the same.
\<close>

definition start_workers :: "nat \<Rightarrow> process \<Rightarrow> process" where
  "start_workers workers s =
     s\<lparr>run_at := Serving, goroutine := (\<lambda>i. if i < workers then AtTop else Unborn)\<rparr>"

inductive live :: "nat \<Rightarrow> process \<Rightarrow> life_event \<Rightarrow> process \<Rightarrow> bool" for workers where
  signal: "exit_code s = None \<Longrightarrow> live workers s SignalArrives (deliver s)"
| first: "exit_code s = None \<Longrightarrow> listener s = AwaitsFirst \<Longrightarrow> pending s = Suc n \<Longrightarrow>
    live workers s FirstSignal (s\<lparr>pending := n, listener := AwaitsSecond, stop_closed := True\<rparr>)"
| second: "exit_code s = None \<Longrightarrow> listener s = AwaitsSecond \<Longrightarrow> pending s = Suc n \<Longrightarrow>
    live workers s SecondSignal (s\<lparr>pending := n, listener := Exiting, exit_code := Some 1\<rparr>)"
| fill: "exit_code s = None \<Longrightarrow> live workers s CachesFill (s\<lparr>caches_synced := True\<rparr>)"
| ready: "exit_code s = None \<Longrightarrow> run_at s = Syncing \<Longrightarrow> caches_synced s \<Longrightarrow>
    live workers s CachesReady (start_workers workers s)"
| aborted: "exit_code s = None \<Longrightarrow> run_at s = Syncing \<Longrightarrow> stop_closed s \<Longrightarrow>
    live workers s SyncAborted (start_workers workers s)"
| returns: "exit_code s = None \<Longrightarrow> run_at s = Serving \<Longrightarrow> stop_closed s \<Longrightarrow>
    live workers s RunReturns (s\<lparr>run_at := Left, queue_down := True\<rparr>)"
| stops: "exit_code s = None \<Longrightarrow> goroutine s i = AtTop \<or> goroutine s i = Waiting \<Longrightarrow> stop_closed s \<Longrightarrow>
    live workers s (Stops i) (s\<lparr>goroutine := (goroutine s)(i := Ended)\<rparr>)"
| calls: "exit_code s = None \<Longrightarrow> goroutine s i = AtTop \<Longrightarrow> \<not> stop_closed s \<Longrightarrow>
    live workers s (Calls i) (s\<lparr>goroutine := (goroutine s)(i := Calling)\<rparr>)"
| worker_ends: "exit_code s = None \<Longrightarrow> goroutine s i = Calling \<Longrightarrow> queue_down s \<Longrightarrow>
    live workers s (WorkerReturns i) (s\<lparr>goroutine := (goroutine s)(i := Waiting)\<rparr>)"
| timer: "exit_code s = None \<Longrightarrow> goroutine s i = Waiting \<Longrightarrow>
    live workers s (TimerFires i) (s\<lparr>goroutine := (goroutine s)(i := AtTop)\<rparr>)"
| crashes: "exit_code s = None \<Longrightarrow> goroutine s i = Calling \<Longrightarrow>
    live workers s (Crashes i) (s\<lparr>exit_code := Some 2\<rparr>)"

text \<open>
  A worker returns only from a queue that is shut down, by \<open>worker_returns\<close>; a panic in a pass
  passes through \<open>HandleCrash\<close>, which logs it and panics again, and ends the process.
\<close>

inductive lives :: "nat \<Rightarrow> process \<Rightarrow> life_event list \<Rightarrow> process \<Rightarrow> bool" for workers where
  now: "lives workers s [] s"
| later: "live workers s e s1 \<Longrightarrow> lives workers s1 es s2 \<Longrightarrow> lives workers s (e # es) s2"

inductive_cases live_CallsE: "live workers s (Calls i) s'"
inductive_simps lives_Nil_iff: "lives workers s [] s'"
inductive_simps lives_Cons_iff: "lives workers s (e # es) s'"

lemma lives_append: "lives workers s es s1 \<Longrightarrow> lives workers s1 fs s2 \<Longrightarrow> lives workers s (es @ fs) s2"
  by (induction rule: lives.induct) (auto intro: lives.later)

definition alive :: "nat \<Rightarrow> process \<Rightarrow> bool" where
  "alive workers s = (\<exists>es. lives workers launch es s)"

section \<open>The invariant\<close>

definition life_inv :: "process \<Rightarrow> bool" where
  "life_inv s =
     ((run_at s \<noteq> Syncing \<longrightarrow> caches_synced s \<or> stop_closed s) \<and>
      (run_at s = Syncing \<longrightarrow> (\<forall>i. goroutine s i = Unborn)) \<and>
      (\<forall>i. goroutine s i = Calling \<or> goroutine s i = Waiting \<longrightarrow> caches_synced s) \<and>
      (queue_down s \<longrightarrow> stop_closed s) \<and>
      (queue_down s \<longleftrightarrow> run_at s = Left) \<and>
      (stop_closed s \<longleftrightarrow> listener s \<noteq> AwaitsFirst) \<and>
      (exit_code s = Some 1 \<longleftrightarrow> listener s = Exiting) \<and>
      pending s + (case listener s of AwaitsFirst \<Rightarrow> 0 | AwaitsSecond \<Rightarrow> 1 | Exiting \<Rightarrow> 2) \<le> received s)"

lemma life_inv_launch: "life_inv launch"
  by (simp add: life_inv_def launch_def)

lemma life_inv_live:
  assumes "live workers s e s'" "life_inv s"
  shows "life_inv s'"
  using assms
proof (induction rule: live.induct)
  case (signal s)
  then show ?case by (auto simp: life_inv_def deliver_def split: signal_handler.splits)
next
  case (ready s)
  then show ?case by (auto simp: life_inv_def start_workers_def split: if_splits signal_handler.splits)
next
  case (aborted s)
  then show ?case by (auto simp: life_inv_def start_workers_def split: if_splits signal_handler.splits)
next
  case (calls s i)
  then have "run_at s \<noteq> Syncing" by (auto simp: life_inv_def)
  with calls show ?case by (auto simp: life_inv_def)
qed (auto simp: life_inv_def split: signal_handler.splits)

lemma life_inv_lives: "lives workers s es s' \<Longrightarrow> life_inv s \<Longrightarrow> life_inv s'"
  by (induction rule: lives.induct) (auto dest: life_inv_live)

lemma life_inv_alive: "alive workers s \<Longrightarrow> life_inv s"
  unfolding alive_def using life_inv_lives life_inv_launch by blast

lemma received_live: "live workers s e s' \<Longrightarrow> received s' = received s + (if e = SignalArrives then 1 else 0)"
  by (induction rule: live.induct) (auto simp: deliver_def start_workers_def)

lemma received_lives: "lives workers s es s' \<Longrightarrow> received s' = received s + count_list es SignalArrives"
  by (induction rule: lives.induct) (auto dest: received_live)

text \<open>After the stop channel is closed, a goroutine moves only towards its end.\<close>

lemma stop_stays: "live workers s e s' \<Longrightarrow> stop_closed s \<Longrightarrow> stop_closed s'"
  by (induction rule: live.induct) (auto simp: deliver_def start_workers_def)

lemma no_new_call:
  "live workers s e s' \<Longrightarrow> stop_closed s \<Longrightarrow> goroutine s i \<noteq> Calling \<Longrightarrow> goroutine s' i \<noteq> Calling \<and> e \<noteq> Calls i"
  by (induction rule: live.induct) (auto simp: deliver_def start_workers_def)

lemma no_new_calls:
  "lives workers s es s' \<Longrightarrow> stop_closed s \<Longrightarrow> goroutine s i \<noteq> Calling \<Longrightarrow>
     Calls i \<notin> set es \<and> goroutine s' i \<noteq> Calling"
  by (induction rule: lives.induct) (auto dest: no_new_call stop_stays)

section \<open>Properties\<close>

text \<open>A run with two workers: the caches fill, a worker starts, the process is told to stop.\<close>

definition at_work :: process where
  "at_work = launch\<lparr>caches_synced := True, run_at := Serving,
     goroutine := (\<lambda>i. if i < 2 then AtTop else Unborn)(0 := Calling)\<rparr>"

definition stopping :: process where
  "stopping = at_work\<lparr>received := 1, listener := AwaitsSecond, stop_closed := True\<rparr>"

lemma lives_at_work: "lives 2 launch [CachesFill, CachesReady, Calls 0] at_work"
proof -
  let ?f = "launch\<lparr>caches_synced := True\<rparr>"
  have "live 2 launch CachesFill ?f" by (rule live.fill) (simp add: launch_def)
  moreover have "live 2 ?f CachesReady (start_workers 2 ?f)"
    by (rule live.ready) (simp_all add: launch_def)
  moreover have "live 2 (start_workers 2 ?f) (Calls 0) at_work"
    using live.calls [of "start_workers 2 ?f" 0 2]
    by (simp add: start_workers_def launch_def at_work_def)
  ultimately show ?thesis by (blast intro: lives.intros)
qed

lemma lives_stopping: "lives 2 at_work [SignalArrives, FirstSignal] stopping"
proof -
  have "live 2 at_work SignalArrives (deliver at_work)"
    by (rule live.signal) (simp add: at_work_def launch_def)
  moreover have "live 2 (deliver at_work) FirstSignal stopping"
    using live.first [of "deliver at_work" 0 2]
    by (simp add: stopping_def deliver_def at_work_def launch_def)
  ultimately show ?thesis by (blast intro: lives.intros)
qed

text \<open>
  A worker runs only once the caches are synced, although \<open>Run\<close> starts the goroutines even
  when waiting for the caches failed: that happens only after the stop channel is closed, which each
  goroutine sees before its first call.
\<close>

theorem passes_need_caches:
  assumes "alive workers s" "goroutine s i = Calling"
  shows "caches_synced s"
  using life_inv_alive [OF assms(1)] assms(2) by (simp add: life_inv_def)

theorem passes_need_caches_witness: "caches_synced at_work"
proof (rule passes_need_caches)
  show "alive 2 at_work" unfolding alive_def using lives_at_work by blast
  show "goroutine at_work 0 = Calling" by (simp add: at_work_def)
qed

text \<open>
  Shutting down is final: once the stop channel is closed, a goroutine that is not in a call of
  the worker never starts one again.
\<close>

theorem shutdown_is_final:
  assumes "lives workers s es s'" "stop_closed s" "goroutine s i \<noteq> Calling"
  shows "Calls i \<notin> set es \<and> goroutine s' i \<noteq> Calling"
  using assms by (rule no_new_calls)

theorem shutdown_is_final_witness:
  "Calls 1 \<notin> set [RunReturns] \<and> goroutine (stopping\<lparr>run_at := Left, queue_down := True\<rparr>) 1 \<noteq> Calling"
proof (rule shutdown_is_final [of 2 stopping])
  show "lives 2 stopping [RunReturns] (stopping\<lparr>run_at := Left, queue_down := True\<rparr>)"
    by (rule lives.later [OF live.returns lives.now]) (simp_all add: stopping_def at_work_def launch_def)
qed (simp_all add: stopping_def at_work_def)



end
