(* ===== verification/Json_Patch.thy ===== *)
theory Json_Patch
  imports Go_Base "HOL-Library.AList"
begin

text \<open>
  The JSON patches of \<open>github.com/mattbaird/jsonpatch\<close>, through which the mutating webhook tells the
  API server what to change: the comparison of two documents, and, as its specification, what
  RFC 6902 says such a patch does. An object is the list of its members in the order in which the
  run-time iterates over the map; numbers are any type whose equality is that of the numbers.
\<close>

section \<open>Documents\<close>

datatype 'n json =
    JNull
  | JBool bool
  | JNumber 'n
  | JString string
  | JArray "'n json list"
  | JObject "(string \<times> 'n json) list"

text \<open>\<open>reflect.TypeOf\<close> of a decoded value.\<close>

fun same_type :: "'n json \<Rightarrow> 'n json \<Rightarrow> bool" where
  "same_type JNull JNull = True"
| "same_type (JBool _) (JBool _) = True"
| "same_type (JNumber _) (JNumber _) = True"
| "same_type (JString _) (JString _) = True"
| "same_type (JArray _) (JArray _) = True"
| "same_type (JObject _) (JObject _) = True"
| "same_type _ _ = False"

lemma size_map_of: "map_of kvs k = Some v \<Longrightarrow> size v < Suc (size_list (size_prod (\<lambda>x. 0) size) kvs)"
  by (induction kvs) (auto split: if_splits)

text \<open>
  \<open>reflect.DeepEqual\<close> of two decoded values: slices element by element, maps by their members.
\<close>

function json_DeepEqual :: "'n json \<Rightarrow> 'n json \<Rightarrow> bool" where
  "json_DeepEqual (JArray xs) (JArray ys) =
     (length xs = length ys \<and> (\<forall>(x, y) \<in> set (zip xs ys). json_DeepEqual x y))"
| "json_DeepEqual (JObject a) (JObject b) =
     (length a = length b \<and>
      (\<forall>(k, v) \<in> set a. case map_of b k of None \<Rightarrow> False | Some w \<Rightarrow> json_DeepEqual v w))"
| "json_DeepEqual JNull v = (v = JNull)"
| "json_DeepEqual (JBool x) v = (v = JBool x)"
| "json_DeepEqual (JNumber x) v = (v = JNumber x)"
| "json_DeepEqual (JString x) v = (v = JString x)"
| "json_DeepEqual (JArray xs) JNull = False"
| "json_DeepEqual (JArray xs) (JBool x) = False"
| "json_DeepEqual (JArray xs) (JNumber n) = False"
| "json_DeepEqual (JArray xs) (JString s) = False"
| "json_DeepEqual (JArray xs) (JObject s) = False"
| "json_DeepEqual (JObject xs) JNull = False"
| "json_DeepEqual (JObject xs) (JBool x) = False"
| "json_DeepEqual (JObject xs) (JNumber n) = False"
| "json_DeepEqual (JObject xs) (JString s) = False"
| "json_DeepEqual (JObject xs) (JArray s) = False"
  by pat_completeness auto

lemma size_zip_fst: "(x, y) \<in> set (zip xs ys) \<Longrightarrow> size x < Suc (size_list size xs)"
  by (drule set_zip_leftD) (simp add: less_Suc_eq_le size_list_estimation')

lemma size_member: "(k, v) \<in> set kvs \<Longrightarrow> size v < Suc (size_list (size_prod (\<lambda>x. 0) size) kvs)"
  by (induction kvs) auto

termination json_DeepEqual
  by (relation "measure (\<lambda>(a, b). size a)") (auto simp: size_zip_fst size_member)

section \<open>Paths\<close>

fun rfc6901_encode :: "string \<Rightarrow> string" where
  "rfc6901_encode [] = []"
| "rfc6901_encode (c # cs) =
     (if c = CHR ''~'' then ''~0'' @ rfc6901_encode cs
      else if c = slash then ''~1'' @ rfc6901_encode cs
      else c # rfc6901_encode cs)"

text \<open>\<open>makePath\<close>, whose new part is a member's name or an index, already printed.\<close>

definition makePath :: "string \<Rightarrow> string \<Rightarrow> string" where
  "makePath path newPart =
     (let key = rfc6901_encode newPart in
      if path = [] then ''/'' @ key
      else if suffix ''/'' path then path @ key
      else path @ ''/'' @ key)"

definition makePath_index :: "string \<Rightarrow> nat \<Rightarrow> string" where
  "makePath_index path i = makePath path (fmt_d (int i))"

section \<open>Comparing documents\<close>

text \<open>The value of an operation that has none is nil, as is a null value.\<close>

datatype op_kind = OpAdd | OpReplace | OpRemove

record 'n patch_op =
  Operation :: op_kind
  Path :: string
  Value :: "'n json"

definition NewPatch :: "op_kind \<Rightarrow> string \<Rightarrow> 'n json \<Rightarrow> 'n patch_op" where
  "NewPatch operation path value = \<lparr>Operation = operation, Path = path, Value = value\<rparr>"

text \<open>The comparison of two scalars; two nil values do not match.\<close>

fun matchesScalar :: "'n json \<Rightarrow> 'n json \<Rightarrow> bool" where
  "matchesScalar (JString a) (JString b) = (b = a)"
| "matchesScalar (JNumber a) (JNumber b) = (b = a)"
| "matchesScalar (JBool a) (JBool b) = (b = a)"
| "matchesScalar _ _ = False"

definition found_in :: "'n json \<Rightarrow> 'n json list \<Rightarrow> bool" where
  "found_in v vs = list_ex (json_DeepEqual v) vs"

fun removed_from :: "string \<Rightarrow> nat \<Rightarrow> 'n json list \<Rightarrow> 'n json list \<Rightarrow> 'n patch_op list" where
  "removed_from p i [] bv = []"
| "removed_from p i (v # vs) bv =
     (if \<not> found_in v bv then [NewPatch OpRemove (makePath_index p i) JNull] else []) @
     removed_from p (Suc i) vs bv"

fun added_to :: "string \<Rightarrow> nat \<Rightarrow> 'n json list \<Rightarrow> 'n json list \<Rightarrow> 'n patch_op list" where
  "added_to p i [] av = []"
| "added_to p i (v # vs) av =
     (if \<not> found_in v av then [NewPatch OpAdd (makePath_index p i) v] else []) @
     added_to p (Suc i) vs av"

definition compareArray :: "'n json list \<Rightarrow> 'n json list \<Rightarrow> string \<Rightarrow> 'n patch_op list" where
  "compareArray av bv p = removed_from p 0 av bv @ added_to p 0 bv av"

text \<open>
  \<open>diff\<close> and \<open>handleValues\<close> thread the patch, and their error is always nil. The type assertion in
  the case of maps panics when the new value is not a map.
\<close>

function diff_members ::
    "(string \<times> 'n json) list \<Rightarrow> (string \<times> 'n json) list \<Rightarrow> string \<Rightarrow> 'n patch_op list \<Rightarrow> 'n patch_op list panicky"
  and handleValues :: "'n json \<Rightarrow> 'n json \<Rightarrow> string \<Rightarrow> 'n patch_op list \<Rightarrow> 'n patch_op list panicky"
  and handleElements ::
    "'n json list \<Rightarrow> 'n json list \<Rightarrow> string \<Rightarrow> nat \<Rightarrow> 'n patch_op list \<Rightarrow> 'n patch_op list panicky" where
  "diff_members a [] path patch = Returns patch"
| "diff_members a ((key, bv) # b) path patch =
     (let p = makePath path key in
      case map_of a key of
        None \<Rightarrow> diff_members a b path (patch @ [NewPatch OpAdd p bv])
      | Some av \<Rightarrow>
          if \<not> same_type av bv then diff_members a b path (patch @ [NewPatch OpReplace p bv])
          else (case handleValues av bv p patch of
              Returns patch' \<Rightarrow> diff_members a b path patch'
            | Panics m \<Rightarrow> Panics m))"
| "handleValues (JObject at) bv p patch =
     (case bv of
        JObject bt \<Rightarrow>
          (case diff_members at bt p patch of
             Returns patch' \<Rightarrow>
               Returns (patch' @ map (\<lambda>(key, _). NewPatch OpRemove (makePath p key) JNull)
                 (filter (\<lambda>(key, _). map_of bt key = None) at))
           | Panics m \<Rightarrow> Panics m)
      | _ \<Rightarrow> Panics ''interface conversion: interface {} is not map[string]interface {}'')"
| "handleValues (JArray at) bv p patch =
     (case bv of
        JArray bt \<Rightarrow>
          if length at \<noteq> length bt then Returns (patch @ compareArray at bt p)
          else handleElements at bt p 0 patch
      | _ \<Rightarrow> Returns (patch @ [NewPatch OpReplace p bv]))"
| "handleValues JNull bv p patch =
     (if bv = JNull then Returns patch else Returns (patch @ [NewPatch OpAdd p bv]))"
| "handleValues (JString s) bv p patch =
     Returns (if \<not> matchesScalar (JString s) bv then patch @ [NewPatch OpReplace p bv] else patch)"
| "handleValues (JNumber n) bv p patch =
     Returns (if \<not> matchesScalar (JNumber n) bv then patch @ [NewPatch OpReplace p bv] else patch)"
| "handleValues (JBool b) bv p patch =
     Returns (if \<not> matchesScalar (JBool b) bv then patch @ [NewPatch OpReplace p bv] else patch)"
| "handleElements (a # as) (b # bs) p i patch =
     (case handleValues a b (makePath_index p i) patch of
        Returns patch' \<Rightarrow> handleElements as bs p (Suc i) patch'
      | Panics m \<Rightarrow> Panics m)"
| "handleElements [] bs p i patch = Returns patch"
| "handleElements (a # as) [] p i patch = Returns patch"
  by pat_completeness auto
termination
  by (relation "measures [
      \<lambda>x. case x of Inl (a, b, path, patch) \<Rightarrow> size_list (size_prod (\<lambda>x. 0) size) a
        | Inr (Inl (av, bv, p, patch)) \<Rightarrow> size av
        | Inr (Inr (as, bs, p, i, patch)) \<Rightarrow> size_list size as,
      \<lambda>x. case x of Inl (a, b, path, patch) \<Rightarrow> Suc (length b)
        | Inr (Inl (av, bv, p, patch)) \<Rightarrow> 0
        | Inr (Inr (as, bs, p, i, patch)) \<Rightarrow> Suc (length as)]")
    (auto dest: size_map_of)

text \<open>\<open>diff\<close>: the members of the new object, then the removed members.\<close>

definition diff ::
    "(string \<times> 'n json) list \<Rightarrow> (string \<times> 'n json) list \<Rightarrow> string \<Rightarrow> 'n patch_op list \<Rightarrow> 'n patch_op list panicky" where
  "diff a b path patch = handleValues (JObject a) (JObject b) path patch"

definition errBadJSONDoc :: go_error where
  "errBadJSONDoc = ErrorString ''Invalid JSON Document''"

text \<open>
  \<open>CreatePatch\<close>, on the decoder \<open>unmarshal\<close> of the standard library, which fails on a document that
  is not an object.
\<close>

definition CreatePatch ::
    "(string \<Rightarrow> (string \<times> 'n json) list option) \<Rightarrow> string \<Rightarrow> string \<Rightarrow>
     ('n patch_op list \<times> go_error option) panicky" where
  "CreatePatch unmarshal a b =
     (case unmarshal a of
        None \<Rightarrow> Returns ([], Some errBadJSONDoc)
      | Some aI \<Rightarrow>
          (case unmarshal b of
             None \<Rightarrow> Returns ([], Some errBadJSONDoc)
           | Some bI \<Rightarrow>
               (case diff aI bI [] [] of
                  Returns patch \<Rightarrow> Returns (patch, None)
                | Panics m \<Rightarrow> Panics m)))"

section \<open>What a patch does\<close>

text \<open>
  RFC 6901 and RFC 6902: the reference tokens of a path, and an operation at the place they name.
  An \<open>add\<close> to an array inserts before the index, which may be the length of the array.
\<close>

fun rfc6901_decode :: "string \<Rightarrow> string" where
  "rfc6901_decode (c # d # cs) =
     (if c = CHR ''~'' \<and> d = CHR ''1'' then slash # rfc6901_decode cs
      else if c = CHR ''~'' \<and> d = CHR ''0'' then CHR ''~'' # rfc6901_decode cs
      else c # rfc6901_decode (d # cs))"
| "rfc6901_decode cs = cs"

definition pointer_tokens :: "string \<Rightarrow> string list" where
  "pointer_tokens path = map rfc6901_decode (tl (split_at_byte slash path))"

definition is_digit :: "char \<Rightarrow> bool" where
  "is_digit c = (48 \<le> (of_char c :: int) \<and> (of_char c :: int) \<le> 57)"

definition array_index :: "string \<Rightarrow> nat option" where
  "array_index tok =
     (if tok \<noteq> [] \<and> list_all is_digit tok
      then Some (nat (foldl (\<lambda>n c. n * 10 + ((of_char c :: int) - 48)) 0 tok)) else None)"

fun edit :: "op_kind \<Rightarrow> 'n json \<Rightarrow> string list \<Rightarrow> 'n json \<Rightarrow> 'n json option" where
  "edit k v [] doc = (if k = OpRemove then None else Some v)"
| "edit k v (t # ts) (JObject kvs) =
     (if ts = [] \<and> k = OpAdd then Some (JObject (AList.update t v kvs))
      else case map_of kvs t of
        None \<Rightarrow> None
      | Some w \<Rightarrow>
          if ts = [] \<and> k = OpRemove then Some (JObject (AList.delete t kvs))
          else map_option (\<lambda>w'. JObject (AList.update t w' kvs)) (edit k v ts w))"
| "edit k v (t # ts) (JArray xs) =
     (case array_index t of
        None \<Rightarrow> None
      | Some i \<Rightarrow>
          if ts = [] \<and> k = OpAdd then
            (if i \<le> length xs then Some (JArray (take i xs @ v # drop i xs)) else None)
          else if i < length xs then
            (if ts = [] \<and> k = OpRemove then Some (JArray (take i xs @ drop (Suc i) xs))
             else map_option (\<lambda>w'. JArray (xs[i := w'])) (edit k v ts (xs ! i)))
          else None)"
| "edit k v (t # ts) doc = None"

text \<open>The operations of a patch in order, on the value found at the path \<open>p\<close>.\<close>

definition apply_op :: "string \<Rightarrow> 'n patch_op \<Rightarrow> 'n json \<Rightarrow> 'n json option" where
  "apply_op p oper doc =
     edit (Operation oper) (Value oper) (pointer_tokens (drop (length p) (Path oper))) doc"

fun apply_patch :: "string \<Rightarrow> 'n patch_op list \<Rightarrow> 'n json \<Rightarrow> 'n json option" where
  "apply_patch p [] doc = Some doc"
| "apply_patch p (oper # opers) doc =
     (case apply_op p oper doc of None \<Rightarrow> None | Some doc' \<Rightarrow> apply_patch p opers doc')"

lemma apply_patch_append:
  "apply_patch p (xs @ ys) doc =
     (case apply_patch p xs doc of None \<Rightarrow> None | Some doc' \<Rightarrow> apply_patch p ys doc')"
  by (induction xs arbitrary: doc) (auto split: option.splits)

subsection \<open>Paths read back\<close>

lemma decode_encode [simp]: "rfc6901_decode (rfc6901_encode t) = t"
proof (induction t rule: rfc6901_encode.induct)
  case (2 c cs)
  have plain: "c \<noteq> CHR ''~'' \<Longrightarrow> rfc6901_decode (c # xs) = c # rfc6901_decode xs" for xs
    by (cases xs) auto
  from 2 show ?case by (auto simp: plain)
qed simp

lemma slash_notin_encode [simp]: "slash \<notin> set (rfc6901_encode t)"
  by (induction t rule: rfc6901_encode.induct) (auto simp: slash_def)

lemma of_char_digit: "0 \<le> n \<Longrightarrow> n < 10 \<Longrightarrow> (of_char (digit n) :: int) = 48 + n"
  by (simp add: digit_def)

lemma is_digit_digit [simp]: "0 \<le> n \<Longrightarrow> n < 10 \<Longrightarrow> is_digit (digit n)"
  by (simp add: is_digit_def of_char_digit)

lemma show_dec_digits: "0 \<le> n \<Longrightarrow> show_dec n \<noteq> [] \<and> list_all is_digit (show_dec n)"
proof (induction n rule: show_dec.induct)
  case (1 n)
  with show_dec.simps [of n] show ?case by auto
qed

lemma show_dec_value:
  "0 \<le> n \<Longrightarrow> foldl (\<lambda>n c. n * 10 + ((of_char c :: int) - 48)) 0 (show_dec n) = n"
proof (induction n rule: show_dec.induct)
  case (1 n)
  then show ?case
    by (subst show_dec.simps) (auto simp: of_char_digit)
qed

lemma array_index_fmt_d [simp]: "array_index (fmt_d (int i)) = Some i"
  by (simp add: array_index_def fmt_d_def show_dec_digits show_dec_value)

lemma makePath_tokens:
  assumes "\<not> suffix ''/'' p"
  shows "pointer_tokens (drop (length p) (makePath p t)) = [t]"
proof -
  have "drop (length p) (makePath p t) = slash # rfc6901_encode t"
    using assms by (simp add: makePath_def slash_def Let_def)
  then show ?thesis by (simp add: pointer_tokens_def split_at_byte_none)
qed

lemma apply_op_index:
  assumes "\<not> suffix ''/'' p"
  shows "apply_op p (NewPatch k (makePath_index p i) v) (JArray xs) =
     (if k = OpAdd then if i \<le> length xs then Some (JArray (take i xs @ v # drop i xs)) else None
      else if i < length xs then
        Some (JArray (if k = OpRemove then take i xs @ drop (Suc i) xs else xs[i := v]))
      else None)"
  using assms by (simp add: apply_op_def NewPatch_def makePath_index_def makePath_tokens)

subsection \<open>Arrays of strings\<close>

text \<open>
  Of arrays of different lengths only the added and the removed values are patched: that is enough
  when the new array is the set of old values with one more.
\<close>

lemma found_in_strings [simp]: "found_in (JString a) (map JString xs) \<longleftrightarrow> a \<in> set xs"
  by (auto simp: found_in_def list_ex_iff)

lemma removed_from_strings:
  "set xs \<subseteq> set ys \<Longrightarrow> removed_from p i (map JString xs) (map JString ys) = []"
  by (induction xs arbitrary: i) auto

lemma added_to_none:
  "set ys \<subseteq> set xs \<Longrightarrow> added_to p i (map JString ys) (map JString xs) = []"
  by (induction ys arbitrary: i) auto

lemma added_to_one:
  assumes "distinct ys" "set ys \<subseteq> insert x (set xs)" "x \<in> set ys" "x \<notin> set xs"
  shows "\<exists>j < length ys. added_to p i (map JString ys) (map JString xs) =
    [NewPatch OpAdd (makePath_index p (i + j)) (JString x :: 'n json)]"
  using assms
proof (induction ys arbitrary: i)
  case (Cons y ys)
  show ?case
  proof (cases "y = x")
    case True
    with Cons.prems have "set ys \<subseteq> set xs" by auto
    with True Cons.prems(4) show ?thesis by (intro exI [of _ 0]) (simp add: added_to_none)
  next
    case False
    with Cons.prems have "distinct ys" "set ys \<subseteq> insert x (set xs)" "x \<in> set ys" by auto
    from Cons.IH [OF this Cons.prems(4), of "Suc i"] obtain j where "j < length ys"
        "added_to p (Suc i) (map JString ys) (map JString xs) =
          [NewPatch OpAdd (makePath_index p (Suc i + j)) (JString x :: 'n json)]"
      by blast
    with False Cons.prems show ?thesis by (intro exI [of _ "Suc j"]) auto
  qed
qed simp

lemma compareArray_insert:
  assumes "distinct ys" "set ys = insert x (set xs)" "x \<notin> set xs"
  obtains j where "j \<le> length xs"
    "compareArray (map JString xs) (map JString ys) p =
       [NewPatch OpAdd (makePath_index p j) (JString x :: 'n json)]"
proof -
  have rem: "removed_from p 0 (map JString xs) (map JString ys) = ([] :: 'n patch_op list)"
    using assms(2) by (intro removed_from_strings) auto
  obtain j where j: "j < length ys" "added_to p 0 (map JString ys) (map JString xs) =
      [NewPatch OpAdd (makePath_index p j) (JString x :: 'n json)]"
    using added_to_one [of ys x xs p 0] assms by auto
  have "length ys = card (insert x (set xs))"
    using assms(1,2) distinct_card by fastforce
  then have "length ys \<le> Suc (length xs)"
    using card_length [of xs] assms(3) by simp
  with j rem show thesis by (intro that [of j]) (simp_all add: compareArray_def)
qed

lemma compareArray_same_set:
  "set ys = set xs \<Longrightarrow> compareArray (map JString xs) (map JString ys) p = []"
  by (simp add: compareArray_def removed_from_strings added_to_none)

end
