(* ===== verification/Json_Patch_Correct.thy ===== *)
theory Json_Patch_Correct
  imports Json_Patch
begin

text \<open>
  When the patch that \<open>CreatePatch\<close> computes turns the original document into the new one. The
  comparison is not complete: it only adds and removes elements of arrays of different lengths,
  confuses adding to an array with setting an element that was null, panics on an object that
  becomes a scalar inside an array, and joins the members of a member without a name to the wrong
  path. \<open>patchable\<close> leaves those documents out, and \<open>similar\<close> allows an array of strings to come out
  in another order and with repetitions.
\<close>

section \<open>Operations relative to a place\<close>

type_synonym 'n edit_op = "string list \<times> op_kind \<times> 'n json"

definition path_of :: "string list \<Rightarrow> string" where
  "path_of toks = concat (map (\<lambda>t. slash # rfc6901_encode t) toks)"

definition absolute :: "string list \<Rightarrow> 'n edit_op \<Rightarrow> 'n patch_op" where
  "absolute toks e = (case e of (ts, k, v) \<Rightarrow> NewPatch k (path_of (toks @ ts)) v)"

definition beneath :: "string \<Rightarrow> 'n edit_op \<Rightarrow> 'n edit_op" where
  "beneath t e = (case e of (ts, k, v) \<Rightarrow> (t # ts, k, v))"

fun apply_edits :: "'n edit_op list \<Rightarrow> 'n json \<Rightarrow> 'n json option" where
  "apply_edits [] doc = Some doc"
| "apply_edits ((ts, k, v) # es) doc =
     (case edit k v ts doc of None \<Rightarrow> None | Some doc' \<Rightarrow> apply_edits es doc')"

lemma apply_edits_append:
  "apply_edits (xs @ ys) doc =
     (case apply_edits xs doc of None \<Rightarrow> None | Some doc' \<Rightarrow> apply_edits ys doc')"
  by (induction xs arbitrary: doc) (auto split: option.splits)

lemma beneath_simp [simp]: "beneath t (ts, k, v) = (t # ts, k, v)"
  by (simp add: beneath_def)

lemma absolute_beneath: "absolute toks (beneath t e) = absolute (toks @ [t]) e"
  by (simp add: absolute_def beneath_def split: prod.split)

lemma absolute_comp_beneath [simp]: "absolute toks \<circ> beneath t = absolute (toks @ [t])"
  by (simp add: fun_eq_iff absolute_beneath)

lemma encode_ne: "t \<noteq> [] \<Longrightarrow> rfc6901_encode t \<noteq> []"
  by (cases t) auto

lemma path_not_slash:
  assumes "\<forall>t \<in> set toks. t \<noteq> []"
  shows "\<not> suffix ''/'' (path_of toks)"
proof (cases toks rule: rev_cases)
  case (snoc ts t)
  have "rfc6901_encode t \<noteq> []" using assms snoc by (simp add: encode_ne)
  then obtain cs c where c: "rfc6901_encode t = cs @ [c]" by (metis rev_exhaust)
  then have "c \<noteq> slash" using slash_notin_encode [of t] by auto
  with snoc c show ?thesis by (auto simp: path_of_def suffix_def slash_def)
qed (simp add: path_of_def)

lemma makePath_path_of:
  assumes "\<forall>t \<in> set toks. t \<noteq> []"
  shows "makePath (path_of toks) t = path_of (toks @ [t])"
proof (cases "toks = []")
  case True
  then show ?thesis by (simp add: makePath_def path_of_def slash_def)
next
  case False
  then have "path_of toks \<noteq> []" by (cases toks) (simp_all add: path_of_def)
  with path_not_slash [OF assms] show ?thesis
    by (simp add: makePath_def path_of_def slash_def Let_def)
qed

lemma split_path_of: "split_at_byte slash (path_of toks) = [] # map rfc6901_encode toks"
proof (induction toks)
  case (Cons t ts)
  have "split_at_byte slash (rfc6901_encode t @ path_of ts) =
      rfc6901_encode t # map rfc6901_encode ts"
  proof (cases ts)
    case Nil
    then show ?thesis by (simp add: path_of_def split_at_byte_none)
  next
    case (Cons u us)
    then have "path_of ts = slash # (rfc6901_encode u @ path_of us)" by (simp add: path_of_def)
    with Cons.IH Cons show ?thesis by (simp add: split_at_byte_append)
  qed
  then show ?case by (simp add: path_of_def)
qed (simp add: path_of_def)

lemma pointer_tokens_path_of [simp]: "pointer_tokens (path_of toks) = toks"
  by (simp add: pointer_tokens_def split_path_of map_idI)

lemma apply_patch_edits: "apply_patch [] (map (absolute []) es) doc = apply_edits es doc"
  by (induction es doc rule: apply_edits.induct)
    (auto simp: apply_op_def absolute_def NewPatch_def split: option.split)

section \<open>Editing inside a member or an element\<close>

definition keys_of :: "(string \<times> 'n json) list \<Rightarrow> string set" where
  "keys_of kvs = fst ` set kvs"

lemma edits_under_member:
  assumes "apply_edits es w = Some w'" "map_of kvs t = Some w" "distinct (map fst kvs)"
  shows "\<exists>kvs'. apply_edits (map (beneath t) es) (JObject kvs) = Some (JObject kvs') \<and>
    map_of kvs' = (map_of kvs)(t \<mapsto> w') \<and> distinct (map fst kvs')"
  using assms
proof (induction es w arbitrary: kvs rule: apply_edits.induct)
  case (1 w)
  then show ?case by (auto simp: fun_eq_iff)
next
  case (2 ts k v es w)
  then obtain w1 where w1: "edit k v ts w = Some w1" "apply_edits es w1 = Some w'"
    by (auto split: option.splits)
  let ?kvs = "AList.update t w1 kvs"
  have step: "edit k v (t # ts) (JObject kvs) = Some (JObject ?kvs)"
    using w1(1) 2(3) by (cases ts) (auto split: if_splits)
  have twice: "(map_of ?kvs)(t \<mapsto> w') = (map_of kvs)(t \<mapsto> w')"
    by (simp add: update_conv' fun_eq_iff)
  have "distinct (map fst ?kvs)" "map_of ?kvs t = Some w1"
    using 2(4) by (simp_all add: update_conv' distinct_update)
  then obtain kvs' where "apply_edits (map (beneath t) es) (JObject ?kvs) = Some (JObject kvs')"
      "map_of kvs' = (map_of ?kvs)(t \<mapsto> w')" "distinct (map fst kvs')"
    using 2(1) [OF w1, of ?kvs] by blast
  with step show ?case
    unfolding twice by (intro exI [of _ kvs'] conjI) (simp_all del: edit.simps)
qed

text \<open>In an array, the edit of a whole element must not be an \<open>add\<close>, which would insert.\<close>

definition no_add_here :: "'n edit_op list \<Rightarrow> bool" where
  "no_add_here es = (\<forall>v. ([], OpAdd, v) \<notin> set es)"

lemma edits_under_element:
  assumes "apply_edits es w = Some w'" "i < length xs" "xs ! i = w" "no_add_here es"
  shows "apply_edits (map (beneath (fmt_d (int i))) es) (JArray xs) = Some (JArray (xs[i := w']))"
  using assms
proof (induction es w arbitrary: xs rule: apply_edits.induct)
  case (1 w)
  then show ?case by auto
next
  case (2 ts k v es w)
  then obtain w1 where w1: "edit k v ts w = Some w1" "apply_edits es w1 = Some w'"
    by (auto split: option.splits)
  have "\<not> (ts = [] \<and> k = OpAdd)" "no_add_here es"
    using 2(5) by (auto simp: no_add_here_def)
  moreover have "\<not> (ts = [] \<and> k = OpRemove)" using w1(1) by auto
  ultimately have step: "edit k v (fmt_d (int i) # ts) (JArray xs) = Some (JArray (xs[i := w1]))"
    using w1(1) 2(3,4) by auto
  have "apply_edits (map (beneath (fmt_d (int i))) es) (JArray (xs[i := w1])) =
      Some (JArray (xs[i := w1, i := w']))"
    using 2(1) [OF w1(1,2)] 2(3) \<open>no_add_here es\<close> by simp
  with step show ?case by (simp del: edit.simps)
qed

section \<open>The documents that can be patched\<close>

fun is_object :: "'n json \<Rightarrow> bool" where
  "is_object (JObject _) = True"
| "is_object _ = False"

text \<open>What the comparison gets right: the original, then the new document.\<close>

inductive patchable :: "'n json \<Rightarrow> 'n json \<Rightarrow> bool" where
  from_null: "patchable JNull v"
| from_bool: "patchable (JBool b) v"
| from_number: "patchable (JNumber n) v"
| from_string: "patchable (JString s) v"
| array: "list_all2 (\<lambda>v w. patchable v w \<and> (v = JNull \<longrightarrow> w = JNull)) vs ws \<Longrightarrow>
    patchable (JArray vs) (JArray ws)"
| from_array: "\<not> (\<exists>ws. w = JArray ws) \<Longrightarrow> patchable (JArray vs) w"
| strings: "length xs \<noteq> length ys \<Longrightarrow> distinct ys \<Longrightarrow> set ys = insert x (set xs) \<Longrightarrow>
    patchable (JArray (map JString xs)) (JArray (map JString ys))"
| object: "distinct (map fst a) \<Longrightarrow> distinct (map fst b) \<Longrightarrow> [] \<notin> keys_of b \<Longrightarrow>
    (\<And>k v w. map_of a k = Some v \<Longrightarrow> map_of b k = Some w \<Longrightarrow> same_type v w \<Longrightarrow> patchable v w) \<Longrightarrow>
    patchable (JObject a) (JObject b)"

text \<open>The outcome, then the document that was wanted.\<close>

inductive similar :: "'n json \<Rightarrow> 'n json \<Rightarrow> bool" where
  same: "similar v v"
| elements: "list_all2 similar vs ws \<Longrightarrow> similar (JArray vs) (JArray ws)"
| string_set: "set xs = set ys \<Longrightarrow> similar (JArray (map JString xs)) (JArray (map JString ys))"
| members: "distinct (map fst a) \<Longrightarrow> keys_of a = keys_of b \<Longrightarrow>
    (\<And>k v w. map_of a k = Some v \<Longrightarrow> map_of b k = Some w \<Longrightarrow> similar v w) \<Longrightarrow>
    similar (JObject a) (JObject b)"

text \<open>What the comparison of two values has to deliver at a place.\<close>

definition delivers :: "'n json \<Rightarrow> 'n json \<Rightarrow> string list \<Rightarrow> 'n patch_op list \<Rightarrow> bool" where
  "delivers v w toks patch =
     (\<exists>es v'. handleValues v w (path_of toks) patch = Returns (patch @ map (absolute toks) es) \<and>
        apply_edits es v = Some v' \<and> similar v' w \<and>
        ((v = JNull \<longrightarrow> w = JNull) \<longrightarrow> no_add_here es))"

lemma deliversI:
  assumes "handleValues v w (path_of toks) patch = Returns (patch @ map (absolute toks) es)"
    "apply_edits es v = Some v'" "similar v' w" "(v = JNull \<longrightarrow> w = JNull) \<Longrightarrow> no_add_here es"
  shows "delivers v w toks patch"
  using assms unfolding delivers_def by blast

lemma no_add_here_simps [simp]:
  "no_add_here []" "no_add_here (es @ fs) \<longleftrightarrow> no_add_here es \<and> no_add_here fs"
  "no_add_here (map (beneath t) es)"
  by (auto simp: no_add_here_def beneath_def)

text \<open>Scalars, and whatever is replaced as a whole.\<close>

lemma delivers_replaced:
  assumes "handleValues v w (path_of toks) patch =
    Returns (if same then patch else patch @ [NewPatch k (path_of toks) w])"
    "same \<Longrightarrow> v = w" "k \<noteq> OpRemove" "(v = JNull \<longrightarrow> w = JNull) \<Longrightarrow> k = OpAdd \<Longrightarrow> same"
  shows "delivers v w toks patch"
proof (cases same)
  case True
  with assms show ?thesis by (intro deliversI [of _ _ _ _ "[]" v]) (auto intro: similar.same)
next
  case False
  with assms show ?thesis
    by (intro deliversI [of _ _ _ _ "[([], k, w)]" w])
      (auto simp: absolute_def no_add_here_def intro: similar.same)
qed

lemma fmt_d_ne: "fmt_d (int i) \<noteq> []"
  using show_dec_digits [of "int i"] by (simp add: fmt_d_def)

lemma absolute_index:
  "\<forall>t \<in> set toks. t \<noteq> [] \<Longrightarrow>
     NewPatch k (makePath_index (path_of toks) i) v = absolute toks ([fmt_d (int i)], k, v)"
  by (simp add: absolute_def makePath_index_def makePath_path_of)

text \<open>Arrays of strings, by the comparison of sets.\<close>

lemma delivers_strings:
  fixes patch :: "'n patch_op list"
  assumes "length xs \<noteq> length ys" "distinct ys" "set ys = insert x (set xs)"
    "\<forall>t \<in> set toks. t \<noteq> []"
  shows "delivers (JArray (map JString xs)) (JArray (map JString ys)) toks patch"
proof (cases "x \<in> set xs")
  case True
  with assms show ?thesis
    by (intro deliversI [of _ _ _ _ "[]" "JArray (map JString xs)"])
      (auto simp: compareArray_same_set insert_absorb intro: similar.string_set)
next
  case False
  obtain j where j: "j \<le> length xs" "compareArray (map JString xs) (map JString ys) (path_of toks) =
      [NewPatch OpAdd (makePath_index (path_of toks) j) (JString x :: 'n json)]"
    by (rule compareArray_insert [OF assms(2,3) False])
  have "set (take j xs) \<union> set (drop j xs) = set xs" by (metis append_take_drop_id set_append)
  then have "set (take j xs @ x # drop j xs) = set ys" using assms(3) by auto
  then have sim: "similar (JArray (map JString (take j xs @ x # drop j xs))) (JArray (map JString ys))"
    by (rule similar.string_set)
  show ?thesis
    by (rule deliversI [of _ _ _ _ "[([fmt_d (int j)], OpAdd, JString x)]"
          "JArray (map JString (take j xs @ x # drop j xs))"])
      (use assms j sim in \<open>simp_all add: absolute_index take_map drop_map no_add_here_def\<close>)
qed

text \<open>Arrays of the same length, element by element.\<close>

lemma handleElements_delivers:
  assumes "list_all2 (\<lambda>v w. (\<forall>toks patch. (\<forall>t \<in> set toks. t \<noteq> []) \<longrightarrow> delivers v w toks patch) \<and>
      (v = JNull \<longrightarrow> w = JNull)) vs ws"
    "\<forall>t \<in> set toks. t \<noteq> []"
  shows "\<exists>es vs'. handleElements vs ws (path_of toks) i patch = Returns (patch @ map (absolute toks) es) \<and>
    (\<forall>pre. length pre = i \<longrightarrow> apply_edits es (JArray (pre @ vs)) = Some (JArray (pre @ vs'))) \<and>
    list_all2 similar vs' ws \<and> no_add_here es"
  using assms(1)
proof (induction vs ws arbitrary: i patch rule: list_all2_induct)
  case Nil
  show ?case by (intro exI [of _ "[]"]) simp
next
  case (Cons v vs w ws)
  let ?here = "toks @ [fmt_d (int i)]"
  have ne: "\<forall>t \<in> set ?here. t \<noteq> []" using assms(2) by (auto simp: fmt_d_ne)
  with Cons.hyps(1) obtain es v' where es: "handleValues v w (path_of ?here) patch =
        Returns (patch @ map (absolute ?here) es)"
      "apply_edits es v = Some v'" "similar v' w" "no_add_here es"
    unfolding delivers_def by blast
  let ?es = "map (beneath (fmt_d (int i))) es"
  obtain fs vs' where fs: "handleElements vs ws (path_of toks) (Suc i) (patch @ map (absolute toks) ?es) =
        Returns ((patch @ map (absolute toks) ?es) @ map (absolute toks) fs)"
      "\<And>pre. length pre = Suc i \<Longrightarrow> apply_edits fs (JArray (pre @ vs)) = Some (JArray (pre @ vs'))"
      "list_all2 similar vs' ws" "no_add_here fs"
    using Cons.IH [of "Suc i" "patch @ map (absolute toks) ?es"] by blast
  have "handleElements (v # vs) (w # ws) (path_of toks) i patch =
      Returns (patch @ map (absolute toks) (?es @ fs))"
    using es(1) fs(1) assms(2) by (simp add: makePath_index_def makePath_path_of)
  moreover have "apply_edits (?es @ fs) (JArray (pre @ v # vs)) = Some (JArray (pre @ v' # vs'))"
    if "length pre = i" for pre
  proof -
    have "apply_edits ?es (JArray (pre @ v # vs)) = Some (JArray ((pre @ v # vs)[i := v']))"
      using that es(2,4) by (intro edits_under_element) auto
    with fs(2) [of "pre @ [v']"] that show ?thesis
      by (simp add: apply_edits_append list_update_append)
  qed
  ultimately show ?case
    using es(3) fs(3,4) by (intro exI [of _ "?es @ fs"] exI [of _ "v' # vs'"]) simp
qed

text \<open>Objects, member by member of the new one, then the members that are gone.\<close>

definition member_of :: "(string \<times> 'n json) list \<Rightarrow> string \<Rightarrow> 'n json \<Rightarrow> bool" where
  "member_of kvs k w = (\<exists>v. map_of kvs k = Some v \<and> similar v w)"

lemma diff_member_step:
  assumes toks: "\<forall>t \<in> set toks. t \<noteq> []" and key: "key \<noteq> []"
    and IH: "\<And>v toks patch. map_of a key = Some v \<Longrightarrow> same_type v bv \<Longrightarrow>
      \<forall>t \<in> set toks. t \<noteq> [] \<Longrightarrow> delivers v bv toks patch"
    and kvs: "distinct (map fst kvs)" "map_of kvs key = map_of a key"
  shows "\<exists>es kvs' v'.
    (\<forall>b. diff_members a ((key, bv) # b) (path_of toks) patch =
       diff_members a b (path_of toks) (patch @ map (absolute toks) es)) \<and>
    apply_edits es (JObject kvs) = Some (JObject kvs') \<and> map_of kvs' = (map_of kvs)(key \<mapsto> v') \<and>
    similar v' bv \<and> distinct (map fst kvs') \<and> no_add_here es"
proof -
  have path: "makePath (path_of toks) key = path_of (toks @ [key])"
    using toks by (rule makePath_path_of)
  have upd: "map_of (AList.update key bv kvs) = (map_of kvs)(key \<mapsto> bv)"
      "distinct (map fst (AList.update key bv kvs))"
    using kvs(1) by (simp_all add: update_conv' distinct_update)
  consider (added) "map_of a key = None"
    | (retyped) v where "map_of a key = Some v" "\<not> same_type v bv"
    | (changed) v where "map_of a key = Some v" "same_type v bv"
    by (cases "map_of a key") auto
  then show ?thesis
  proof cases
    case added
    with upd show ?thesis
      by (intro exI [of _ "[([key], OpAdd, bv)]"] exI [of _ "AList.update key bv kvs"] exI [of _ bv])
        (auto simp: path absolute_def no_add_here_def Let_def intro: similar.same)
  next
    case (retyped v)
    with upd kvs(2) show ?thesis
      by (intro exI [of _ "[([key], OpReplace, bv)]"] exI [of _ "AList.update key bv kvs"] exI [of _ bv])
        (auto simp: path absolute_def no_add_here_def Let_def intro: similar.same)
  next
    case (changed v)
    have "\<forall>t \<in> set (toks @ [key]). t \<noteq> []" using toks key by auto
    from IH [OF changed this, of patch] obtain es v' where es:
        "handleValues v bv (path_of (toks @ [key])) patch = Returns (patch @ map (absolute (toks @ [key])) es)"
        "apply_edits es v = Some v'" "similar v' bv"
      unfolding delivers_def by blast
    from edits_under_member [OF es(2) _ kvs(1)] changed(1) kvs(2) obtain kvs' where
      "apply_edits (map (beneath key) es) (JObject kvs) = Some (JObject kvs')"
      "map_of kvs' = (map_of kvs)(key \<mapsto> v')" "distinct (map fst kvs')"
      by auto
    with es changed show ?thesis
      by (intro exI [of _ "map (beneath key) es"] exI [of _ kvs'] exI [of _ v'])
        (auto simp: path Let_def)
  qed
qed

lemma diff_members_delivers:
  assumes toks: "\<forall>t \<in> set toks. t \<noteq> []"
    and IH: "\<And>k v w toks patch. map_of a k = Some v \<Longrightarrow> (k, w) \<in> set bs \<Longrightarrow> same_type v w \<Longrightarrow>
      \<forall>t \<in> set toks. t \<noteq> [] \<Longrightarrow> delivers v w toks patch"
    and bs: "distinct (map fst bs)" "[] \<notin> keys_of bs"
    and kvs: "distinct (map fst kvs)" "\<And>k. k \<in> keys_of bs \<Longrightarrow> map_of kvs k = map_of a k"
  shows "\<exists>es kvs'. diff_members a bs (path_of toks) patch = Returns (patch @ map (absolute toks) es) \<and>
    apply_edits es (JObject kvs) = Some (JObject kvs') \<and> distinct (map fst kvs') \<and>
    (\<forall>k. k \<notin> keys_of bs \<longrightarrow> map_of kvs' k = map_of kvs k) \<and>
    (\<forall>(k, w) \<in> set bs. member_of kvs' k w) \<and> no_add_here es"
  using IH bs kvs
proof (induction bs arbitrary: kvs patch)
  case Nil
  then show ?case by (intro exI [of _ "[]"] exI [of _ kvs]) simp
next
  case (Cons b bs)
  obtain key bv where b: "b = (key, bv)" by fastforce
  have key: "key \<noteq> []" "key \<notin> keys_of bs" "map_of kvs key = map_of a key"
    using Cons.prems(2,3,5) b by (auto simp: keys_of_def)
  obtain es kvs1 v1 where step:
      "\<And>b. diff_members a ((key, bv) # b) (path_of toks) patch =
         diff_members a b (path_of toks) (patch @ map (absolute toks) es)"
      "apply_edits es (JObject kvs) = Some (JObject kvs1)" "map_of kvs1 = (map_of kvs)(key \<mapsto> v1)"
      "similar v1 bv" "distinct (map fst kvs1)" "no_add_here es"
    using diff_member_step [OF toks key(1) _ Cons.prems(4) key(3), of bv patch] Cons.prems(1) b
    by (metis list.set_intros(1))
  have "map_of kvs1 k = map_of a k" if "k \<in> keys_of bs" for k
    using that step(3) key(2) Cons.prems(5) [of k] b by (auto simp: keys_of_def)
  then obtain fs kvs2 where rest:
      "diff_members a bs (path_of toks) (patch @ map (absolute toks) es) =
         Returns ((patch @ map (absolute toks) es) @ map (absolute toks) fs)"
      "apply_edits fs (JObject kvs1) = Some (JObject kvs2)" "distinct (map fst kvs2)"
      "\<forall>k. k \<notin> keys_of bs \<longrightarrow> map_of kvs2 k = map_of kvs1 k"
      "\<forall>(k, w) \<in> set bs. member_of kvs2 k w" "no_add_here fs"
    using Cons.IH [of kvs1 "patch @ map (absolute toks) es"] Cons.prems(1-3) step(5) b
    by (fastforce simp: keys_of_def)
  have "member_of kvs2 key bv"
    using rest(4) key(2) step(3,4) by (simp add: member_of_def)
  with step rest b show ?case
    by (intro exI [of _ "es @ fs"] exI [of _ kvs2]) (auto simp: apply_edits_append keys_of_def)
qed

lemma edits_remove:
  assumes "distinct (map fst kvs)" "distinct (map fst rs)" "\<And>k. k \<in> keys_of rs \<Longrightarrow> map_of kvs k \<noteq> None"
  shows "\<exists>kvs'. apply_edits (map (\<lambda>(k, _). ([k], OpRemove, JNull)) rs) (JObject kvs) = Some (JObject kvs') \<and>
    distinct (map fst kvs') \<and> map_of kvs' = (\<lambda>k. if k \<in> keys_of rs then None else map_of kvs k)"
  using assms
proof (induction rs arbitrary: kvs)
  case (Cons r rs)
  obtain k x where r: "r = (k, x)" by fastforce
  let ?kvs = "AList.delete k kvs"
  have del: "distinct (map fst ?kvs)" "map_of ?kvs = (map_of kvs)(k := None)"
    using Cons.prems(1) by (simp_all add: distinct_delete delete_conv')
  have "map_of ?kvs k' \<noteq> None" if "k' \<in> keys_of rs" for k'
    using that Cons.prems(2,3) r del(2) by (auto simp: keys_of_def)
  from Cons.IH [OF del(1) _ this] Cons.prems(2) obtain kvs' where
    "apply_edits (map (\<lambda>(k, _). ([k], OpRemove, JNull)) rs) (JObject ?kvs) = Some (JObject kvs')"
    "distinct (map fst kvs')" "map_of kvs' = (\<lambda>k. if k \<in> keys_of rs then None else map_of ?kvs k)"
    by auto
  moreover have "map_of kvs k \<noteq> None" using Cons.prems(3) r by (simp add: keys_of_def)
  ultimately show ?case
    using r del(2) by (intro exI [of _ kvs']) (auto simp: keys_of_def fun_eq_iff)
qed (simp add: keys_of_def)

lemma keys_of_map: "k \<in> keys_of kvs \<longleftrightarrow> map_of kvs k \<noteq> None"
  by (simp add: keys_of_def map_of_eq_None_iff)

lemma delivers_object:
  assumes toks: "\<forall>t \<in> set toks. t \<noteq> []"
    and a: "distinct (map fst a)" and b: "distinct (map fst b)" "[] \<notin> keys_of b"
    and IH: "\<And>k v w toks patch. map_of a k = Some v \<Longrightarrow> map_of b k = Some w \<Longrightarrow> same_type v w \<Longrightarrow>
      \<forall>t \<in> set toks. t \<noteq> [] \<Longrightarrow> delivers v w toks patch"
  shows "delivers (JObject a) (JObject b) toks patch"
proof -
  let ?gone = "filter (\<lambda>(key, _). map_of b key = None) a"
  let ?rs = "map (\<lambda>(k, _). ([k], OpRemove, JNull)) ?gone"
  have mem: "map_of b k = Some w" if "(k, w) \<in> set b" for k w using b(1) that by simp
  have members: "delivers v w toks patch"
    if "map_of a k = Some v" "(k, w) \<in> set b" "same_type v w" "\<forall>t \<in> set toks. t \<noteq> []"
    for k v w toks patch
    by (rule IH [OF that(1) mem [OF that(2)] that(3,4)])
  have "\<exists>es kvs. diff_members a b (path_of toks) patch = Returns (patch @ map (absolute toks) es) \<and>
      apply_edits es (JObject a) = Some (JObject kvs) \<and> distinct (map fst kvs) \<and>
      (\<forall>k. k \<notin> keys_of b \<longrightarrow> map_of kvs k = map_of a k) \<and>
      (\<forall>(k, w) \<in> set b. member_of kvs k w) \<and> no_add_here es"
    by (rule diff_members_delivers [OF toks _ b a]) (rule members, assumption+, rule refl)
  then obtain es kvs where es: "diff_members a b (path_of toks) patch = Returns (patch @ map (absolute toks) es)"
      "apply_edits es (JObject a) = Some (JObject kvs)" "distinct (map fst kvs)"
      "\<forall>k. k \<notin> keys_of b \<longrightarrow> map_of kvs k = map_of a k" "\<forall>(k, w) \<in> set b. member_of kvs k w"
      "no_add_here es"
    by blast
  have gone: "k \<in> keys_of ?gone \<longleftrightarrow> map_of a k \<noteq> None \<and> map_of b k = None" for k
    by (force simp: keys_of_def map_of_eq_None_iff)
  have "distinct (map fst ?gone)" using a by (simp add: distinct_map_filter)
  moreover have "map_of kvs k \<noteq> None" if "k \<in> keys_of ?gone" for k
    using that es(4) keys_of_map [of k b] unfolding gone by simp
  ultimately obtain kvs' where rs: "apply_edits ?rs (JObject kvs) = Some (JObject kvs')"
      "distinct (map fst kvs')" "map_of kvs' = (\<lambda>k. if k \<in> keys_of ?gone then None else map_of kvs k)"
    using edits_remove [OF es(3), of ?gone] by blast
  have eq: "handleValues (JObject a) (JObject b) (path_of toks) patch =
      Returns (patch @ map (absolute toks) (es @ ?rs))"
    using es(1) by (auto simp: makePath_path_of [OF toks] absolute_def)
  have kvs': "map_of kvs' k = (if map_of b k = None then None else map_of kvs k)" for k
    using rs(3) es(4) keys_of_map [of k b] by (auto simp: gone)
  have there: "member_of kvs k w" if "map_of b k = Some w" for k w
    using es(5) map_of_SomeD [OF that] by blast
  have "similar (JObject kvs') (JObject b)"
  proof (rule similar.members)
    show "keys_of kvs' = keys_of b"
    proof (intro set_eqI)
      fix k
      show "k \<in> keys_of kvs' \<longleftrightarrow> k \<in> keys_of b"
        using there [of k] unfolding keys_of_map kvs' member_of_def by (cases "map_of b k") auto
    qed
    show "similar v w" if "map_of kvs' k = Some v" "map_of b k = Some w" for k v w
      using that there [OF that(2)] by (simp add: kvs' member_of_def)
  qed (rule rs(2))
  with eq es(2,6) rs(1) show ?thesis
    by (intro deliversI [of _ _ _ _ "es @ ?rs" "JObject kvs'"])
      (auto simp: apply_edits_append no_add_here_def)
qed

lemma patchable_delivers:
  "patchable v w \<Longrightarrow> \<forall>t \<in> set toks. t \<noteq> [] \<Longrightarrow> delivers v w toks patch"
proof (induction arbitrary: toks patch rule: patchable.induct)
  case (from_null v)
  show ?case by (rule delivers_replaced [where same = "v = JNull" and k = OpAdd]) auto
next
  case (from_bool b v)
  show ?case
    by (rule delivers_replaced [where same = "matchesScalar (JBool b) v" and k = OpReplace])
      (auto elim: matchesScalar.elims)
next
  case (from_number n v)
  show ?case
    by (rule delivers_replaced [where same = "matchesScalar (JNumber n) v" and k = OpReplace])
      (auto elim: matchesScalar.elims)
next
  case (from_string s v)
  show ?case
    by (rule delivers_replaced [where same = "matchesScalar (JString s) v" and k = OpReplace])
      (auto elim: matchesScalar.elims)
next
  case (from_array w vs)
  then show ?case
    by (intro delivers_replaced [where same = False and k = OpReplace]) (auto split: json.splits)
next
  case (array vs ws toks patch)
  then have "list_all2 (\<lambda>v w. (\<forall>toks patch. (\<forall>t \<in> set toks. t \<noteq> []) \<longrightarrow> delivers v w toks patch) \<and>
      (v = JNull \<longrightarrow> w = JNull)) vs ws"
    by (auto elim: list_all2_mono)
  from handleElements_delivers [OF this array.prems, of 0 patch] obtain es vs' where
    "handleElements vs ws (path_of toks) 0 patch = Returns (patch @ map (absolute toks) es)"
    "\<And>pre. length pre = 0 \<Longrightarrow> apply_edits es (JArray (pre @ vs)) = Some (JArray (pre @ vs'))"
    "list_all2 similar vs' ws" "no_add_here es"
    by blast
  moreover have "length vs = length ws" using array(1) by (rule list_all2_lengthD)
  ultimately show ?case
    by (intro deliversI [of _ _ _ _ es "JArray vs'"]) (auto intro: similar.elements)
next
  case (strings xs ys x)
  then show ?case by (rule delivers_strings)
next
  case (object a b)
  then show ?case by (intro delivers_object) auto
qed

section \<open>Reading a patched document\<close>

inductive_cases similar_to_stringE: "similar v (JString s)"

lemma similar_to_string: "similar v (JString s) \<Longrightarrow> v = JString s"
  by (auto elim: similar_to_stringE)

lemma similar_to_strings:
  assumes "similar v (JArray (map JString ys))"
  obtains zs where "v = JArray (map JString zs)" "set zs = set ys"
  using assms
proof (cases rule: similar.cases)
  case same
  then show thesis by (intro that [of ys]) simp_all
next
  case (elements vs)
  then have "vs = map JString ys"
    by (intro nth_equalityI) (auto simp: list_all2_conv_all_nth intro: similar_to_string)
  with elements(1) show thesis by (intro that [of ys]) simp_all
next
  case (string_set xs ys')
  have "ys' = ys" using string_set(2) by (metis json.inject(3,4) list.inj_map_strong)
  with string_set show thesis by (intro that [of xs]) simp_all
qed

lemma similar_member:
  assumes "similar v (JObject b)" "map_of b k = Some w"
  obtains kvs v' where "v = JObject kvs" "map_of kvs k = Some v'" "similar v' w"
  using assms(1)
proof (cases rule: similar.cases)
  case same
  with assms(2) show thesis by (intro that [of b w]) (auto intro: similar.same)
next
  case (members a)
  with assms(2) have "map_of a k \<noteq> None"
    using keys_of_map [of k a] keys_of_map [of k b] by simp
  with members assms(2) show thesis by (auto intro: that)
qed

section \<open>Properties\<close>


definition old_doc :: "(string \<times> int json) list" where
  "old_doc = [(''kind'', JString ''VirtualMachine''), (''metadata'', JObject [(''name'', JString ''vm'')]),
     (''color'', JNull)]"

definition new_doc :: "(string \<times> int json) list" where
  "new_doc = [(''metadata'', JObject [(''finalizers'', JArray [JString ''virtualmachines.ci.openshift.io'']),
     (''name'', JString ''vm'')]), (''kind'', JString ''VirtualMachine'')]"

lemma sample_patchable: "patchable (JObject old_doc) (JObject new_doc)"
proof -
  have inner: "patchable (JObject [(''name'', JString ''vm'')])
      (JObject [(''finalizers'', JArray [JString ''virtualmachines.ci.openshift.io'']), (''name'', JString ''vm'')])"
    by (rule patchable.object) (auto simp: keys_of_def split: if_splits intro: patchable.intros)
  show ?thesis
    unfolding old_doc_def new_doc_def
    by (rule patchable.object) (auto simp: keys_of_def split: if_splits intro: patchable.intros inner)
qed


end
