(* ===== verification/Json_Text.thy ===== *)
theory Json_Text
  imports Json_Patch
begin

text \<open>
  JSON as text: what \<open>encoding/json\<close> writes for a document and for a patch, whose operations print
  themselves with \<open>MarshalJSON\<close>, and a reader of JSON, which says what such text means and which texts
  are valid. Strings are bytes in UTF-8, as decoding a document leaves them; how a number is written
  is a parameter.
\<close>

section \<open>Characters\<close>

abbreviation dquote :: char where "dquote \<equiv> CHR 0x22"
abbreviation backslash :: char where "backslash \<equiv> CHR 0x5C"

definition json_space :: "char \<Rightarrow> bool" where
  "json_space c = (c \<in> {CHR '' '', CHR 0x09, CHR 0x0A, CHR 0x0D})"

text \<open>\<open>\u\<close> with four digits, for a code below 256.\<close>

definition u_escape :: "char \<Rightarrow> string" where
  "u_escape c = backslash # ''u00'' @ [hex_digit (of_char c div 16), hex_digit (of_char c mod 16)]"

section \<open>Writing\<close>

text \<open>
  \<open>encodeState.string\<close> with the escaping of HTML: what is no printing ASCII character, and what HTML
  or JavaScript would mistake, is escaped. U+2028 and U+2029 are the bytes E2 80 A8 and E2 80 A9.
\<close>

definition line_separator :: "string \<Rightarrow> bool" where
  "line_separator s = (take 3 s = [CHR 0xE2, CHR 0x80, CHR 0xA8] \<or> take 3 s = [CHR 0xE2, CHR 0x80, CHR 0xA9])"

definition separator_escape :: "string \<Rightarrow> string" where
  "separator_escape s = backslash # ''u202'' @ [hex_digit (of_char (s ! 2) mod 16)]"

fun escaped :: "string \<Rightarrow> string" where
  "escaped [] = []"
| "escaped (c # cs) =
     (if c = dquote \<or> c = backslash then backslash # c # escaped cs
      else if c = CHR 0x0A then backslash # CHR ''n'' # escaped cs
      else if c = CHR 0x0D then backslash # CHR ''r'' # escaped cs
      else if c = CHR 0x09 then backslash # CHR ''t'' # escaped cs
      else if c < CHR '' '' \<or> c \<in> {CHR ''<'', CHR ''>'', CHR ''&''} then u_escape c @ escaped cs
      else if line_separator (c # cs) then separator_escape (c # cs) @ escaped (drop 2 cs)
      else c # escaped cs)"

definition marshal_string :: "string \<Rightarrow> string" where
  "marshal_string s = dquote # escaped s @ [dquote]"

fun separated :: "string list \<Rightarrow> string" where
  "separated [] = []"
| "separated [s] = s"
| "separated (s # t # ss) = s @ '','' @ separated (t # ss)"

text \<open>A map is written in the order of its keys.\<close>

function marshal :: "('n \<Rightarrow> string) \<Rightarrow> 'n json \<Rightarrow> string" where
  "marshal fmt JNull = ''null''"
| "marshal fmt (JBool b) = (if b then ''true'' else ''false'')"
| "marshal fmt (JNumber n) = fmt n"
| "marshal fmt (JString s) = marshal_string s"
| "marshal fmt (JArray vs) = ''['' @ separated (map (marshal fmt) vs) @ '']''"
| "marshal fmt (JObject kvs) =
     ''{'' @ separated (map (\<lambda>(k, v). marshal_string k @ '':'' @ marshal fmt v) (sort_key fst kvs)) @ ''}''"
  by pat_completeness auto
termination
  by (relation "measure (\<lambda>(fmt, v). size v)") (auto simp: size_member less_Suc_eq_le size_list_estimation')

section \<open>Reading\<close>

fun skip_space :: "string \<Rightarrow> string" where
  "skip_space [] = []"
| "skip_space (c # cs) = (if json_space c then skip_space cs else c # cs)"

definition hex_value :: "char \<Rightarrow> nat option" where
  "hex_value c =
     (if is_digit c then Some (of_char c - of_char (CHR ''0''))
      else if CHR ''a'' \<le> c \<and> c \<le> CHR ''f'' then Some (10 + of_char c - of_char (CHR ''a''))
      else if CHR ''A'' \<le> c \<and> c \<le> CHR ''F'' then Some (10 + of_char c - of_char (CHR ''A''))
      else None)"

definition hex4 :: "string \<Rightarrow> nat option" where
  "hex4 s =
     (case map hex_value s of
        [Some a, Some b, Some c, Some d] \<Rightarrow> Some (((a * 16 + b) * 16 + c) * 16 + d)
      | _ \<Rightarrow> None)"

definition utf8 :: "nat \<Rightarrow> string" where
  "utf8 n =
     (if n < 128 then [char_of n]
      else if n < 2048 then [char_of (192 + n div 64), char_of (128 + n mod 64)]
      else if n < 65536 then [char_of (224 + n div 4096), char_of (128 + n div 64 mod 64), char_of (128 + n mod 64)]
      else [char_of (240 + n div 262144), char_of (128 + n div 4096 mod 64), char_of (128 + n div 64 mod 64),
        char_of (128 + n mod 64)])"

text \<open>
  A string after its opening quote. Half of a surrogate pair that stands alone is read as U+FFFD.
\<close>

definition simple_escape :: "char \<Rightarrow> char option" where
  "simple_escape c =
     (if c \<in> {dquote, backslash, CHR ''/''} then Some c
      else if c = CHR ''b'' then Some (CHR 0x08)
      else if c = CHR ''f'' then Some (CHR 0x0C)
      else if c = CHR ''n'' then Some (CHR 0x0A)
      else if c = CHR ''r'' then Some (CHR 0x0D)
      else if c = CHR ''t'' then Some (CHR 0x09)
      else None)"

definition read_code :: "string \<Rightarrow> (string \<times> string) option" where
  "read_code s =
     (if length s < 4 then None
      else case hex4 (take 4 s) of
        None \<Rightarrow> None
      | Some n \<Rightarrow>
          if 0xD800 \<le> n \<and> n < 0xDC00 then
            (case (if take 2 (drop 4 s) = [backslash, CHR ''u''] then hex4 (take 4 (drop 6 s)) else None) of
               Some m \<Rightarrow>
                 if 0xDC00 \<le> m \<and> m < 0xE000 then
                   Some (utf8 (0x10000 + (n - 0xD800) * 1024 + (m - 0xDC00)), drop 10 s)
                 else Some (utf8 0xFFFD, drop 4 s)
             | None \<Rightarrow> Some (utf8 0xFFFD, drop 4 s))
          else if 0xDC00 \<le> n \<and> n < 0xE000 then Some (utf8 0xFFFD, drop 4 s)
          else Some (utf8 n, drop 4 s))"

lemma read_code_shorter: "read_code s = Some (bs, r) \<Longrightarrow> length r < length s"
  by (auto simp: read_code_def split: if_splits option.splits)

function read_string :: "string \<Rightarrow> (string \<times> string) option" where
  "read_string [] = None"
| "read_string (c # cs) =
     (if c = dquote then Some ([], cs)
      else if c = backslash then
        (case cs of
           [] \<Rightarrow> None
         | e # r \<Rightarrow>
             (if e = CHR ''u'' then
                (case read_code r of
                   None \<Rightarrow> None
                 | Some (bs, r') \<Rightarrow> map_option (\<lambda>(s, t). (bs @ s, t)) (read_string r'))
              else
                (case simple_escape e of
                   None \<Rightarrow> None
                 | Some b \<Rightarrow> map_option (\<lambda>(s, t). (b # s, t)) (read_string r))))
      else if c < CHR '' '' then None
      else map_option (\<lambda>(s, t). (c # s, t)) (read_string cs))"
  by pat_completeness auto
termination
  by (relation "measure length") (auto dest: read_code_shorter)

text \<open>The literal of a number: the longest that is one, unless a fraction or an exponent lacks its digits.\<close>

definition scan_digits :: "string \<Rightarrow> (string \<times> string) option" where
  "scan_digits s =
     (let ds = takeWhile is_digit s in if ds = [] then None else Some (ds, dropWhile is_digit s))"

fun scan_sign :: "char set \<Rightarrow> string \<Rightarrow> string \<times> string" where
  "scan_sign signs [] = ([], [])"
| "scan_sign signs (c # cs) = (if c \<in> signs then ([c], cs) else ([], c # cs))"

definition scan_integer :: "string \<Rightarrow> (string \<times> string) option" where
  "scan_integer s =
     (case s of
        [] \<Rightarrow> None
      | c # cs \<Rightarrow> if c = CHR ''0'' then Some ([c], cs) else scan_digits s)"

definition scan_fraction :: "string \<Rightarrow> (string \<times> string) option" where
  "scan_fraction s =
     (case s of
        [] \<Rightarrow> Some ([], [])
      | c # cs \<Rightarrow> if c = CHR ''.'' then map_option (\<lambda>(ds, r). (c # ds, r)) (scan_digits cs) else Some ([], s))"

definition scan_exponent :: "string \<Rightarrow> (string \<times> string) option" where
  "scan_exponent s =
     (case s of
        [] \<Rightarrow> Some ([], [])
      | c # cs \<Rightarrow>
          if c \<in> {CHR ''e'', CHR ''E''} then
            (case scan_sign {CHR ''+'', CHR ''-''} cs of
               (sg, r) \<Rightarrow> map_option (\<lambda>(ds, r'). (c # sg @ ds, r')) (scan_digits r))
          else Some ([], s))"

definition scan_number :: "string \<Rightarrow> (string \<times> string) option" where
  "scan_number s =
     (case scan_sign {CHR ''-''} s of
        (sg, r0) \<Rightarrow>
     (case scan_integer r0 of None \<Rightarrow> None | Some (i, r1) \<Rightarrow>
     (case scan_fraction r1 of None \<Rightarrow> None | Some (f, r2) \<Rightarrow>
     (case scan_exponent r2 of None \<Rightarrow> None | Some (e, r3) \<Rightarrow> Some (sg @ i @ f @ e, r3)))))"

fun literal :: "string \<Rightarrow> 'a \<Rightarrow> string \<Rightarrow> ('a \<times> string) option" where
  "literal w v s = (if take (length w) s = w then Some (v, drop (length w) s) else None)"

text \<open>
  Values, with fuel for the nesting, which the length of the text bounds. A number is its literal.
\<close>

fun read_value :: "nat \<Rightarrow> string \<Rightarrow> (string json \<times> string) option"
  and read_elements :: "nat \<Rightarrow> string \<Rightarrow> (string json list \<times> string) option"
  and read_members :: "nat \<Rightarrow> string \<Rightarrow> ((string \<times> string json) list \<times> string) option" where
  "read_value 0 s = None"
| "read_value (Suc f) s =
     (case skip_space s of
        [] \<Rightarrow> None
      | c # cs \<Rightarrow>
          if c = dquote then map_option (\<lambda>(t, r). (JString t, r)) (read_string cs)
          else if c = CHR ''['' then
            (case skip_space cs of
               [] \<Rightarrow> None
             | d # ds \<Rightarrow>
                 if d = CHR '']'' then Some (JArray [], ds)
                 else map_option (\<lambda>(vs, r). (JArray vs, r)) (read_elements f cs))
          else if c = CHR ''{'' then
            (case skip_space cs of
               [] \<Rightarrow> None
             | d # ds \<Rightarrow>
                 if d = CHR ''}'' then Some (JObject [], ds)
                 else map_option (\<lambda>(kvs, r). (JObject kvs, r)) (read_members f cs))
          else if c = CHR ''n'' then literal ''null'' JNull (c # cs)
          else if c = CHR ''t'' then literal ''true'' (JBool True) (c # cs)
          else if c = CHR ''f'' then literal ''false'' (JBool False) (c # cs)
          else
            (case scan_number (c # cs) of
               None \<Rightarrow> None
             | Some (num, r) \<Rightarrow> Some (JNumber num, r)))"
| "read_elements 0 s = None"
| "read_elements (Suc f) s =
     (case read_value f s of
        None \<Rightarrow> None
      | Some (v, r) \<Rightarrow>
          (case skip_space r of
             [] \<Rightarrow> None
           | c # cs \<Rightarrow>
               if c = CHR '']'' then Some ([v], cs)
               else if c = CHR '','' then map_option (\<lambda>(vs, r). (v # vs, r)) (read_elements f cs)
               else None))"
| "read_members 0 s = None"
| "read_members (Suc f) s =
     (case skip_space s of
        [] \<Rightarrow> None
      | q # qs \<Rightarrow>
          if q \<noteq> dquote then None
          else
            (case read_string qs of
               None \<Rightarrow> None
             | Some (k, r) \<Rightarrow>
                 (case skip_space r of
                    [] \<Rightarrow> None
                  | c # cs \<Rightarrow>
                      if c \<noteq> CHR '':'' then None
                      else
                        (case read_value f cs of
                           None \<Rightarrow> None
                         | Some (v, r) \<Rightarrow>
                             (case skip_space r of
                                [] \<Rightarrow> None
                              | d # ds \<Rightarrow>
                                  if d = CHR ''}'' then Some ([(k, v)], ds)
                                  else if d = CHR '','' then
                                    map_option (\<lambda>(kvs, r). ((k, v) # kvs, r)) (read_members f ds)
                                  else None)))))"

definition read_json :: "string \<Rightarrow> string json option" where
  "read_json s =
     (case read_value (Suc (length s)) s of
        None \<Rightarrow> None
      | Some (v, r) \<Rightarrow> if skip_space r = [] then Some v else None)"

text \<open>A text is valid JSON when it can be read.\<close>

definition valid_json :: "string \<Rightarrow> bool" where
  "valid_json s = (read_json s \<noteq> None)"

section \<open>Patches\<close>

fun op_name :: "op_kind \<Rightarrow> string" where
  "op_name OpAdd = ''add''"
| "op_name OpReplace = ''replace''"
| "op_name OpRemove = ''remove''"

text \<open>\<open>MarshalJSON\<close> of an operation. The path is written as it is.\<close>

definition MarshalJSON :: "('n \<Rightarrow> string) \<Rightarrow> 'n patch_op \<Rightarrow> string" where
  "MarshalJSON fmt j =
     ''{'' @ (dquote # ''op'' @ dquote # '':'' @ dquote # op_name (Operation j) @ [dquote]) @
     ('','' @ dquote # ''path'' @ dquote # '':'' @ dquote # Path j @ [dquote]) @
     (if Value j \<noteq> JNull \<or> Operation j = OpReplace \<or> Operation j = OpAdd then
        '','' @ dquote # ''value'' @ dquote # '':'' @ marshal fmt (Value j)
      else []) @ ''}''"

text \<open>\<open>compact\<close> drops white space outside strings and escapes as above, in a text that is valid.\<close>

fun compact :: "bool \<Rightarrow> string \<Rightarrow> string" where
  "compact quoted [] = []"
| "compact quoted (c # cs) =
     (if json_space c \<and> \<not> quoted then compact quoted cs
      else if c \<in> {CHR ''<'', CHR ''>'', CHR ''&''} then u_escape c @ compact quoted cs
      else if line_separator (c # cs) then separator_escape (c # cs) @ compact quoted (drop 2 cs)
      else if c = dquote then c # compact (\<not> quoted) cs
      else if c = backslash \<and> quoted then c # take 1 cs @ compact quoted (drop 1 cs)
      else c # compact quoted cs)"

definition marshaler_error :: "string \<Rightarrow> go_error" where
  "marshaler_error text =
     ErrorString (''json: error calling MarshalJSON for type jsonpatch.JsonPatchOperation: '' @ text)"

text \<open>The text of a syntax error is a parameter.\<close>

definition marshal_op :: "(string \<Rightarrow> string) \<Rightarrow> ('n \<Rightarrow> string) \<Rightarrow> 'n patch_op \<Rightarrow> string \<times> go_error option" where
  "marshal_op descr fmt j =
     (let b = MarshalJSON fmt j
      in if valid_json b then (compact False b, None) else ([], Some (marshaler_error (descr b))))"

fun marshal_ops :: "(string \<Rightarrow> string) \<Rightarrow> ('n \<Rightarrow> string) \<Rightarrow> 'n patch_op list \<Rightarrow> string list \<times> go_error option" where
  "marshal_ops descr fmt [] = ([], None)"
| "marshal_ops descr fmt (j # js) =
     (case marshal_op descr fmt j of
        (_, Some err) \<Rightarrow> ([], Some err)
      | (t, None) \<Rightarrow>
          (case marshal_ops descr fmt js of
             (_, Some err) \<Rightarrow> ([], Some err)
           | (ts, None) \<Rightarrow> (t # ts, None)))"

text \<open>\<open>Encode\<close> ends the text with a newline, and writes nothing when it fails.\<close>

definition Encode_patch :: "(string \<Rightarrow> string) \<Rightarrow> ('n \<Rightarrow> string) \<Rightarrow> 'n patch_op list \<Rightarrow> string \<times> go_error option" where
  "Encode_patch descr fmt opers =
     (case marshal_ops descr fmt opers of
        (_, Some err) \<Rightarrow> ([], Some err)
      | (ts, None) \<Rightarrow> (''['' @ separated ts @ '']'' @ [CHR 0x0A], None))"

end
