(* ===== verification/Json_Text_Correct.thy ===== *)
theory Json_Text_Correct
  imports Json_Text
begin

text \<open>
  What is written is read back: strings with all their escapes, documents up to the order of the
  members of objects, which writing sorts, and patches whose paths need no escapes. The locale
  \<open>number_text\<close> says what the writing of numbers has to deliver.
\<close>

section \<open>Strings\<close>

lemma all_below_16: "n < 16 \<Longrightarrow> (\<And>m. m \<in> set [0..<16] \<Longrightarrow> P m) \<Longrightarrow> P n"
  by simp

lemma hex_digits: "map hex_digit [0..<16] = ''0123456789abcdef''"
  by (simp add: upt_rec hex_digit_def char_of_eq_iff)

lemma hex_digit_nth: "n < 16 \<Longrightarrow> hex_digit n = ''0123456789abcdef'' ! n"
  by (simp add: hex_digits [symmetric])

lemma hex_value_char: "n < 16 \<Longrightarrow> hex_value (hex_digit n) = Some n"
proof (erule all_below_16)
  have "\<forall>m \<in> set [0..<16]. hex_value (''0123456789abcdef'' ! m) = Some m" by code_simp
  then show "\<And>m. m \<in> set [0..<16] \<Longrightarrow> hex_value (hex_digit m) = Some m" by (simp add: hex_digit_nth)
qed

lemma hex_value_digit: "hex_value (CHR ''0'') = Some 0" "hex_value (CHR ''2'') = Some 2"
  "hex_value (CHR ''8'') = Some 8" "hex_value (CHR ''9'') = Some 9"
  by code_simp+

lemma read_u_escape:
  assumes "of_char c < (128 :: nat)"
  shows "read_string (u_escape c @ r) = map_option (\<lambda>(s, t). (c # s, t)) (read_string r)"
proof -
  let ?n = "of_char c :: nat"
  have "?n div 16 < 16" using assms by simp
  then have "hex4 [CHR ''0'', CHR ''0'', hex_digit (?n div 16), hex_digit (?n mod 16)] = Some ?n"
    by (simp add: hex4_def hex_value_char hex_value_digit)
  then have "read_code (''00'' @ [hex_digit (?n div 16), hex_digit (?n mod 16)] @ r) = Some ([c], r)"
    using assms by (simp add: read_code_def utf8_def)
  then show ?thesis by (simp add: u_escape_def)
qed

lemma read_separator_escape:
  assumes "line_separator (c # cs)"
  shows "read_string (separator_escape (c # cs) @ r) = map_option (\<lambda>(s, t). (take 3 (c # cs) @ s, t)) (read_string r)"
proof -
  have "char_of (226 :: nat) = CHR 0xE2" "char_of (128 :: nat) = CHR 0x80"
    "char_of (168 :: nat) = CHR 0xA8" "char_of (169 :: nat) = CHR 0xA9"
    by (simp_all add: char_of_def bit_iff_odd)
  then have codes: "utf8 0x2028 = [CHR 0xE2, CHR 0x80, CHR 0xA8]" "utf8 0x2029 = [CHR 0xE2, CHR 0x80, CHR 0xA9]"
    by (simp_all add: utf8_def)
  have digits: "hex4 ''2028'' = Some 0x2028" "hex4 ''2029'' = Some 0x2029"
    by (simp_all add: hex4_def hex_value_digit)
  have chars: "hex_digit (of_char (CHR 0xA8) mod 16) = CHR ''8''" "hex_digit (of_char (CHR 0xA9) mod 16) = CHR ''9''"
    by (simp_all add: hex_digit_nth)
  have "read_code (''2028'' @ r) = Some ([CHR 0xE2, CHR 0x80, CHR 0xA8], r)"
    "read_code (''2029'' @ r) = Some ([CHR 0xE2, CHR 0x80, CHR 0xA9], r)"
    using codes digits by (simp_all add: read_code_def)
  moreover obtain a b cs' where "cs = a # b # cs'" using assms by (cases cs; cases "tl cs") (auto simp: line_separator_def)
  ultimately show ?thesis
    using assms chars by (auto simp: line_separator_def separator_escape_def)
qed

lemma small_char: "c < CHR '' '' \<or> c \<in> {CHR ''<'', CHR ''>'', CHR ''&''} \<Longrightarrow> of_char c < (128 :: nat)"
  by (auto simp: less_char_def)

text \<open>The four ways a character is written.\<close>

lemma escaped_Cons_cases:
  obtains (pair) d where "escaped (c # cs) = backslash # d # escaped cs" "simple_escape d = Some c" "d \<noteq> CHR ''u''"
  | (small) "escaped (c # cs) = u_escape c @ escaped cs" "c < CHR '' '' \<or> c \<in> {CHR ''<'', CHR ''>'', CHR ''&''}"
  | (separator) "escaped (c # cs) = separator_escape (c # cs) @ escaped (drop 2 cs)" "line_separator (c # cs)"
  | (plain) "escaped (c # cs) = c # escaped cs" "c \<notin> {dquote, backslash, CHR ''<'', CHR ''>'', CHR ''&''}"
      "\<not> c < CHR '' ''" "\<not> line_separator (c # cs)"
proof -
  consider "c = dquote \<or> c = backslash" | "c = CHR 0x0A" | "c = CHR 0x0D" | "c = CHR 0x09"
    | "c \<notin> {dquote, backslash, CHR 0x0A, CHR 0x0D, CHR 0x09}" "c < CHR '' '' \<or> c \<in> {CHR ''<'', CHR ''>'', CHR ''&''}"
    | "c \<notin> {dquote, backslash, CHR 0x0A, CHR 0x0D, CHR 0x09}" "\<not> (c < CHR '' '' \<or> c \<in> {CHR ''<'', CHR ''>'', CHR ''&''})"
      "line_separator (c # cs)"
    | "c \<notin> {dquote, backslash, CHR 0x0A, CHR 0x0D, CHR 0x09}" "\<not> (c < CHR '' '' \<or> c \<in> {CHR ''<'', CHR ''>'', CHR ''&''})"
      "\<not> line_separator (c # cs)"
    by blast
  then show thesis
  proof cases
    case 1
    then show thesis by (intro pair [of c]) (auto simp: simple_escape_def)
  next
    case 2
    then show thesis by (intro pair [of "CHR ''n''"]) (simp_all add: simple_escape_def)
  next
    case 3
    then show thesis by (intro pair [of "CHR ''r''"]) (simp_all add: simple_escape_def)
  next
    case 4
    then show thesis by (intro pair [of "CHR ''t''"]) (simp_all add: simple_escape_def)
  next
    case 5
    then show thesis by (intro small) simp_all
  next
    case 6
    then show thesis by (intro separator) simp_all
  next
    case 7
    then show thesis by (intro plain) simp_all
  qed
qed

lemma read_escaped: "read_string (escaped s @ dquote # r) = Some (s, r)"
proof (induction "length s" arbitrary: s rule: less_induct)
  case less
  show ?case
  proof (cases s)
    case (Cons c cs)
    have cs: "read_string (escaped cs @ dquote # r) = Some (cs, r)" "read_string (escaped (drop 2 cs) @ dquote # r) = Some (drop 2 cs, r)"
      using less Cons by simp_all
    show ?thesis unfolding Cons
    proof (cases rule: escaped_Cons_cases [of c cs])
      case (pair d)
      then show "read_string (escaped (c # cs) @ dquote # r) = Some (c # cs, r)" using cs(1) by (simp del: escaped.simps)
    next
      case small
      then show "read_string (escaped (c # cs) @ dquote # r) = Some (c # cs, r)"
        using cs(1) read_u_escape [OF small_char [OF small(2)]] by (simp del: escaped.simps)
    next
      case separator
      have "take 3 (c # cs) @ drop 2 cs = c # cs"
        by (metis append_take_drop_id drop_Suc_Cons numeral_3_eq_3 numeral_2_eq_2)
      then show "read_string (escaped (c # cs) @ dquote # r) = Some (c # cs, r)"
        unfolding separator(1) append_assoc read_separator_escape [OF separator(2)] cs(2) by simp
    next
      case plain
      then show "read_string (escaped (c # cs) @ dquote # r) = Some (c # cs, r)" using cs(1) by (simp del: escaped.simps)
    qed
  qed simp
qed

section \<open>Documents\<close>

text \<open>A document as it is read back: with the members of its objects in order.\<close>

function canonical :: "'n json \<Rightarrow> 'n json" where
  "canonical (JArray vs) = JArray (map canonical vs)"
| "canonical (JObject kvs) = JObject (map (\<lambda>(k, v). (k, canonical v)) (sort_key fst kvs))"
| "canonical JNull = JNull"
| "canonical (JBool b) = JBool b"
| "canonical (JNumber n) = JNumber n"
| "canonical (JString s) = JString s"
  by pat_completeness auto
termination
  by (relation "measure size") (auto simp: size_member less_Suc_eq_le size_list_estimation')

lemma insort_members: "insort_key fst (map_prod id f x) (map (map_prod id f) kvs) = map (map_prod id f) (insort_key fst x kvs)"
  by (induction kvs) simp_all

lemma sort_members: "sort_key fst (map (map_prod id f) kvs) = map (map_prod id f) (sort_key fst kvs)"
  by (induction kvs) (simp_all add: insort_members [unfolded id_def])

text \<open>A number is over where a value may be over.\<close>

definition delimited :: "string \<Rightarrow> bool" where
  "delimited r = (r = [] \<or> hd r \<in> {CHR '','', CHR '']'', CHR ''}'', CHR 0x0A})"

text \<open>A text that is read as a value, whatever follows, with fuel for its length.\<close>

definition reads :: "string \<Rightarrow> string json \<Rightarrow> bool" where
  "reads t u =
     (t \<noteq> [] \<and> \<not> json_space (hd t) \<and> hd t \<noteq> CHR '']'' \<and>
      (\<forall>f r. length t < f \<longrightarrow> delimited r \<longrightarrow> read_value f (t @ r) = Some (u, r)))"

lemma reads_json: "reads t u \<Longrightarrow> read_json t = Some u"
  unfolding reads_def read_json_def by (auto simp: delimited_def dest: spec [of _ "Suc (length t)"] spec [of _ "[]"])

lemma reads_skip: "reads t u \<Longrightarrow> skip_space (t @ r) = t @ r"
  by (cases t) (auto simp: reads_def)

lemma separated_starts: "ts \<noteq> [] \<Longrightarrow> hd ts \<noteq> [] \<Longrightarrow> separated ts \<noteq> [] \<and> hd (separated ts) = hd (hd ts)"
  by (cases ts rule: separated.cases) simp_all

text \<open>Elements and members one after the other.\<close>

lemma read_elements_ok:
  assumes "list_all2 reads ts us" "ts \<noteq> []" "Suc (length (separated ts)) < f"
  shows "read_elements f (separated ts @ CHR '']'' # r) = Some (us, r)"
  using assms
proof (induction ts us arbitrary: f rule: list_all2_induct)
  case (Cons t ts u us)
  obtain f' where f: "f = Suc f'" using Cons.prems(2) by (cases f) simp_all
  have t: "read_value f' (t @ r') = Some (u, r')" if "delimited r'" "length t < f'" for r'
    using Cons.hyps(1) that by (simp add: reads_def)
  show ?case
  proof (cases ts)
    case Nil
    then show ?thesis
      using Cons.hyps(2) Cons.prems(2) f t [of "CHR '']'' # r"] by (simp add: json_space_def delimited_def)
  next
    case ts: (Cons t' ts')
    have "read_elements f' (separated ts @ CHR '']'' # r) = Some (us, r)"
      using Cons.prems f ts by (intro Cons.IH) simp_all
    then show ?thesis
      using Cons.prems(2) f ts t [of "CHR '','' # separated ts @ CHR '']'' # r"] by (simp add: json_space_def delimited_def)
  qed
qed simp

lemma reads_array:
  assumes "list_all2 reads ts us"
  shows "reads (''['' @ separated ts @ '']'') (JArray us)"
proof -
  have "read_value f (''['' @ separated ts @ CHR '']'' # r) = Some (JArray us, r)"
    if len: "length (''['' @ separated ts @ '']'') < f" for f r
  proof -
    obtain f' where f: "f = Suc f'" using len by (cases f) simp_all
    show ?thesis
    proof (cases "ts = []")
      case True
      then show ?thesis using assms f by (simp add: json_space_def)
    next
      case False
      then have "reads (hd ts) (hd us)" using assms by (cases ts; cases us) auto
      then obtain c t where t: "separated ts = c # t" "\<not> json_space c" "c \<noteq> CHR '']''"
        using separated_starts [OF False] by (cases "separated ts") (auto simp: reads_def)
      have "read_elements f' (separated ts @ CHR '']'' # r) = Some (us, r)"
        using len f by (intro read_elements_ok [OF assms False]) simp
      then show ?thesis using f t by (simp add: json_space_def)
    qed
  qed
  then show ?thesis by (simp add: reads_def json_space_def)
qed

definition member_text :: "string \<times> string \<Rightarrow> string" where
  "member_text kt = marshal_string (fst kt) @ '':'' @ snd kt"

lemma read_members_ok:
  assumes "list_all2 (\<lambda>kt ku. fst kt = fst ku \<and> reads (snd kt) (snd ku)) kts kus" "kts \<noteq> []"
    "Suc (length (separated (map member_text kts))) < f"
  shows "read_members f (separated (map member_text kts) @ CHR ''}'' # r) = Some (kus, r)"
  using assms
proof (induction kts kus arbitrary: f rule: list_all2_induct)
  case (Cons kt kts ku kus)
  obtain f' where f: "f = Suc f'" using Cons.prems(2) by (cases f) simp_all
  obtain k t u where kt: "kt = (k, t)" "ku = (k, u)" using Cons.hyps(1) by (cases kt; cases ku) auto
  have t: "read_value f' (t @ r') = Some (u, r')" if "delimited r'" "length t < f'" for r'
    using Cons.hyps(1) that kt by (simp add: reads_def)
  have key: "member_text (k, t) @ r' = dquote # escaped k @ dquote # CHR '':'' # t @ r'" for r'
    by (simp add: member_text_def marshal_string_def)
  have len: "length t < length (member_text kt)" by (simp add: member_text_def kt)
  show ?case
  proof (cases kts)
    case Nil
    then show ?thesis
      using Cons.hyps(2) Cons.prems(2) f len kt t [of "CHR ''}'' # r"]
      by (simp add: json_space_def delimited_def key read_escaped)
  next
    case kts: (Cons kt' kts')
    have "read_members f' (separated (map member_text kts) @ CHR ''}'' # r) = Some (kus, r)"
      using Cons.prems f kts by (intro Cons.IH) simp_all
    then show ?thesis
      using Cons.prems(2) f kts len kt t [of "CHR '','' # separated (map member_text kts) @ CHR ''}'' # r"]
      by (simp add: json_space_def delimited_def key read_escaped)
  qed
qed simp

lemma reads_object:
  assumes "list_all2 (\<lambda>kt ku. fst kt = fst ku \<and> reads (snd kt) (snd ku)) kts kus"
  shows "reads (''{'' @ separated (map member_text kts) @ ''}'') (JObject kus)"
proof -
  have "read_value f (''{'' @ separated (map member_text kts) @ CHR ''}'' # r) = Some (JObject kus, r)"
    if len: "length (''{'' @ separated (map member_text kts) @ ''}'') < f" for f r
  proof -
    obtain f' where f: "f = Suc f'" using len by (cases f) simp_all
    show ?thesis
    proof (cases "kts = []")
      case True
      then show ?thesis using assms f by (simp add: json_space_def)
    next
      case False
      then have ne: "hd (map member_text kts) \<noteq> []" "hd (hd (map member_text kts)) = dquote"
        by (simp_all add: hd_map member_text_def marshal_string_def)
      then obtain t where t: "separated (map member_text kts) = dquote # t"
        using separated_starts [of "map member_text kts"] False by (cases "separated (map member_text kts)") auto
      have "read_members f' (separated (map member_text kts) @ CHR ''}'' # r) = Some (kus, r)"
        using len f by (intro read_members_ok [OF assms False]) simp
      then show ?thesis using f t by (simp add: json_space_def)
    qed
  qed
  then show ?thesis by (simp add: reads_def json_space_def)
qed

lemma reads_string:
  assumes "\<And>r. read_string (t @ dquote # r) = Some (s, r)"
  shows "reads (dquote # t @ [dquote]) (JString s)"
proof -
  have "read_value f (dquote # t @ dquote # r) = Some (JString s, r)" if "0 < f" for f r
    using that assms by (cases f) (simp_all add: json_space_def)
  then show ?thesis by (simp add: reads_def json_space_def)
qed

lemma reads_valid: "reads t u \<Longrightarrow> valid_json t"
  by (simp add: valid_json_def reads_json)

section \<open>Numbers\<close>

locale number_text =
  fixes fmt :: "'n \<Rightarrow> string"
  assumes number_chars: "fmt n \<noteq> []" "set (fmt n) \<subseteq> set ''0123456789+-.eE''"
    and number_scans: "delimited r \<Longrightarrow> scan_number (fmt n @ r) = Some (fmt n, r)"
begin

lemma number_hd:
  obtains c cs where "fmt n = c # cs" "\<not> json_space c" "c \<notin> {dquote, CHR ''['', CHR ''{'', CHR ''n'', CHR ''t'', CHR ''f''}"
    "c \<noteq> CHR '']''"
proof -
  obtain c cs where c: "fmt n = c # cs" using number_chars(1) by (cases "fmt n") auto
  then have "c \<in> set ''0123456789+-.eE''" using number_chars(2) [of n] by auto
  then have "\<not> json_space c \<and> c \<notin> {dquote, CHR ''['', CHR ''{'', CHR ''n'', CHR ''t'', CHR ''f'', CHR '']''}"
    by (auto simp: json_space_def)
  with c show thesis by (intro that [of c cs]) simp_all
qed

lemma reads_number: "reads (fmt n) (JNumber (fmt n))"
proof -
  obtain c cs where c: "fmt n = c # cs" "\<not> json_space c"
    "c \<notin> {dquote, CHR ''['', CHR ''{'', CHR ''n'', CHR ''t'', CHR ''f''}" "c \<noteq> CHR '']''"
    by (rule number_hd [of n])
  have "read_value f (c # cs @ r) = Some (JNumber (c # cs), r)" if "0 < f" "delimited r" for f r
    using number_scans [OF that(2), of n] c that(1) by (cases f) simp_all
  then show ?thesis using c by (simp add: reads_def)
qed

lemma reads_marshal: "reads (marshal fmt v) (canonical (map_json fmt v))"
proof (induction v rule: measure_induct_rule [of size])
  case (less v)
  show ?case
  proof (cases v)
    case (JNumber n)
    then show ?thesis by (simp add: reads_number)
  next
    case (JString s)
    then show ?thesis by (simp add: marshal_string_def reads_string read_escaped)
  next
    case (JArray vs)
    have "list_all2 reads (map (marshal fmt) vs) (map canonical (map (map_json fmt) vs))"
      unfolding list_all2_map1 list_all2_map2
      by (rule list.rel_refl_strong) (use JArray in \<open>auto intro!: less.IH simp: less_Suc_eq_le size_list_estimation'\<close>)
    then show ?thesis using reads_array JArray by fastforce
  next
    case (JObject kvs)
    let ?kvs = "sort_key fst kvs"
    have "list_all2 (\<lambda>kt ku. fst kt = fst ku \<and> reads (snd kt) (snd ku))
        (map (\<lambda>(k, v). (k, marshal fmt v)) ?kvs) (map (\<lambda>(k, v). (k, canonical (map_json fmt v))) ?kvs)"
      unfolding list_all2_map1 list_all2_map2
      by (rule list.rel_refl_strong) (use JObject in \<open>auto intro!: less.IH simp: size_member\<close>)
    then have "reads (''{'' @ separated (map member_text (map (\<lambda>(k, v). (k, marshal fmt v)) ?kvs)) @ ''}'')
        (JObject (map (\<lambda>(k, v). (k, canonical (map_json fmt v))) ?kvs))"
      by (rule reads_object)
    moreover have "marshal fmt v = ''{'' @ separated (map member_text (map (\<lambda>(k, v). (k, marshal fmt v)) ?kvs)) @ ''}''"
      using JObject by (simp add: member_text_def comp_def case_prod_unfold)
    moreover have "canonical (map_json fmt v) = JObject (map (\<lambda>(k, v). (k, canonical (map_json fmt v))) ?kvs)"
      using JObject by (simp add: sort_members comp_def case_prod_unfold)
    ultimately show ?thesis by simp
  next
    case JNull
    have "read_value f (''null'' @ r) = Some (JNull, r)" if "0 < f" for f r
      using that by (cases f) (simp_all add: json_space_def)
    then show ?thesis using JNull by (simp add: reads_def json_space_def)
  next
    case (JBool b)
    have "read_value f (''true'' @ r) = Some (JBool True, r)" "read_value f (''false'' @ r) = Some (JBool False, r)"
      if "0 < f" for f r
      using that by (cases f; simp add: json_space_def)+
    then show ?thesis using JBool by (simp add: reads_def json_space_def)
  qed
qed

end

section \<open>Compaction\<close>

lemma escaped_line_separator:
  "line_separator (c # escaped cs @ dquote # r) \<Longrightarrow> line_separator (c # cs)"
proof -
  have first: "\<exists>t'. t = x # t'" if "escaped t @ dquote # r = x # y" "x \<in> {CHR 0x80, CHR 0xA8, CHR 0xA9}" for t x y
    using that by (cases t) (auto simp: u_escape_def separator_escape_def split: if_splits)
  assume sep: "line_separator (c # escaped cs @ dquote # r)"
  then obtain y where y: "c = CHR 0xE2" "escaped cs @ dquote # r = CHR 0x80 # y"
    by (cases "escaped cs @ dquote # r") (auto simp: line_separator_def)
  then obtain cs' where cs': "cs = CHR 0x80 # cs'" using first by blast
  then have "escaped cs = CHR 0x80 # escaped cs'" by (simp add: line_separator_def less_char_def)
  then obtain z where "escaped cs' @ dquote # r = CHR 0xA8 # z \<or> escaped cs' @ dquote # r = CHR 0xA9 # z"
    using sep by (cases "escaped cs' @ dquote # r") (auto simp: line_separator_def)
  then obtain cs'' where "cs' = CHR 0xA8 # cs'' \<or> cs' = CHR 0xA9 # cs''" using first by blast
  with y(1) cs' show ?thesis by (auto simp: line_separator_def)
qed

text \<open>What compaction leaves as it is.\<close>

definition inert :: "string \<Rightarrow> bool" where
  "inert t = (\<forall>r. compact False (t @ r) = t @ compact False r)"

definition copied :: "bool \<Rightarrow> char \<Rightarrow> bool" where
  "copied quoted c = (c \<notin> {CHR ''<'', CHR ''>'', CHR ''&'', dquote, backslash, CHR 0xE2} \<and> (quoted \<or> \<not> json_space c))"

lemma compact_copied: "copied quoted c \<Longrightarrow> compact quoted (c # r) = c # compact quoted r"
  by (auto simp: copied_def line_separator_def)

lemma compact_pair: "compact True (backslash # d # r) = backslash # d # compact True r"
  by (simp add: line_separator_def)

lemma inert_Nil [simp]: "inert []"
  by (simp add: inert_def)

lemma inert_append: "inert s \<Longrightarrow> inert t \<Longrightarrow> inert (s @ t)"
  by (simp add: inert_def)

lemma inert_copied: "list_all (copied False) t \<Longrightarrow> inert t"
  unfolding inert_def by (induction t) (simp_all add: compact_copied del: compact.simps)

lemma copied_char: "c \<in> set ''0123456789abcdef+-.eE[]{}:,nulltruefalse'' \<Longrightarrow> copied quoted c"
  by (auto simp: copied_def json_space_def)

lemma inert_chars: "set t \<subseteq> set ''0123456789abcdef+-.eE[]{}:,nulltruefalse'' \<Longrightarrow> inert t"
  by (rule inert_copied) (auto simp: list_all_iff intro!: copied_char)

lemma inert_Cons: "c \<in> set ''[]{}:,'' \<Longrightarrow> inert t \<Longrightarrow> inert (c # t)"
  by (subgoal_tac "copied False c") (auto simp: inert_def compact_copied copied_def json_space_def simp del: compact.simps)

lemma inert_separated: "\<forall>t \<in> set ts. inert t \<Longrightarrow> inert (separated ts)"
  by (induction ts rule: separated.induct) (simp_all add: inert_append inert_Cons)

lemma copied_hex: "c \<in> set ''0123456789abcdef'' \<Longrightarrow> copied quoted c"
  by (auto simp: copied_def json_space_def)

lemma hex_digit_copied: "n < 16 \<Longrightarrow> copied quoted (hex_digit n)"
  using nth_mem [of n "''0123456789abcdef''"] by (intro copied_hex) (simp only: hex_digit_nth, simp)

lemma compact_u_escape:
  assumes "of_char c < (128 :: nat)"
  shows "compact True (u_escape c @ r) = u_escape c @ compact True r"
proof -
  have "(of_char c :: nat) div 16 < 16" using assms by simp
  then show ?thesis
    by (simp add: u_escape_def compact_pair compact_copied copied_char hex_digit_copied del: compact.simps)
qed

lemma compact_separator_escape: "compact True (separator_escape s @ r) = separator_escape s @ compact True r"
  by (simp add: separator_escape_def compact_pair compact_copied copied_char hex_digit_copied del: compact.simps)

lemma compact_escaped: "compact True (escaped s @ dquote # r) = escaped s @ dquote # compact False r"
proof (induction "length s" arbitrary: s rule: less_induct)
  case less
  show ?case
  proof (cases s)
    case Nil
    then show ?thesis by (simp add: line_separator_def)
  next
    case (Cons c cs)
    have cs: "compact True (escaped cs @ dquote # r) = escaped cs @ dquote # compact False r"
      "compact True (escaped (drop 2 cs) @ dquote # r) = escaped (drop 2 cs) @ dquote # compact False r"
      using less Cons by simp_all
    show ?thesis unfolding Cons
    proof (cases rule: escaped_Cons_cases [of c cs])
      case (pair d)
      then show "compact True (escaped (c # cs) @ dquote # r) = escaped (c # cs) @ dquote # compact False r"
        using cs(1) by (simp add: compact_pair del: compact.simps escaped.simps)
    next
      case small
      then show "compact True (escaped (c # cs) @ dquote # r) = escaped (c # cs) @ dquote # compact False r"
        using cs(1) by (simp add: compact_u_escape [OF small_char] del: compact.simps escaped.simps)
    next
      case separator
      then show "compact True (escaped (c # cs) @ dquote # r) = escaped (c # cs) @ dquote # compact False r"
        using cs(2) by (simp add: compact_separator_escape del: compact.simps escaped.simps)
    next
      case plain
      have "\<not> line_separator (c # escaped cs @ dquote # r)" using plain(4) escaped_line_separator by blast
      then show "compact True (escaped (c # cs) @ dquote # r) = escaped (c # cs) @ dquote # compact False r"
        using plain cs(1) by (simp del: escaped.simps)
    qed
  qed
qed

lemma inert_marshal_string: "inert (marshal_string s)"
  unfolding inert_def by (simp add: marshal_string_def compact_escaped line_separator_def json_space_def)

text \<open>A path that needs no escapes comes out of compaction as \<open>encoding/json\<close> would have written it.\<close>

definition plain_string :: "string \<Rightarrow> bool" where
  "plain_string s = list_all (\<lambda>c. \<not> c < CHR '' '' \<and> c \<noteq> dquote \<and> c \<noteq> backslash) s"

lemma line_separator_quoted: "line_separator (c # cs @ dquote # r) = line_separator (c # cs)"
  by (cases cs; cases "tl cs") (auto simp: line_separator_def)

lemma compact_plain: "plain_string p \<Longrightarrow> compact True (p @ dquote # r) = escaped p @ dquote # compact False r"
proof (induction "length p" arbitrary: p rule: less_induct)
  case less
  show ?case
  proof (cases p)
    case Nil
    then show ?thesis by (simp add: line_separator_def)
  next
    case (Cons c cs)
    have c: "\<not> c < CHR '' ''" "c \<noteq> dquote" "c \<noteq> backslash" "plain_string cs" "plain_string (drop 2 cs)"
      using less.prems Cons by (auto simp: plain_string_def list_all_iff dest: in_set_dropD)
    then have c': "c \<notin> {CHR 0x0A, CHR 0x0D, CHR 0x09}" by (auto simp: less_char_def)
    have cs: "compact True (cs @ dquote # r) = escaped cs @ dquote # compact False r"
      "compact True (drop 2 cs @ dquote # r) = escaped (drop 2 cs) @ dquote # compact False r"
      using less.hyps Cons c by simp_all
    show ?thesis
    proof (cases "line_separator (c # cs)")
      case True
      then obtain a b t where t: "cs = a # b # t" "c = CHR 0xE2"
        by (cases cs; cases "tl cs") (auto simp: line_separator_def)
      then have "separator_escape (c # cs @ dquote # r) = separator_escape (c # cs)" by (simp add: separator_escape_def)
      then show ?thesis
        using True t c c' cs(2) Cons by (simp add: line_separator_quoted [of _ "a # b # t", simplified])
    next
      case False
      then show ?thesis using c c' cs(1) Cons by (simp add: line_separator_quoted)
    qed
  qed
qed

lemma read_plain: "plain_string p \<Longrightarrow> read_string (p @ dquote # r) = Some (p, r)"
  by (induction p) (simp_all add: plain_string_def)

context number_text
begin

lemma inert_number: "inert (fmt n)"
  by (rule inert_chars, rule subset_trans [OF number_chars(2)]) simp

lemma inert_marshal: "inert (marshal fmt v)"
proof (induction v rule: measure_induct_rule [of size])
  case (less v)
  show ?case
  proof (cases v)
    case (JArray vs)
    then have "inert (separated (map (marshal fmt) vs))"
      by (intro inert_separated) (auto intro!: less.IH simp: less_Suc_eq_le size_list_estimation')
    then show ?thesis using JArray by (simp add: inert_Cons inert_append)
  next
    case (JObject kvs)
    have "inert (marshal_string k @ '':'' @ marshal fmt u)" if "(k, u) \<in> set kvs" for k u
      using that JObject less.IH [of u] by (simp add: inert_append inert_marshal_string inert_Cons size_member)
    then have "inert (separated (map (\<lambda>(k, v). marshal_string k @ '':'' @ marshal fmt v) (sort_key fst kvs)))"
      by (intro inert_separated) auto
    then show ?thesis using JObject by (simp add: inert_Cons inert_append)
  next
    case (JBool b)
    then show ?thesis using inert_chars [of "''true''"] inert_chars [of "''false''"] by simp
  next
    case JNull
    then show ?thesis using inert_chars [of "''null''"] by simp
  qed (simp_all add: inert_number inert_marshal_string)
qed

end

end
