(* ===== verification/Patch_Text.thy ===== *)
theory Patch_Text
  imports Json_Text_Correct
begin

text \<open>
  The text of a patch, as its receiver reads it. When the paths of the operations need no escapes,
  the text is valid and says what the patch says; a quote in a path, which \<open>MarshalJSON\<close> does not
  escape, makes it invalid. The paths of a patch that \<open>diff\<close> computes need no escapes when the names
  of the members of the documents need none.
\<close>

section \<open>What a receiver reads\<close>

fun read_op_name :: "string json \<Rightarrow> op_kind option" where
  "read_op_name (JString s) =
     (if s = ''add'' then Some OpAdd else if s = ''replace'' then Some OpReplace
      else if s = ''remove'' then Some OpRemove else None)"
| "read_op_name v = None"

text \<open>Of two members of the same name the last counts.\<close>

definition read_op :: "string json \<Rightarrow> string patch_op option" where
  "read_op v =
     (case v of
        JObject kvs \<Rightarrow>
          (case (map_of (rev kvs) ''op'', map_of (rev kvs) ''path'') of
             (Some k, Some (JString p)) \<Rightarrow>
               map_option (\<lambda>k. NewPatch k p (case map_of (rev kvs) ''value'' of None \<Rightarrow> JNull | Some v \<Rightarrow> v)) (read_op_name k)
           | _ \<Rightarrow> None)
      | _ \<Rightarrow> None)"

fun read_ops :: "string json list \<Rightarrow> string patch_op list option" where
  "read_ops [] = Some []"
| "read_ops (v # vs) =
     (case read_op v of None \<Rightarrow> None | Some j \<Rightarrow> map_option (\<lambda>js. j # js) (read_ops vs))"

definition read_patch :: "string \<Rightarrow> string patch_op list option" where
  "read_patch text = (case read_json text of Some (JArray vs) \<Rightarrow> read_ops vs | _ \<Rightarrow> None)"

text \<open>An operation as it is read: its numbers are their texts, and the members of its value are in order.\<close>

definition canonical_op :: "('n \<Rightarrow> string) \<Rightarrow> 'n patch_op \<Rightarrow> string patch_op" where
  "canonical_op fmt j = NewPatch (Operation j) (Path j) (canonical (map_json fmt (Value j)))"

section \<open>An operation\<close>

text \<open>The members of an operation, with the text of its path.\<close>

definition has_value :: "'n patch_op \<Rightarrow> bool" where
  "has_value j = (Value j \<noteq> JNull \<or> Operation j = OpReplace \<or> Operation j = OpAdd)"

definition op_texts :: "('n \<Rightarrow> string) \<Rightarrow> string \<Rightarrow> 'n patch_op \<Rightarrow> (string \<times> string) list" where
  "op_texts fmt p j =
     [(''op'', marshal_string (op_name (Operation j))), (''path'', dquote # p @ [dquote])] @
     (if has_value j then [(''value'', marshal fmt (Value j))] else [])"

definition op_members :: "('n \<Rightarrow> string) \<Rightarrow> 'n patch_op \<Rightarrow> (string \<times> string json) list" where
  "op_members fmt j =
     [(''op'', JString (op_name (Operation j))), (''path'', JString (Path j))] @
     (if has_value j then [(''value'', canonical (map_json fmt (Value j)))] else [])"

definition op_text :: "('n \<Rightarrow> string) \<Rightarrow> string \<Rightarrow> 'n patch_op \<Rightarrow> string" where
  "op_text fmt p j = ''{'' @ separated (map member_text (op_texts fmt p j)) @ ''}''"

lemma marshal_letters:
  "marshal_string ''op'' = dquote # ''op'' @ [dquote]" "marshal_string ''path'' = dquote # ''path'' @ [dquote]"
  "marshal_string ''value'' = dquote # ''value'' @ [dquote]"
  "marshal_string (op_name k) = dquote # op_name k @ [dquote]"
  by (cases k; simp add: marshal_string_def line_separator_def)+

lemma MarshalJSON_op_text: "MarshalJSON fmt j = op_text fmt (Path j) j"
  by (simp add: MarshalJSON_def op_text_def op_texts_def member_text_def marshal_letters has_value_def)

lemma read_op_members: "read_op (JObject (op_members fmt j)) = Some (canonical_op fmt j)"
  by (cases "Operation j")
    (auto simp: read_op_def op_members_def canonical_op_def has_value_def)

lemma compact_inert: "inert t \<Longrightarrow> compact False t = t"
  unfolding inert_def by (drule spec [of _ "[]"]) simp

context number_text
begin

lemma reads_op_text:
  assumes "\<And>r. read_string (p @ dquote # r) = Some (Path j, r)"
  shows "reads (op_text fmt p j) (JObject (op_members fmt j))"
proof -
  have "reads (dquote # p @ [dquote]) (JString (Path j))" using assms by (rule reads_string)
  moreover have "reads (marshal_string s) (JString s)" for s
    unfolding marshal_string_def by (rule reads_string) (rule read_escaped)
  ultimately show ?thesis
    unfolding op_text_def by (intro reads_object) (simp add: op_texts_def op_members_def reads_marshal)
qed

lemma inert_member_text: "inert t \<Longrightarrow> inert (member_text (k, t))"
  by (simp add: member_text_def inert_append inert_Cons inert_marshal_string)

lemma compact_op_text:
  assumes "plain_string (Path j)"
  shows "compact False (op_text fmt (Path j) j) = op_text fmt (escaped (Path j)) j"
proof -
  let ?first = "''{'' @ member_text (''op'', marshal_string (op_name (Operation j))) @ '','' @ marshal_string ''path'' @ '':''"
  let ?last = "(if has_value j then '','' @ member_text (''value'', marshal fmt (Value j)) else []) @ ''}''"
  have whole: "op_text fmt p j = ?first @ dquote # p @ dquote # ?last" for p
    by (simp add: op_text_def op_texts_def member_text_def)
  have first: "inert ?first"
    by (simp add: inert_append inert_Cons inert_member_text inert_marshal_string)
  have last: "inert ?last"
    by (simp add: inert_append inert_Cons inert_member_text inert_marshal)
  have "compact False (op_text fmt (Path j) j) = ?first @ compact False (dquote # Path j @ dquote # ?last)"
    using first unfolding whole inert_def by blast
  also have "compact False (dquote # Path j @ dquote # ?last) = dquote # escaped (Path j) @ dquote # compact False ?last"
    using compact_plain [OF assms] by (simp add: line_separator_def json_space_def)
  also have "compact False ?last = ?last"
    using last by (rule compact_inert)
  finally show ?thesis unfolding whole .
qed

text \<open>An operation whose path needs no escapes.\<close>

lemma marshal_op_plain:
  assumes "plain_string (Path j)"
  obtains t where "marshal_op descr fmt j = (t, None)" "reads t (JObject (op_members fmt j))"
proof -
  have "reads (op_text fmt (Path j) j) (JObject (op_members fmt j))"
    by (rule reads_op_text) (rule read_plain [OF assms])
  then have "marshal_op descr fmt j = (op_text fmt (escaped (Path j)) j, None)"
    by (simp add: marshal_op_def MarshalJSON_op_text reads_valid compact_op_text [OF assms] Let_def)
  moreover have "reads (op_text fmt (escaped (Path j)) j) (JObject (op_members fmt j))"
    by (rule reads_op_text) (rule read_escaped)
  ultimately show thesis by (rule that)
qed

lemma marshal_ops_plain:
  assumes "\<forall>j \<in> set opers. plain_string (Path j)"
  obtains ts where "marshal_ops descr fmt opers = (ts, None)"
    "list_all2 reads ts (map (\<lambda>j. JObject (op_members fmt j)) opers)"
  using assms
proof (induction opers arbitrary: thesis)
  case (Cons j opers)
  obtain t where t: "marshal_op descr fmt j = (t, None)" "reads t (JObject (op_members fmt j))"
    using Cons.prems(2) marshal_op_plain [of j descr] by auto
  obtain ts where "marshal_ops descr fmt opers = (ts, None)"
      "list_all2 reads ts (map (\<lambda>j. JObject (op_members fmt j)) opers)"
    using Cons.IH Cons.prems(2) by auto
  with t show ?case by (intro Cons.prems(1) [of "t # ts"]) simp_all
qed simp

lemma read_ops_members: "read_ops (map (\<lambda>j. JObject (op_members fmt j)) opers) = Some (map (canonical_op fmt) opers)"
  by (induction opers) (simp_all add: read_op_members)

lemma encoded_patch_read:
  assumes "\<forall>j \<in> set opers. plain_string (Path j)"
  obtains out where "Encode_patch descr fmt opers = (out, None)"
    "read_patch out = Some (map (canonical_op fmt) opers)"
proof -
  obtain ts where ts: "marshal_ops descr fmt opers = (ts, None)"
      "list_all2 reads ts (map (\<lambda>j. JObject (op_members fmt j)) opers)"
    using assms by (rule marshal_ops_plain)
  let ?t = "''['' @ separated ts @ '']''" and ?u = "JArray (map (\<lambda>j. JObject (op_members fmt j)) opers)"
  have "reads ?t ?u" using ts(2) by (rule reads_array)
  then have "read_value (Suc (length (?t @ [CHR 0x0A]))) (?t @ [CHR 0x0A]) = Some (?u, [CHR 0x0A])"
    unfolding reads_def by (auto simp: delimited_def simp del: read_value.simps)
  then have "read_json (?t @ [CHR 0x0A]) = Some ?u"
    unfolding read_json_def by (simp add: json_space_def del: read_value.simps)
  then have "read_patch (?t @ [CHR 0x0A]) = Some (map (canonical_op fmt) opers)"
    by (simp add: read_patch_def read_ops_members)
  with ts(1) show thesis by (intro that) (simp_all add: Encode_patch_def)
qed

end

section \<open>Integers\<close>

text \<open>The integers, in decimal, are numbers of JSON.\<close>

lemma digit_zero: "0 \<le> n \<Longrightarrow> n < 10 \<Longrightarrow> digit n = CHR ''0'' \<Longrightarrow> n = 0"
  by (drule arg_cong [of _ _ "of_char :: char \<Rightarrow> int"]) (simp add: of_char_digit)

lemma show_dec_leading: "0 < n \<Longrightarrow> hd (show_dec n) \<noteq> CHR ''0''"
proof (induction n rule: show_dec.induct)
  case (1 n)
  show ?case
  proof (cases "n < 10")
    case True
    then show ?thesis using 1 digit_zero [of n] by (subst show_dec.simps) auto
  next
    case False
    then have "0 < n div 10" by simp
    then show ?thesis
      using 1 False show_dec_digits [of "n div 10"] by (subst show_dec.simps) (auto simp: hd_append)
  qed
qed

lemma scan_digits_run:
  assumes "list_all is_digit ds" "ds \<noteq> []" "delimited r"
  shows "scan_digits (ds @ r) = Some (ds, r)"
proof -
  have "\<not> is_digit (hd r)" if "r \<noteq> []" using assms(3) that by (auto simp: delimited_def is_digit_def)
  then have "takeWhile is_digit r = []" "dropWhile is_digit r = r" by (cases r; simp)+
  then show ?thesis
    using assms(1,2) by (simp add: scan_digits_def list_all_iff)
qed

lemma scan_integer_show:
  assumes "0 \<le> n" "delimited r"
  shows "scan_integer (show_dec n @ r) = Some (show_dec n, r)"
proof (cases "n = 0")
  case True
  then have "show_dec n = ''0''" by (subst show_dec.simps) (simp add: digit_def char_of_eq_iff)
  then show ?thesis by (simp add: scan_integer_def)
next
  case False
  then have "hd (show_dec n) \<noteq> CHR ''0''" "show_dec n \<noteq> []" "list_all is_digit (show_dec n)"
    using assms(1) show_dec_leading [of n] show_dec_digits [of n] by simp_all
  then show ?thesis
    using scan_digits_run [OF _ _ assms(2), of "show_dec n"] by (cases "show_dec n") (simp_all add: scan_integer_def)
qed

lemma scan_rest: "delimited r \<Longrightarrow> scan_fraction r = Some ([], r)" "delimited r \<Longrightarrow> scan_exponent r = Some ([], r)"
  by (cases r; auto simp: delimited_def scan_fraction_def scan_exponent_def)+

lemma digit_set: "is_digit c \<Longrightarrow> c \<in> set ''0123456789''"
proof -
  assume "is_digit c"
  then have "48 \<le> int (of_char c)" "int (of_char c) \<le> 57" by (simp_all only: is_digit_def of_nat_of_char)
  then have "of_char c \<in> set [48..<58 :: nat]" unfolding set_upt by simp
  then have "char_of (of_char c :: nat) \<in> char_of ` set [48..<58 :: nat]" by blast
  moreover have "map char_of [48..<58 :: nat] = ''0123456789''" by (simp add: upt_rec char_of_eq_iff)
  ultimately show ?thesis by (metis char_of_char set_map)
qed

interpretation decimal: number_text fmt_d
proof
  fix n :: int and r
  define ds where "ds = show_dec \<bar>n\<bar>"
  then have ds: "ds \<noteq> []" "list_all is_digit ds" using show_dec_digits [of "\<bar>n\<bar>"] by simp_all
  then have "hd ds \<noteq> CHR ''-''" by (cases ds) (auto simp: is_digit_def)
  then have sign: "scan_sign {CHR ''-''} (ds @ r) = ([], ds @ r)" using ds(1) by (cases ds) simp_all
  have n: "fmt_d n = (if n < 0 then CHR ''-'' # ds else ds)" by (simp add: fmt_d_def ds_def)
  show "fmt_d n \<noteq> []" using ds by (simp add: n)
  have "set ds \<subseteq> set ''0123456789''" using ds(2) by (auto simp: list_all_iff dest!: digit_set)
  then have "insert (CHR ''-'') (set ds) \<subseteq> insert (CHR ''-'') (set ''0123456789'')" by (rule insert_mono)
  moreover have "set (fmt_d n) \<subseteq> insert (CHR ''-'') (set ds)" by (simp add: n subset_insertI)
  moreover have "insert (CHR ''-'') (set ''0123456789'') \<subseteq> set ''0123456789+-.eE''" by simp
  ultimately show "set (fmt_d n) \<subseteq> set ''0123456789+-.eE''" by (meson subset_trans)
  assume "delimited r"
  then show "scan_number (fmt_d n @ r) = Some (fmt_d n, r)"
    using sign scan_integer_show [of "\<bar>n\<bar>" r, folded ds_def] by (auto simp: n scan_number_def scan_rest)
qed

section \<open>The paths of a patch\<close>

text \<open>The names of the members in a document.\<close>

primrec names :: "'n json \<Rightarrow> string set" where
  "names (JArray vs) = \<Union> (set (map names vs))"
| "names (JObject kvs) = \<Union> (set (map (\<lambda>(k, ns). insert k ns) (map (map_prod id names) kvs)))"
| "names JNull = {}"
| "names (JBool b) = {}"
| "names (JNumber n) = {}"
| "names (JString s) = {}"

definition plain_ops :: "'n patch_op list \<Rightarrow> bool" where
  "plain_ops opers = list_all (\<lambda>j. plain_string (Path j)) opers"

lemma plain_ops_simps [simp]: "plain_ops []" "plain_ops (j # js) \<longleftrightarrow> plain_string (Path j) \<and> plain_ops js"
  "plain_ops (js @ js') \<longleftrightarrow> plain_ops js \<and> plain_ops js'" "Path (NewPatch k p v) = p"
  by (simp_all add: plain_ops_def NewPatch_def)

lemma plain_simps [simp]: "plain_string []" "plain_string (s @ t) \<longleftrightarrow> plain_string s \<and> plain_string t"
  by (simp_all add: plain_string_def)

lemma plain_Cons: "plain_string (c # s) \<longleftrightarrow> \<not> c < CHR '' '' \<and> c \<noteq> dquote \<and> c \<noteq> backslash \<and> plain_string s"
  by (simp add: plain_string_def)

lemma plain_encode: "plain_string s \<Longrightarrow> plain_string (rfc6901_encode s)"
  by (induction s) (auto simp: plain_Cons slash_def less_char_def)

lemma plain_makePath: "plain_string p \<Longrightarrow> plain_string k \<Longrightarrow> plain_string (makePath p k)"
  by (auto simp: makePath_def Let_def plain_encode plain_Cons less_char_def)

lemma plain_digit: "is_digit c \<Longrightarrow> \<not> c < CHR '' '' \<and> c \<noteq> dquote \<and> c \<noteq> backslash"
  by (drule digit_set) (auto simp: less_char_def)

lemma plain_index: "plain_string p \<Longrightarrow> plain_string (makePath_index p i)"
proof -
  have "plain_string (show_dec (int i))"
    using show_dec_digits [of "int i"] by (simp add: plain_string_def list_all_iff plain_digit)
  then show "plain_string p \<Longrightarrow> plain_string (makePath_index p i)" by (simp add: makePath_index_def plain_makePath fmt_d_def)
qed

lemma plain_removed: "plain_string p \<Longrightarrow> plain_ops (removed_from p i vs bv)"
  by (induction vs arbitrary: i) (simp_all add: plain_index)

lemma plain_added: "plain_string p \<Longrightarrow> plain_ops (added_to p i vs av)"
  by (induction vs arbitrary: i) (simp_all add: plain_index)

definition plain_names :: "'n json \<Rightarrow> bool" where
  "plain_names v = (\<forall>k \<in> names v. plain_string k)"

lemma plain_names_simps [simp]:
  "plain_names (JArray vs) \<longleftrightarrow> (\<forall>v \<in> set vs. plain_names v)"
  "plain_names (JObject kvs) \<longleftrightarrow> (\<forall>(k, v) \<in> set kvs. plain_string k \<and> plain_names v)"
  by (force simp: plain_names_def)+

lemma plain_gone: "plain_names (JObject at) \<Longrightarrow> plain_string p \<Longrightarrow>
  plain_ops (map (\<lambda>(key, _). NewPatch OpRemove (makePath p key) JNull) (filter (\<lambda>(key, _). map_of bt key = None) at))"
  by (induction at) (auto simp: plain_makePath)

lemma diff_plain:
  "diff_members a b path patch = Returns opers \<Longrightarrow> plain_names (JObject a) \<Longrightarrow> plain_names (JObject b) \<Longrightarrow>
     plain_string path \<Longrightarrow> plain_ops patch \<Longrightarrow> plain_ops opers"
  "handleValues av bv p patch = Returns opers \<Longrightarrow> plain_names av \<Longrightarrow> plain_names bv \<Longrightarrow>
     plain_string p \<Longrightarrow> plain_ops patch \<Longrightarrow> plain_ops opers"
  "handleElements vs ws p i patch = Returns opers \<Longrightarrow> \<forall>v \<in> set vs. plain_names v \<Longrightarrow> \<forall>v \<in> set ws. plain_names v \<Longrightarrow>
     plain_string p \<Longrightarrow> plain_ops patch \<Longrightarrow> plain_ops opers"
proof (induction a b path patch and av bv p patch and vs ws p i patch arbitrary: opers and opers and opers
    rule: diff_members_handleValues_handleElements.induct)
  case (2 a key bv b path patch)
  have key: "plain_string (makePath path key)" using 2(7,8) by (simp add: plain_makePath)
  show ?case
  proof (cases "map_of a key")
    case None
    then show ?thesis using 2 key by (auto simp: Let_def)
  next
    case (Some av)
    then have "plain_names av" using 2(6) by (auto dest: map_of_SomeD)
    then show ?thesis
      using 2 key Some by (auto simp: Let_def split: panicky.splits if_splits)
  qed
next
  case (3 at bv p patch)
  then show ?case
    by (cases bv) (auto split: panicky.splits intro!: plain_gone)
next
  case (4 at bv p patch)
  then show ?case
    by (cases bv) (auto simp: compareArray_def plain_removed plain_added split: if_splits)
qed (auto simp: plain_index split: panicky.splits if_splits)

section \<open>Properties\<close>

text \<open>
  The text of a patch whose paths need no escapes is read back as the patch, with the numbers as their
  texts and the members of the values in order.
\<close>

theorem patch_read_back:
  assumes "number_text fmt" "plain_ops opers"
  shows "snd (Encode_patch descr fmt opers) = None \<and>
    read_patch (fst (Encode_patch descr fmt opers)) = Some (map (canonical_op fmt) opers)"
  using number_text.encoded_patch_read [OF assms(1), of opers descr] assms(2)
  by (metis fst_conv list_all_iff plain_ops_def snd_conv)

definition sample_patch :: "int patch_op list" where
  "sample_patch = [NewPatch OpAdd ''/metadata/<a>'' (JArray [JString [dquote, CHR 0x0A], JNumber (-17)]),
     NewPatch OpRemove ''/color'' JNull]"

theorem patch_read_back_witness:
  "read_patch (fst (Encode_patch (\<lambda>s. ''bad'') fmt_d sample_patch)) =
     Some [NewPatch OpAdd ''/metadata/<a>'' (JArray [JString [dquote, CHR 0x0A], JNumber ''-17'']),
       NewPatch OpRemove ''/color'' JNull]"
proof -
  have number: "fmt_d (- 17) = ''-17''"
    by (simp add: fmt_d_def show_dec.simps digit_def char_of_eq_iff)
  have "plain_ops sample_patch" by (simp add: sample_patch_def plain_Cons less_char_def)
  from patch_read_back [OF decimal.number_text_axioms this, of "\<lambda>s. ''bad''"]
  show ?thesis by (simp add: sample_patch_def canonical_op_def NewPatch_def number)
qed

subsection \<open>A quote in a path\<close>

lemma read_value_quoted:
  "0 < f \<Longrightarrow> read_string s = Some (t, r) \<Longrightarrow> read_value f (dquote # s) = Some (JString t, r)"
  by (cases f) (simp_all add: json_space_def)

lemma quoted_path_invalid:
  assumes "plain_string p" "\<not> json_space c" "c \<noteq> CHR '',''" "c \<noteq> CHR ''}''" "Path j = p @ dquote # c # q"
  shows "\<not> valid_json (MarshalJSON fmt j)"
proof -
  obtain t where t: "MarshalJSON fmt j = ''{'' @ marshal_string ''op'' @ '':'' @ marshal_string (op_name (Operation j)) @
      '','' @ marshal_string ''path'' @ '':'' @ dquote # p @ dquote # c # t"
    using assms(5) by (simp add: MarshalJSON_def marshal_letters)
  have path: "read_members f (marshal_string ''path'' @ '':'' @ dquote # p @ dquote # c # t) = None" for f
  proof (cases f)
    case (Suc f')
    show ?thesis
      using assms(2-4) read_value_quoted [OF _ read_plain [OF assms(1)], of f' "c # t"] Suc
      by (cases f') (simp_all add: marshal_letters json_space_def del: read_value.simps(2))
  qed simp
  have "read_members f (marshal_string ''op'' @ '':'' @ marshal_string (op_name (Operation j)) @ '','' @
      marshal_string ''path'' @ '':'' @ dquote # p @ dquote # c # t) = None" for f
  proof (cases f)
    case (Suc f')
    have "read_value f' (marshal_string (op_name (Operation j)) @ r) = Some (JString (op_name (Operation j)), r)"
      if "0 < f'" for r
      using read_value_quoted [OF that read_escaped [of "op_name (Operation j)" r]] by (simp add: marshal_string_def)
    then show ?thesis
      unfolding Suc read_members.simps(2) using path [of f']
      by (cases f') (simp_all add: marshal_letters(1) json_space_def del: read_value.simps(2) read_members.simps(2))
  qed simp
  then show ?thesis
    unfolding t valid_json_def read_json_def by (simp add: marshal_letters(1) json_space_def)
qed

lemma marshal_ops_append:
  assumes "snd (marshal_ops descr fmt js) = None" "snd (marshal_ops descr fmt js') = Some err"
  shows "snd (marshal_ops descr fmt (js @ js')) = Some err"
  using assms by (induction js) (auto split: prod.splits option.splits)

text \<open>
  A path with a quote that is not by chance the end of the member makes encoding the patch fail.
\<close>

lemma quoted_path_fails:
  assumes "number_text fmt" "plain_ops js" "plain_string p" "\<not> json_space c" "c \<noteq> CHR '',''" "c \<noteq> CHR ''}''"
    "Path j = p @ dquote # c # q"
  shows "Encode_patch descr fmt (js @ j # js') = ([], Some (marshaler_error (descr (MarshalJSON fmt j))))"
proof -
  obtain ts where "marshal_ops descr fmt js = (ts, None)"
    using number_text.marshal_ops_plain [OF assms(1)] assms(2) by (metis list_all_iff plain_ops_def)
  moreover have "snd (marshal_ops descr fmt (j # js')) = Some (marshaler_error (descr (MarshalJSON fmt j)))"
    using quoted_path_invalid [OF assms(3-7)] by (simp add: marshal_op_def Let_def)
  ultimately have "snd (marshal_ops descr fmt (js @ j # js')) = Some (marshaler_error (descr (MarshalJSON fmt j)))"
    by (intro marshal_ops_append) simp_all
  then show ?thesis by (cases "marshal_ops descr fmt (js @ j # js')") (simp add: Encode_patch_def)
qed

text \<open>
  When it is the end of the member, the rest of the name is read as members of the operation: the
  removal of a member becomes the replacement of another.
\<close>

definition injected_name :: string where
  "injected_name = ''spec'' @ [dquote] @ '','' @ [dquote] @ ''op'' @ [dquote] @ '':'' @ [dquote] @ ''replace'' @ [dquote] @
     '','' @ [dquote] @ ''value'' @ [dquote] @ '':'' @ [dquote] @ ''x''"

theorem name_injects_operation:
  "diff [(injected_name, JBool True :: int json)] [] [] [] =
     Returns [NewPatch OpRemove (CHR ''/'' # injected_name) JNull] \<and>
   read_patch (fst (Encode_patch (\<lambda>s. ''bad'') fmt_d [NewPatch OpRemove (CHR ''/'' # injected_name) JNull])) =
     Some [NewPatch OpReplace ''/spec'' (JString ''x'')]"
  by code_simp

end
