(* ===== verification/Admission.thy ===== *)
theory Admission
  imports Api_Types String_Sets Json_Patch_Correct Patch_Text Sample_World
begin

text \<open>
  The admission webhooks of \<open>pkg/admission-controller/controller.go\<close>: the HTTP handler around a
  worker, \<open>validate\<close>, which protects the spec, and \<open>mutate\<close>, which adds the finalizer. Decoding
  and encoding are those of the Kubernetes codecs and of \<open>encoding/json\<close>: parameters, collected in
  \<open>codec\<close>, with the writing of numbers and the text of a syntax error. The patch is written by
  \<open>Encode_patch\<close>.
\<close>

section \<open>Reviews\<close>

record resource_ref =
  rr_Group :: string
  rr_Version :: string
  rr_Resource :: string

record admission_request =
  req_UID :: string
  req_Resource :: resource_ref
  req_SubResource :: string
  req_Name :: string
  req_Namespace :: string
  req_Operation :: string
  req_Object :: string
  req_OldObject :: string

record result_status =
  res_Reason :: string
  res_Message :: string

record admission_response =
  rsp_UID :: string
  rsp_Allowed :: bool
  rsp_Result :: "result_status option"
  rsp_Patch :: string
  rsp_PatchType :: "string option"

record admission_review =
  Request :: "admission_request option"
  Response :: "admission_response option"

record 'n codec =
  DecodeReview :: "string \<Rightarrow> admission_review \<times> go_error option"
  DecodeVM :: "string \<Rightarrow> virtual_machine \<times> go_error option"
  EncodeVM :: "virtual_machine \<Rightarrow> string \<times> go_error option"
  Unmarshal :: "string \<Rightarrow> (string \<times> 'n json) list option"
  FormatNumber :: "'n \<Rightarrow> string"
  InvalidText :: "string \<Rightarrow> string"
  MarshalReview :: "admission_review \<Rightarrow> string \<times> go_error option"

section \<open>Responses and codecs\<close>

definition errResponse :: "go_error \<Rightarrow> admission_response" where
  "errResponse err =
     \<lparr>rsp_UID = [], rsp_Allowed = False,
      rsp_Result = Some \<lparr>res_Reason = [], res_Message = Error err\<rparr>,
      rsp_Patch = [], rsp_PatchType = None\<rparr>"

definition deserialize :: "'n codec \<Rightarrow> string \<Rightarrow> virtual_machine \<times> admission_response option" where
  "deserialize codec raw =
     (case DecodeVM codec raw of
        (vm, Some err) \<Rightarrow> (vm, Some (errResponse err))
      | (vm, None) \<Rightarrow> (vm, None))"

definition serialize :: "'n codec \<Rightarrow> virtual_machine \<Rightarrow> string \<times> admission_response option" where
  "serialize codec vm =
     (case EncodeVM codec vm of
        (raw, Some err) \<Rightarrow> (raw, Some (errResponse err))
      | (raw, None) \<Rightarrow> (raw, None))"

section \<open>validate\<close>

definition StatusReasonForbidden :: string where
  "StatusReasonForbidden = ''Forbidden''"

definition verdict :: "bool \<Rightarrow> admission_response" where
  "verdict valid =
     \<lparr>rsp_UID = [], rsp_Allowed = valid,
      rsp_Result = Some \<lparr>res_Reason = StatusReasonForbidden,
        res_Message = ''Updates to spec are forbidden for VirtualMachines''\<rparr>,
      rsp_Patch = [], rsp_PatchType = None\<rparr>"

text \<open>
  The fields of the logger of a review, which is made first: it reads the request through a pointer
  that may be nil. What is logged is left out.
\<close>

datatype log_field = LogText string | LogResource resource_ref

definition newLogger :: "admission_review \<Rightarrow> (string \<times> log_field) list panicky" where
  "newLogger review =
     (case deref (Request review) of
        Panics m \<Rightarrow> Panics m
      | Returns request \<Rightarrow>
          Returns [(''resource'', LogResource (req_Resource request)),
            (''subresource'', LogText (req_SubResource request)),
            (''name'', LogText (req_Name request)),
            (''namespace'', LogText (req_Namespace request)),
            (''operation'', LogText (req_Operation request))])"

definition validate :: "'n codec \<Rightarrow> admission_review \<Rightarrow> admission_response option panicky" where
  "validate codec ar =
     (case newLogger ar of
        Panics m \<Rightarrow> Panics m
      | Returns logger \<Rightarrow>
     (case deref (Request ar) of
        Panics m \<Rightarrow> Panics m
      | Returns request \<Rightarrow>
          if req_SubResource request \<noteq> ''status'' then
            (case deserialize codec (req_Object request) of
               (newVm, Some err) \<Rightarrow> Returns (Some err)
             | (newVm, None) \<Rightarrow>
                 (case deserialize codec (req_OldObject request) of
                    (oldVm, Some err) \<Rightarrow> Returns (Some err)
                  | (oldVm, None) \<Rightarrow>
                      let valid = (if \<not> spec_DeepEqual (spec oldVm) (spec newVm) then False else True)
                      in Returns (Some (verdict valid))))
          else Returns (Some (verdict True))))"

section \<open>mutate\<close>

definition PatchTypeJSONPatch :: string where
  "PatchTypeJSONPatch = ''JSONPatch''"

text \<open>The object with the finalizer.\<close>

definition add_finalizer :: "virtual_machine \<Rightarrow> virtual_machine" where
  "add_finalizer vm =
     (let finalizers = NewString (vm_finalizers vm);
          finalizers = sets_Insert [VirtualMachineFinalizer] finalizers
      in vm\<lparr>metadata := (metadata vm)\<lparr>om_finalizers := Slice (sets_List finalizers)\<rparr>\<rparr>)"

definition mutate :: "'n codec \<Rightarrow> admission_review \<Rightarrow> admission_response option panicky" where
  "mutate codec ar =
     (case newLogger ar of
        Panics m \<Rightarrow> Panics m
      | Returns logger \<Rightarrow>
     (case deref (Request ar) of
        Panics m \<Rightarrow> Panics m
      | Returns request \<Rightarrow>
     (case deserialize codec (req_Object request) of
        (vm, Some response) \<Rightarrow> Returns (Some response)
      | (vm, None) \<Rightarrow>
     (case serialize codec (add_finalizer vm) of
        (rawUpdated, Some response) \<Rightarrow> Returns (Some response)
      | (rawUpdated, None) \<Rightarrow>
     (case CreatePatch (Unmarshal codec) (req_Object request) rawUpdated of
        Panics m \<Rightarrow> Panics m
      | Returns (patch, Some err) \<Rightarrow> Returns (Some (errResponse err))
      | Returns (patch, None) \<Rightarrow>
     (case Encode_patch (InvalidText codec) (FormatNumber codec) patch of
        (rawPatch, Some err) \<Rightarrow> Returns (Some (errResponse err))
      | (rawPatch, None) \<Rightarrow>
          Returns (Some \<lparr>rsp_UID = [], rsp_Allowed = True, rsp_Result = None,
            rsp_Patch = rawPatch, rsp_PatchType = Some PatchTypeJSONPatch\<rparr>)))))))"

section \<open>The HTTP handler\<close>

text \<open>
  A body that is absent or cannot be read to its end counts as empty. \<open>None\<close> is a request that
  gets no answer from the handler. Clearing the objects of the request has no effect but the
  panic when there is no request.
\<close>

record http_request =
  Body :: "(string \<times> go_error option) option"
  ContentType :: string

definition handle ::
    "'n codec \<Rightarrow> (admission_review \<Rightarrow> admission_response option panicky) \<Rightarrow> http_request \<Rightarrow>
     string option panicky" where
  "handle codec worker r =
     (let body = (case Body r of
          None \<Rightarrow> []
        | Some (data, err) \<Rightarrow> if err = None then data else []) in
      if ContentType r \<noteq> ''application/json'' then Returns None
      else
        let (ar, err) = DecodeReview codec body in
        case (case err of Some e \<Rightarrow> Returns (Some (errResponse e)) | None \<Rightarrow> worker ar) of
          Panics m \<Rightarrow> Panics m
        | Returns reviewResponse \<Rightarrow>
            (case (case reviewResponse of
                None \<Rightarrow> Returns None
              | Some rsp \<Rightarrow>
                  (case deref (Request ar) of
                     Panics m \<Rightarrow> Panics m
                   | Returns request \<Rightarrow> Returns (Some (rsp\<lparr>rsp_UID := req_UID request\<rparr>)))) of
               Panics m \<Rightarrow> Panics m
             | Returns response \<Rightarrow>
                 (case deref (Request ar) of
                    Panics m \<Rightarrow> Panics m
                  | Returns request \<Rightarrow>
                      let (resp, err) = MarshalReview codec \<lparr>Request = None, Response = response\<rparr>
                      in Returns (Some resp))))"

section \<open>What the webhooks decide\<close>

text \<open>The two decoded objects of an update.\<close>

definition decodes_to :: "'n codec \<Rightarrow> string \<Rightarrow> virtual_machine \<Rightarrow> bool" where
  "decodes_to codec raw vm = (DecodeVM codec raw = (vm, None))"

lemma deserialize_ok: "decodes_to codec raw vm \<Longrightarrow> deserialize codec raw = (vm, None)"
  by (simp add: decodes_to_def deserialize_def)

lemma deserialize_error:
  "DecodeVM codec raw = (vm, Some e) \<Longrightarrow> deserialize codec raw = (vm, Some (errResponse e))"
  by (simp add: deserialize_def)

lemma validate_status:
  "Request ar = Some request \<Longrightarrow> req_SubResource request = ''status'' \<Longrightarrow>
     validate codec ar = Returns (Some (verdict True))"
  by (simp add: validate_def newLogger_def)

lemma validate_update:
  assumes "Request ar = Some request" "req_SubResource request \<noteq> ''status''"
    "decodes_to codec (req_Object request) newVm" "decodes_to codec (req_OldObject request) oldVm"
  shows "validate codec ar = Returns (Some (verdict (spec_DeepEqual (spec oldVm) (spec newVm))))"
  using assms by (simp add: validate_def newLogger_def deserialize_ok)

lemma add_finalizer_finalizers:
  "vm_finalizers (add_finalizer vm) =
     sorted_list_of_set (insert VirtualMachineFinalizer (set (vm_finalizers vm)))"
  using key_map.listed_ins_new [of "[VirtualMachineFinalizer]" "vm_finalizers vm"]
  by (simp add: add_finalizer_def Let_def)

lemma add_finalizer_idem: "add_finalizer (add_finalizer vm) = add_finalizer vm"
  using key_map.listed_ins_again [of "[VirtualMachineFinalizer]" "vm_finalizers vm"]
  by (simp add: add_finalizer_def Let_def)

lemma add_finalizer_rest:
  "spec (add_finalizer vm) = spec vm" "status (add_finalizer vm) = status vm"
  "vm_name (add_finalizer vm) = vm_name vm" "vm_namespace (add_finalizer vm) = vm_namespace vm"
  by (simp_all add: add_finalizer_def Let_def)

text \<open>The handler answers exactly the requests of the right type that carry a review.\<close>

definition read_body :: "http_request \<Rightarrow> string" where
  "read_body r = (case Body r of None \<Rightarrow> [] | Some (data, err) \<Rightarrow> if err = None then data else [])"

lemma handle_wrong_type: "ContentType r \<noteq> ''application/json'' \<Longrightarrow> handle codec worker r = Returns None"
  by (simp add: handle_def Let_def)

lemma handle_undecodable:
  assumes "ContentType r = ''application/json''"
    "DecodeReview codec (read_body r) = (ar, Some e)"
  shows "handle codec worker r =
    (case Request ar of
       None \<Rightarrow> Panics nil_dereference
     | Some request \<Rightarrow> Returns (Some (fst (MarshalReview codec
         \<lparr>Request = None, Response = Some ((errResponse e)\<lparr>rsp_UID := req_UID request\<rparr>)\<rparr>))))"
  using assms by (simp add: handle_def read_body_def Let_def split: option.split prod.split)

lemma handle_review:
  assumes "ContentType r = ''application/json''"
    "DecodeReview codec (read_body r) = (ar, None)" "Request ar = Some request"
    "worker ar = Returns (Some rsp)"
  shows "handle codec worker r = Returns (Some (fst (MarshalReview codec
     \<lparr>Request = None, Response = Some (rsp\<lparr>rsp_UID := req_UID request\<rparr>)\<rparr>)))"
  using assms by (simp add: handle_def read_body_def Let_def split: prod.split)

section \<open>Properties\<close>

text \<open>
  C10. An update is allowed exactly when it is of the status subresource, or the machine type, the
  boot disk and the list of additional disks are the same in both objects; nothing else of the
  objects matters, and a refusal says so.
\<close>

theorem validate_protects_spec:
  assumes "Request ar = Some request"
    "decodes_to codec (req_Object request) newVm" "decodes_to codec (req_OldObject request) oldVm"
  shows "validate codec ar = Returns (Some (verdict
    (req_SubResource request = ''status'' \<or>
     machineType (spec oldVm) = machineType (spec newVm) \<and> bootDisk (spec oldVm) = bootDisk (spec newVm) \<and>
     elems (disks (spec oldVm)) = elems (disks (spec newVm)))))"
  using assms
  by (cases "req_SubResource request = ''status''")
    (simp_all add: validate_status validate_update spec_DeepEqual_iff)

definition sample_request :: admission_request where
  "sample_request = \<lparr>req_UID = ''r1'', req_Resource = \<lparr>rr_Group = ''ci.openshift.io'', rr_Version = ''v1alpha1'', rr_Resource = ''virtualmachines''\<rparr>, req_SubResource = [],
     req_Name = ''vm'', req_Namespace = ''ci'', req_Operation = ''UPDATE'',
     req_Object = ''old'', req_OldObject = ''old''\<rparr>"

definition sample_codec :: "int codec" where
  "sample_codec =
     \<lparr>DecodeReview = (\<lambda>s. (\<lparr>Request = None, Response = None\<rparr>, Some (ErrorString ''bad''))),
      DecodeVM = (\<lambda>s. (sample_vm None, None)), EncodeVM = (\<lambda>vm. (''new'', None)),
      Unmarshal = (\<lambda>s. Some (if s = ''old'' then old_doc else new_doc)),
      FormatNumber = fmt_d, InvalidText = (\<lambda>s. ''invalid character''), MarshalReview = (\<lambda>r. (''answer'', None))\<rparr>"

theorem validate_protects_spec_witness:
  "validate sample_codec \<lparr>Request = Some sample_request, Response = None\<rparr> = Returns (Some (verdict True))"
  using validate_protects_spec [of "\<lparr>Request = Some sample_request, Response = None\<rparr>" sample_request
      sample_codec "sample_vm None" "sample_vm None"]
  by (simp add: decodes_to_def sample_codec_def)



text \<open>
  A member whose name has a quote in it, which \<open>MarshalJSON\<close> writes into the path as it is, makes the
  webhook refuse the object, whatever the rest of the object is.
\<close>

theorem quoted_name_refused:
  assumes "Request ar = Some request" "decodes_to codec (req_Object request) vm"
    "EncodeVM codec (add_finalizer vm) = (raw, None)"
    "Unmarshal codec (req_Object request) = Some a" "Unmarshal codec raw = Some b"
    "diff a b [] [] = Returns (js @ j # js')" "plain_ops js" "number_text (FormatNumber codec)"
    "Path j = p @ dquote # c # q" "plain_string p" "\<not> json_space c" "c \<noteq> CHR '',''" "c \<noteq> CHR ''}''"
  shows "mutate codec ar = Returns (Some (errResponse
    (marshaler_error (InvalidText codec (MarshalJSON (FormatNumber codec) j)))))"
  using assms(1-6) quoted_path_fails [OF assms(8,7,10-13,9)]
  by (simp add: mutate_def newLogger_def deserialize_ok serialize_def CreatePatch_def)

text \<open>
  C40. A review whose body cannot be decoded into a review with a request makes the handler panic,
  where it meant to answer with the error: the response is given the UID of a request that is not
  there. With a request, the error is answered.
\<close>

theorem undecodable_review_panics:
  assumes "ContentType r = ''application/json''" "DecodeReview codec (read_body r) = (ar, Some e)"
  shows "handle codec worker r =
    (case Request ar of
       None \<Rightarrow> Panics nil_dereference
     | Some request \<Rightarrow> Returns (Some (fst (MarshalReview codec
         \<lparr>Request = None, Response = Some ((errResponse e)\<lparr>rsp_UID := req_UID request\<rparr>)\<rparr>))))"
  using assms by (rule handle_undecodable)

theorem undecodable_review_panics_witness:
  "handle sample_codec (validate sample_codec) \<lparr>Body = Some (''{'', None), ContentType = ''application/json''\<rparr> =
     Panics nil_dereference"
  using undecodable_review_panics [of "\<lparr>Body = Some (''{'', None), ContentType = ''application/json''\<rparr>"
      sample_codec "\<lparr>Request = None, Response = None\<rparr>" "ErrorString ''bad''"]
  by (simp add: sample_codec_def)

text \<open>
  A handler answers a decoded review with what its worker decided, under the UID of the request;
  it does not answer a request of another content type.
\<close>

lemma handler_answers:
  assumes "DecodeReview codec (read_body r) = (ar, None)" "Request ar = Some request"
    "worker ar = Returns (Some rsp)"
  shows "handle codec worker r =
    (if ContentType r \<noteq> ''application/json'' then Returns None
     else Returns (Some (fst (MarshalReview codec
       \<lparr>Request = None, Response = Some (rsp\<lparr>rsp_UID := req_UID request\<rparr>)\<rparr>))))"
proof (cases "ContentType r = ''application/json''")
  case True
  from handle_review [OF True assms(1), of request worker rsp] assms(2,3) True show ?thesis by simp
qed (simp add: handle_wrong_type)

end
