(* ===== verification/Metrics.thy ===== *)
theory Metrics
  imports Go_Base
begin

text \<open>
  The saturation metric of \<open>pkg/metrics/ratelimiter.go\<close> and what it uses of the Prometheus client:
  the descriptor of a gauge without labels (\<open>desc.go\<close>, \<open>metric.go\<close>) and the registration of a
  collector that has that one descriptor (\<open>registry.go\<close>), down to the that identifies it
  (\<open>fnv.go\<close>).
\<close>

section \<open>The of the client\<close>

definition offset64 :: "64 word" where "offset64 = 14695981039346656037"
definition prime64 :: "64 word" where "prime64 = 1099511628211"

definition hashNew :: "64 word" where "hashNew = offset64"

definition hashAddByte :: "64 word \<Rightarrow> char \<Rightarrow> 64 word" where
  "hashAddByte h b = xor h (of_char b) * prime64"

fun hashAdd :: "64 word \<Rightarrow> string \<Rightarrow> 64 word" where
  "hashAdd h [] = h"
| "hashAdd h (c # s) = hashAdd (hashAddByte h c) s"

definition separatorByte :: char where "separatorByte = CHR 0xFF"

section \<open>Descriptors\<close>

record metric_desc =
  fqName :: string
  help_text :: string
  desc_id :: "64 word"
  dimHash :: "64 word"
  desc_err :: "go_error option"

definition BuildFQName :: "string \<Rightarrow> string \<Rightarrow> string \<Rightarrow> string" where
  "BuildFQName namespace subsystem name =
     (if name = [] then []
      else if namespace \<noteq> [] \<and> subsystem \<noteq> [] then namespace @ ''_'' @ subsystem @ ''_'' @ name
      else if namespace \<noteq> [] then namespace @ ''_'' @ name
      else if subsystem \<noteq> [] then subsystem @ ''_'' @ name
      else name)"

text \<open>The regular expression \<open>^[a-zA-Z_][a-zA-Z0-9_:]*$\<close>.\<close>

definition name_start :: "char \<Rightarrow> bool" where
  "name_start c =
     (let n = of_char c :: nat in (97 \<le> n \<and> n \<le> 122) \<or> (65 \<le> n \<and> n \<le> 90) \<or> n = 95)"

definition name_rest :: "char \<Rightarrow> bool" where
  "name_rest c =
     (let n = of_char c :: nat in name_start c \<or> (48 \<le> n \<and> n \<le> 57) \<or> n = 58)"

fun valid_metric_name :: "string \<Rightarrow> bool" where
  "valid_metric_name [] = False"
| "valid_metric_name (c # cs) = (name_start c \<and> list_all name_rest cs)"

text \<open>\<open>NewDesc\<close> without labels.\<close>

definition NewDesc :: "string \<Rightarrow> string \<Rightarrow> metric_desc" where
  "NewDesc fq hlp =
     (let d = \<lparr>fqName = fq, help_text = hlp, desc_id = 0, dimHash = 0, desc_err = None\<rparr> in
      if hlp = [] then d\<lparr>desc_err := Some (ErrorString ''empty help string'')\<rparr>
      else if \<not> valid_metric_name fq then
        d\<lparr>desc_err := Some (ErrorString (fmt_q fq @ '' is not a valid metric name''))\<rparr>
      else d\<lparr>desc_id := hashAddByte (hashAdd hashNew fq) separatorByte,
        dimHash := hashAddByte (hashAdd hashNew hlp) separatorByte\<rparr>)"

definition Desc_String :: "metric_desc \<Rightarrow> string" where
  "Desc_String d =
     ''Desc{fqName: '' @ fmt_q (fqName d) @ '', help: '' @ fmt_q (help_text d) @
     '', constLabels: {}, variableLabels: []}''"

section \<open>The registry\<close>

record registry =
  descIDs :: "64 word set"
  dimHashesByName :: "string \<rightharpoonup> 64 word"
  collectorsByID :: "64 word \<rightharpoonup> metric_desc"

text \<open>\<open>Register\<close> of a collector with one descriptor.\<close>

definition Register :: "metric_desc \<Rightarrow> registry \<Rightarrow> go_error option \<times> registry" where
  "Register d r =
     (case desc_err d of
        Some e \<Rightarrow>
          (Some (ErrorString (''descriptor '' @ Desc_String d @ '' is invalid: '' @ Error e)), r)
      | None \<Rightarrow>
          if (case dimHashesByName r (fqName d) of None \<Rightarrow> False | Some h \<Rightarrow> h \<noteq> dimHash d) then
            (Some (ErrorString (''a previously registered descriptor with the same fully-qualified name as ''
              @ Desc_String d @ '' has different label names or a different help string'')), r)
          else if collectorsByID r (desc_id d) \<noteq> None then
            (Some (ErrorString ''duplicate metrics collector registration attempted''), r)
          else if desc_id d \<in> descIDs r then
            (Some (ErrorString (''descriptor '' @ Desc_String d @
              '' already exists with the same fully-qualified name and const label values'')), r)
          else
            (None, r\<lparr>collectorsByID := (collectorsByID r)(desc_id d \<mapsto> d),
               descIDs := insert (desc_id d) (descIDs r),
               dimHashesByName := (dimHashesByName r)(fqName d \<mapsto> dimHash d)\<rparr>))"

section \<open>The rate limiter metric\<close>

record metrics_state =
  rateLimiterMetrics :: "string \<rightharpoonup> metric_desc"
  registered :: registry

definition rate_limiter_gauge :: "string \<Rightarrow> metric_desc" where
  "rate_limiter_gauge ownerName =
     NewDesc (BuildFQName [] ownerName ''rate_limiter_use'')
       (''A metric measuring the saturation of the rate limiter for '' @ ownerName)"

definition registerRateLimiterMetric ::
    "string \<Rightarrow> metrics_state \<Rightarrow> go_error option \<times> metrics_state" where
  "registerRateLimiterMetric ownerName s =
     (case rateLimiterMetrics s ownerName of
        Some _ \<Rightarrow> (Some (ErrorString (''metric for '' @ ownerName @ '' already registered'')), s)
      | None \<Rightarrow>
          let metric = rate_limiter_gauge ownerName;
              s1 = s\<lparr>rateLimiterMetrics := (rateLimiterMetrics s)(ownerName \<mapsto> metric)\<rparr>
          in case Register metric (registered s1) of
               (Some err, r) \<Rightarrow>
                 (Some (errorf_v ''error registering rate limiter usage metric: '' err), s1\<lparr>registered := r\<rparr>)
             | (None, r) \<Rightarrow> (None, s1\<lparr>registered := r\<rparr>))"

definition RegisterMetricAndTrackRateLimiterUsage ::
    "string \<Rightarrow> metrics_state \<Rightarrow> go_error option \<times> metrics_state" where
  "RegisterMetricAndTrackRateLimiterUsage ownerName s =
     (case registerRateLimiterMetric ownerName s of
        (Some err, s') \<Rightarrow> (Some err, s')
      | (None, s') \<Rightarrow> (None, s'))"

text \<open>The owner under which \<open>New\<close> registers the controller's client.\<close>

definition controllerName :: string where
  "controllerName = ''virtual-machines''"

definition controller_metric_owner :: string where
  "controller_metric_owner = ''ci_'' @ controllerName @ ''_controller''"

section \<open>Facts\<close>

lemma Track_eq:
  "RegisterMetricAndTrackRateLimiterUsage owner s = registerRateLimiterMetric owner s"
  by (simp add: RegisterMetricAndTrackRateLimiterUsage_def split: prod.split option.split)

lemma rate_limiter_gauge_err:
  "desc_err (rate_limiter_gauge owner) = None \<longleftrightarrow>
     valid_metric_name (BuildFQName [] owner ''rate_limiter_use'')"
  by (simp add: rate_limiter_gauge_def NewDesc_def Let_def)

lemma Register_refused: "fst (Register d r) \<noteq> None \<Longrightarrow> snd (Register d r) = r"
  by (auto simp: Register_def split: option.splits if_splits)

lemma registration_remembered:
  "rateLimiterMetrics (snd (registerRateLimiterMetric owner s)) owner \<noteq> None"
  by (simp add: registerRateLimiterMetric_def Let_def split: option.split prod.split)

lemma remembered_refused:
  "rateLimiterMetrics s owner \<noteq> None \<Longrightarrow>
     registerRateLimiterMetric owner s =
       (Some (ErrorString (''metric for '' @ owner @ '' already registered'')), s)"
  by (auto simp: registerRateLimiterMetric_def)

lemma registration_refused:
  assumes "fst (registerRateLimiterMetric owner s) \<noteq> None"
  shows "registered (snd (registerRateLimiterMetric owner s)) = registered s"
  using assms Register_refused [of "rate_limiter_gauge owner" "registered s"]
  by (auto simp: registerRateLimiterMetric_def Let_def split: option.splits prod.splits)

lemma invalid_name_refused:
  assumes "\<not> valid_metric_name (BuildFQName [] owner ''rate_limiter_use'')"
  shows "fst (registerRateLimiterMetric owner s) \<noteq> None"
proof -
  obtain e where "desc_err (rate_limiter_gauge owner) = Some e"
    using assms rate_limiter_gauge_err [of owner] by (cases "desc_err (rate_limiter_gauge owner)") auto
  then show ?thesis
    by (auto simp: registerRateLimiterMetric_def Let_def Register_def split: option.split prod.split)
qed

text \<open>
  An owner is tried once: whatever became of its registration, the next one is refused as a
  duplicate and changes nothing, even if the metric never reached the registry.
\<close>

lemma owner_tried_once:
  "RegisterMetricAndTrackRateLimiterUsage owner (snd (RegisterMetricAndTrackRateLimiterUsage owner s)) =
     (Some (ErrorString (''metric for '' @ owner @ '' already registered'')),
      snd (RegisterMetricAndTrackRateLimiterUsage owner s))"
  unfolding Track_eq by (rule remembered_refused [OF registration_remembered])

text \<open>
  The metric of this controller cannot be registered: the name of the controller contains a
  hyphen, which no metric name may contain. The registry stays as it is and the error, which the
  caller ignores, is not nil.
\<close>

theorem controller_metric_never_registered:
  "fst (RegisterMetricAndTrackRateLimiterUsage controller_metric_owner s) \<noteq> None \<and>
   registered (snd (RegisterMetricAndTrackRateLimiterUsage controller_metric_owner s)) = registered s"
proof -
  have "\<not> valid_metric_name (BuildFQName [] controller_metric_owner ''rate_limiter_use'')"
    by code_simp
  then show ?thesis
    unfolding Track_eq by (metis invalid_name_refused registration_refused)
qed

text \<open>
  An owner with a valid name gets its metric into an empty registry, under the name
  \<open><owner>_rate_limiter_use\<close>.
\<close>

lemma valid_owner_registered:
  assumes "valid_metric_name (owner @ ''_rate_limiter_use'')" "owner \<noteq> []"
    "rateLimiterMetrics s owner = None"
    "registered s = \<lparr>descIDs = {}, dimHashesByName = Map.empty, collectorsByID = Map.empty\<rparr>"
  shows "\<exists>s' d. RegisterMetricAndTrackRateLimiterUsage owner s = (None, s') \<and>
    collectorsByID (registered s') (desc_id d) = Some d \<and> fqName d = owner @ ''_rate_limiter_use''"
  using assms
  by (auto simp: Track_eq registerRateLimiterMetric_def rate_limiter_gauge_def Register_def NewDesc_def
      BuildFQName_def Let_def)

end
