(* ===== verification/Startup.thy ===== *)
theory Startup
  imports Controller Admission Metrics
begin

text \<open>
  How the two programs are put together. The controller: the steps of \<open>main\<close> in
  \<open>cmd/ci-vm-operator/ci-vm-operator.go\<close> up to the signal handler, \<open>loadClusterConfig\<close>,
  \<open>NewGCEClient\<close> of \<open>pkg/controller/gce.go\<close> and \<open>New\<close> of \<open>pkg/controller/controller.go\<close>. The
  admission controller: \<open>Run\<close> of \<open>pkg/admission-controller/controller.go\<close>, which
  \<open>cmd/admission-controller/admission-controller.go\<close> calls, with the two paths it serves. What the
  libraries answer (files, flags, cluster and cloud credentials) is a parameter; \<open>Fatal\<close> is the end
  of the process with a logged error.
\<close>

section \<open>Tools\<close>

record 'c cluster_tools =
  InClusterConfig :: "'c \<times> go_error option"
  LoadRules :: "string \<times> go_error option"
  ClientConfig :: "string \<Rightarrow> 'c \<times> go_error option"

record ('c, 'b) boot_tools = "'c cluster_tools" +
  ParseLevel :: "string \<Rightarrow> go_error option"
  OpenConfig :: "string \<Rightarrow> string \<times> go_error option"
  DecodeConfig :: "string \<Rightarrow> configuration \<times> go_error option"
  NewKubeClient :: "'c \<Rightarrow> go_error option"
  NewVMClient :: "'c \<Rightarrow> go_error option"
  DefaultClient :: "go_error option"
  NewComputeService :: "go_error option"
  HasRateLimiter :: "'c \<Rightarrow> bool"
  FullBucket :: 'b

record options =
  configLocation :: string
  numWorkers :: int64
  logLevel :: string

definition default_options :: options where
  "default_options = \<lparr>configLocation = [], numWorkers = 10, logLevel = ''debug''\<rparr>"

datatype 'a boot = Fatal string go_error | Started 'a

section \<open>The controller\<close>

definition loadClusterConfig :: "('c, 'm) cluster_tools_scheme \<Rightarrow> 'c option \<times> go_error option" where
  "loadClusterConfig tools =
     (case InClusterConfig tools of
        (clusterConfig, None) \<Rightarrow> (Some clusterConfig, None)
      | (_, Some _) \<Rightarrow>
          (case LoadRules tools of
             (_, Some err) \<Rightarrow> (None, Some (errorf_v ''could not load credentials from config: '' err))
           | (credentials, None) \<Rightarrow>
               (case ClientConfig tools credentials of
                  (_, Some err) \<Rightarrow> (None, Some (errorf_v ''could not load client configuration: '' err))
                | (clusterConfig, None) \<Rightarrow> (Some clusterConfig, None))))"

definition NewGCEClient :: "('c, 'b) boot_tools \<Rightarrow> go_error option" where
  "NewGCEClient tools =
     (case DefaultClient tools of
        Some err \<Rightarrow> Some err
      | None \<Rightarrow> (case NewComputeService tools of Some err \<Rightarrow> Some err | None \<Rightarrow> None))"

text \<open>The controller that \<open>New\<close> builds, with the handlers it gives the informer.\<close>

record 'b new_controller =
  c_config :: configuration
  c_queue :: "(string, 'b) rl_queue"
  AddFunc :: "informer_object \<Rightarrow> ((string, 'b) rl_queue, unit) go"
  UpdateFunc :: "informer_object \<Rightarrow> informer_object \<Rightarrow> ((string, 'b) rl_queue, unit) go"
  DeleteFunc :: "informer_object \<Rightarrow> ((string, 'b) rl_queue, unit) go"

definition New :: "configuration \<Rightarrow> bool \<Rightarrow> 'b \<Rightarrow> metrics_state \<Rightarrow> 'b new_controller \<times> metrics_state" where
  "New config limited bucket m =
     (let m' = (if limited
          then snd (RegisterMetricAndTrackRateLimiterUsage controller_metric_owner m) else m)
      in (\<lparr>c_config = config, c_queue = new_rl_queue bucket, AddFunc = handler_add,
        UpdateFunc = handler_update, DeleteFunc = handler_delete\<rparr>, m'))"

definition main_setup ::
    "('c, 'b) boot_tools \<Rightarrow> options \<Rightarrow> metrics_state \<Rightarrow> ('b new_controller \<times> metrics_state) boot" where
  "main_setup tools opts m =
     (case ParseLevel tools (logLevel opts) of
        Some err \<Rightarrow> Fatal ''failed to parse log level'' err
      | None \<Rightarrow>
     (case OpenConfig tools (configLocation opts) of
        (_, Some err) \<Rightarrow> Fatal ''could not read configuration file'' err
      | (f, None) \<Rightarrow>
     (case DecodeConfig tools f of
        (_, Some err) \<Rightarrow> Fatal ''could not decode configuration file'' err
      | (config, None) \<Rightarrow>
     (case loadClusterConfig tools of
        (None, err) \<Rightarrow> Fatal ''failed to load cluster config'' (the err)
      | (Some clusterConfig, _) \<Rightarrow>
     (case NewKubeClient tools clusterConfig of
        Some err \<Rightarrow> Fatal ''failed to initialize kubernetes client'' err
      | None \<Rightarrow>
     (case NewVMClient tools clusterConfig of
        Some err \<Rightarrow> Fatal ''failed to initialize kubernetes client'' err
      | None \<Rightarrow>
     (case NewGCEClient tools of
        Some err \<Rightarrow> Fatal ''failed to initialize GCE client'' err
      | None \<Rightarrow>
          Started (New config (HasRateLimiter tools clusterConfig) (FullBucket tools) m))))))))"

section \<open>The admission controller\<close>

record serve_options =
  CertFile :: string
  KeyFile :: string
  LogLevel :: string

definition default_serve_options :: serve_options where
  "default_serve_options = \<lparr>CertFile = [], KeyFile = [], LogLevel = ''debug''\<rparr>"

text \<open>The handlers registered by path; the server answers other paths itself.\<close>

definition served :: "'n codec \<Rightarrow> string \<Rightarrow> (http_request \<Rightarrow> string option panicky) option" where
  "served codec path =
     (if path = ''/validate'' then Some (handle codec (validate codec))
      else if path = ''/mutate'' then Some (handle codec (mutate codec))
      else None)"

definition admission_Run ::
    "(string \<Rightarrow> go_error option) \<Rightarrow> (string \<Rightarrow> string \<Rightarrow> go_error option) \<Rightarrow> 'n codec \<Rightarrow> serve_options \<Rightarrow>
     (string \<Rightarrow> (http_request \<Rightarrow> string option panicky) option) boot" where
  "admission_Run parse_level load_pair codec c =
     (case parse_level (LogLevel c) of
        Some err \<Rightarrow> Fatal ''failed to parse log level'' err
      | None \<Rightarrow>
     (case load_pair (CertFile c) (KeyFile c) of
        Some err \<Rightarrow> Fatal ''failed to load x509 key pair'' err
      | None \<Rightarrow> Started (served codec)))"

text \<open>
  \<open>main\<close> of the admission controller: the flags of the command line, as names and values, over their
  defaults, and \<open>Run\<close>, which serves until \<open>ListenAndServeTLS\<close> fails.
\<close>

fun set_flags :: "(string \<times> string) list \<Rightarrow> serve_options \<Rightarrow> serve_options" where
  "set_flags [] c = c"
| "set_flags ((name, arg) # flags) c =
     set_flags flags
       (if name = ''tls-cert-file'' then c\<lparr>CertFile := arg\<rparr>
        else if name = ''tls-private-key-file'' then c\<lparr>KeyFile := arg\<rparr>
        else if name = ''log-level'' then c\<lparr>LogLevel := arg\<rparr>
        else c)"

definition admission_main ::
    "(string \<Rightarrow> go_error option) \<Rightarrow> (string \<Rightarrow> string \<Rightarrow> go_error option) \<Rightarrow> 'n codec \<Rightarrow> go_error option \<Rightarrow>
     (string \<times> string) list \<Rightarrow> (string \<Rightarrow> (http_request \<Rightarrow> string option panicky) option) boot" where
  "admission_main parse_level load_pair codec ended flags =
     (let config = set_flags flags default_serve_options
      in case admission_Run parse_level load_pair codec config of
           Fatal m err \<Rightarrow> Fatal m err
         | Started routes \<Rightarrow>
             (case ended of
                Some err \<Rightarrow> Fatal ''failed to run admission controller'' err
              | None \<Rightarrow> Started routes))"

section \<open>Facts\<close>

lemma admission_main_started:
  "admission_main parse_level load_pair codec ended flags = Started routes \<longleftrightarrow>
     parse_level (LogLevel (set_flags flags default_serve_options)) = None \<and>
     load_pair (CertFile (set_flags flags default_serve_options)) (KeyFile (set_flags flags default_serve_options)) = None \<and>
     ended = None \<and> routes = served codec"
  by (auto simp: admission_main_def admission_Run_def Let_def split: option.splits)

lemma loadClusterConfig_error: "fst (loadClusterConfig tools) = None \<longleftrightarrow> snd (loadClusterConfig tools) \<noteq> None"
  by (simp add: loadClusterConfig_def split: prod.split option.split)

lemma New_registry: "registered (snd (New config limited bucket m)) = registered m"
proof -
  have "\<not> valid_metric_name (BuildFQName [] controller_metric_owner ''rate_limiter_use'')"
    by code_simp
  from registration_refused [OF invalid_name_refused [OF this]] show ?thesis
    by (simp add: New_def Let_def Track_eq)
qed

lemma main_setup_started:
  assumes "main_setup tools opts m = Started r"
  obtains f config limited where "OpenConfig tools (configLocation opts) = (f, None)"
    "DecodeConfig tools f = (config, None)" "r = New config limited (FullBucket tools) m"
  using assms by (auto simp: main_setup_def split: option.splits prod.splits)

text \<open>
  A process that starts has the configuration of the file it was given, an empty queue, and
  handlers that queue the key of an object under which \<open>reconcile\<close> reads it back; starting it leaves
  the metrics of the process as they were.
\<close>

theorem started_controller:
  assumes "main_setup tools opts m = Started (c, m')"
    "slash_free (vm_namespace vm)" "slash_free (vm_name vm)"
  shows "c_config c = fst (DecodeConfig tools (fst (OpenConfig tools (configLocation opts)))) \<and>
    registered m' = registered m \<and> queue (base (c_queue c)) = [] \<and>
    (\<exists>key. queue (base (snd (AddFunc c (VMObject vm) (c_queue c)))) = [key] \<and>
       SplitMetaNamespaceKey key = (vm_namespace vm, vm_name vm, None))"
proof -
  obtain f config limited where boot: "OpenConfig tools (configLocation opts) = (f, None)"
      "DecodeConfig tools f = (config, None)" "(c, m') = New config limited (FullBucket tools) m"
    using assms(1) by (rule main_setup_started)
  have "registered m' = registered m"
    using New_registry [of config limited "FullBucket tools" m] boot(3) by (metis snd_conv)
  moreover have "c = \<lparr>c_config = config, c_queue = new_rl_queue (FullBucket tools), AddFunc = handler_add,
      UpdateFunc = handler_update, DeleteFunc = handler_delete\<rparr>"
    using boot(3) by (simp add: New_def Let_def)
  ultimately show ?thesis
    using boot(1,2) split_key_of [OF assms(2,3)]
    by (simp add: rlq_Add_def new_rl_queue_def new_wqueue_def wq_Add_def)
qed

definition sample_tools :: "(unit, unit) boot_tools" where
  "sample_tools = \<lparr>InClusterConfig = ((), None), LoadRules = ([], None), ClientConfig = (\<lambda>_. ((), None)),
     ParseLevel = (\<lambda>_. None), OpenConfig = (\<lambda>_. (''file'', None)), DecodeConfig = (\<lambda>_. (sample_cfg, None)),
     NewKubeClient = (\<lambda>_. None), NewVMClient = (\<lambda>_. None), DefaultClient = None, NewComputeService = None,
     HasRateLimiter = (\<lambda>_. True), FullBucket = ()\<rparr>"

definition no_metrics :: metrics_state where
  "no_metrics = \<lparr>rateLimiterMetrics = Map.empty,
     registered = \<lparr>descIDs = {}, dimHashesByName = Map.empty, collectorsByID = Map.empty\<rparr>\<rparr>"

theorem started_controller_witness:
  "registered (snd (New sample_cfg True () no_metrics)) = registered no_metrics \<and>
   queue (base (c_queue (fst (New sample_cfg True () no_metrics)))) = []"
proof -
  have "main_setup sample_tools default_options no_metrics =
      Started (fst (New sample_cfg True () no_metrics), snd (New sample_cfg True () no_metrics))"
    by (simp add: main_setup_def sample_tools_def loadClusterConfig_def NewGCEClient_def)
  moreover have "slash_free (vm_namespace (sample_vm None))" "slash_free (vm_name (sample_vm None))"
    by code_simp+
  ultimately show ?thesis using started_controller by blast
qed

text \<open>
  End to end, the admission server refuses exactly the updates that change the specification of
  a machine outside the status subresource: the answer on \<open>/validate\<close> to a review of such an update
  carries the verdict under the UID of the request.
\<close>

theorem served_verdict:
  assumes "admission_Run parse_level load_pair codec c = Started routes"
    "routes ''/validate'' = Some serve"
    "ContentType r = ''application/json''" "DecodeReview codec (read_body r) = (ar, None)"
    "Request ar = Some request"
    "decodes_to codec (req_Object request) newVm" "decodes_to codec (req_OldObject request) oldVm"
  shows "serve r = Returns (Some (fst (MarshalReview codec \<lparr>Request = None, Response = Some ((verdict
      (req_SubResource request = ''status'' \<or> spec_DeepEqual (spec oldVm) (spec newVm)))
        \<lparr>rsp_UID := req_UID request\<rparr>)\<rparr>)))"
proof -
  have "serve = handle codec (validate codec)"
    using assms(1,2) by (auto simp: admission_Run_def served_def split: option.splits)
  moreover have "validate codec ar = Returns (Some (verdict
      (req_SubResource request = ''status'' \<or> spec_DeepEqual (spec oldVm) (spec newVm))))"
    using assms(5-7) by (cases "req_SubResource request = ''status''")
      (simp_all add: validate_status validate_update)
  ultimately show ?thesis
    using assms(3-5) by (simp add: handle_review)
qed

theorem served_verdict_witness:
  "\<exists>serve. served (sample_codec\<lparr>DecodeReview := \<lambda>s. (\<lparr>Request = Some sample_request, Response = None\<rparr>, None)\<rparr>)
      ''/validate'' = Some serve \<and>
    (\<exists>answer. serve \<lparr>Body = Some (''{}'', None), ContentType = ''application/json''\<rparr> = Returns (Some answer))"
proof -
  let ?codec = "sample_codec\<lparr>DecodeReview := \<lambda>s. (\<lparr>Request = Some sample_request, Response = None\<rparr>, None)\<rparr>"
  have "admission_Run (\<lambda>_. None) (\<lambda>_ _. None) ?codec default_serve_options = Started (served ?codec)"
    by (simp add: admission_Run_def)
  moreover have "served ?codec ''/validate'' = Some (handle ?codec (validate ?codec))"
    by (simp add: served_def)
  ultimately show ?thesis
    using served_verdict [of "\<lambda>_. None" "\<lambda>_ _. None" ?codec default_serve_options "served ?codec"
        "handle ?codec (validate ?codec)" "\<lparr>Body = Some (''{}'', None), ContentType = ''application/json''\<rparr>"
        "\<lparr>Request = Some sample_request, Response = None\<rparr>" sample_request "sample_vm None" "sample_vm None"]
    by (auto simp: sample_codec_def decodes_to_def sample_request_def)
qed

end
