(* ===== verification/Deep_Copy.thy ===== *)
theory Deep_Copy
  imports Gce_Machines "HOL-Library.AList"
begin

text \<open>
  The generated copies of \<open>pkg/apis/virtualmachines/v1alpha1/zz_generated.deepcopy.go\<close>, and the one of
  \<open>ObjectMeta\<close> they call, on an explicit store: a struct keeps its slices, maps and pointers as
  addresses, so an assignment of structs shares them. The other theories use objects as values;
  what is shown here is that the copies they stand for are equal to the original and share nothing
  with it. Memory is a list of cells that only grows; \<open>make\<close> and \<open>new\<close> take the next address.
\<close>

section \<open>Memory\<close>

type_synonym addr = nat

record meta_ref =
  rm_name :: string
  rm_namespace :: string
  rm_uid :: string
  rm_resourceVersion :: string
  rm_generation :: int64
  rm_creationTimestamp :: gotime
  rm_deletionTimestamp :: "addr option"
  rm_labels :: "addr option"
  rm_annotations :: "addr option"
  rm_ownerReferences :: "addr option"
  rm_finalizers :: "addr option"

record spec_ref =
  rs_machineType :: string
  rs_bootDisk :: boot_disk_spec
  rs_disks :: "addr option"

record vm_ref =
  r_type_meta :: type_meta
  r_metadata :: meta_ref
  r_spec :: spec_ref
  r_status :: vm_status

record list_ref =
  lr_type_meta :: type_meta
  lr_resourceVersion :: string
  lr_items :: "addr option"

datatype cell =
    Strings "string list"
  | Disks "disk_spec list"
  | Owners "owner_reference list"
  | Pairs "(string \<times> string) list"
  | Instant gotime
  | Machine vm_ref
  | Items "vm_ref list"
  | MachineList list_ref
  | State processing_state
  | DiskSpec disk_spec
  | BootDisk boot_disk_spec
  | MachineSpec spec_ref
  | MachineStatus vm_status

type_synonym memory = "cell list"

fun strings_in :: "cell \<Rightarrow> string list" where
  "strings_in (Strings xs) = xs"
| "strings_in _ = []"

fun disks_in :: "cell \<Rightarrow> disk_spec list" where
  "disks_in (Disks xs) = xs"
| "disks_in _ = []"

fun owners_in :: "cell \<Rightarrow> owner_reference list" where
  "owners_in (Owners xs) = xs"
| "owners_in _ = []"

fun pairs_in :: "cell \<Rightarrow> (string \<times> string) list" where
  "pairs_in (Pairs xs) = xs"
| "pairs_in _ = []"

fun instant_in :: "cell \<Rightarrow> gotime" where
  "instant_in (Instant t) = t"
| "instant_in _ = 0"

fun items_in :: "cell \<Rightarrow> vm_ref list" where
  "items_in (Items xs) = xs"
| "items_in _ = []"

definition zero_meta :: meta_ref where
  "zero_meta = \<lparr>rm_name = [], rm_namespace = [], rm_uid = [], rm_resourceVersion = [], rm_generation = 0,
     rm_creationTimestamp = 0, rm_deletionTimestamp = None, rm_labels = None, rm_annotations = None,
     rm_ownerReferences = None, rm_finalizers = None\<rparr>"

definition zero_disk :: disk_spec where
  "zero_disk = \<lparr>sizeGb = 0, disk_type = []\<rparr>"

definition zero_owner :: owner_reference where
  "zero_owner = \<lparr>or_apiVersion = [], or_kind = [], or_name = [], or_uid = []\<rparr>"

definition zero_vm :: vm_ref where
  "zero_vm = \<lparr>r_type_meta = \<lparr>kind = [], apiVersion = []\<rparr>, r_metadata = zero_meta,
     r_spec = \<lparr>rs_machineType = [], rs_bootDisk = \<lparr>sizeGb = 0, disk_type = [], imageFamily = []\<rparr>, rs_disks = None\<rparr>,
     r_status = \<lparr>state = \<lparr>processingPhase = [], message = []\<rparr>, selfLink = [],
       secretRef = \<lparr>ref_kind = [], ref_namespace = [], ref_name = [], ref_uid = []\<rparr>\<rparr>\<rparr>"

fun machine_in :: "cell \<Rightarrow> vm_ref" where
  "machine_in (Machine r) = r"
| "machine_in _ = zero_vm"

text \<open>What an address field holds, and the object that a struct stands for in a memory.\<close>

definition content :: "memory \<Rightarrow> addr option \<Rightarrow> cell option" where
  "content m x = map_option (\<lambda>a. m ! a) x"

definition as_slice :: "(cell \<Rightarrow> 'a list) \<Rightarrow> cell option \<Rightarrow> 'a slice" where
  "as_slice f c = (case c of None \<Rightarrow> NilSlice | Some c \<Rightarrow> Slice (f c))"

definition view :: "memory \<Rightarrow> vm_ref \<Rightarrow> virtual_machine" where
  "view m r =
     \<lparr>type_meta = r_type_meta r,
      metadata = \<lparr>om_name = rm_name (r_metadata r), om_namespace = rm_namespace (r_metadata r),
        om_uid = rm_uid (r_metadata r), om_resourceVersion = rm_resourceVersion (r_metadata r),
        om_generation = rm_generation (r_metadata r),
        om_creationTimestamp = rm_creationTimestamp (r_metadata r),
        om_deletionTimestamp = map_option instant_in (content m (rm_deletionTimestamp (r_metadata r))),
        om_labels = as_slice pairs_in (content m (rm_labels (r_metadata r))),
        om_annotations = as_slice pairs_in (content m (rm_annotations (r_metadata r))),
        om_ownerReferences = as_slice owners_in (content m (rm_ownerReferences (r_metadata r))),
        om_finalizers = as_slice strings_in (content m (rm_finalizers (r_metadata r)))\<rparr>,
      spec = \<lparr>machineType = rs_machineType (r_spec r), bootDisk = rs_bootDisk (r_spec r),
        disks = as_slice disks_in (content m (rs_disks (r_spec r)))\<rparr>,
      status = r_status r\<rparr>"

section \<open>The copies\<close>

text \<open>\<open>copy\<close> of the language, and the loops over slices and maps.\<close>

definition go_copy :: "'a list \<Rightarrow> 'a list \<Rightarrow> 'a list" where
  "go_copy dst src = take (length dst) src @ drop (length src) dst"

fun copy_owners :: "nat \<Rightarrow> owner_reference list \<Rightarrow> owner_reference list \<Rightarrow> owner_reference list" where
  "copy_owners i [] out = out"
| "copy_owners i (x # xs) out = copy_owners (Suc i) xs (out[i := x])"

fun copy_pairs :: "(string \<times> string) list \<Rightarrow> (string \<times> string) list \<Rightarrow> (string \<times> string) list" where
  "copy_pairs [] out = out"
| "copy_pairs ((key, val) # kvs) out = copy_pairs kvs (AList.update key val out)"

fun fresh_copy :: "cell \<Rightarrow> cell" where
  "fresh_copy (Strings xs) = Strings (go_copy (replicate (length xs) []) xs)"
| "fresh_copy (Disks xs) = Disks (go_copy (replicate (length xs) zero_disk) xs)"
| "fresh_copy (Owners xs) = Owners (copy_owners 0 xs (replicate (length xs) zero_owner))"
| "fresh_copy (Pairs kvs) = Pairs (copy_pairs kvs [])"
| "fresh_copy c = c"

text \<open>A field that is nil stays nil; any other gets a new array, map or variable.\<close>

fun copy_field :: "addr option \<Rightarrow> memory \<Rightarrow> addr option \<times> memory" where
  "copy_field None m = (None, m)"
| "copy_field (Some a) m = (Some (length m), m @ [fresh_copy (m ! a)])"

definition ObjectMeta_DeepCopyInto :: "meta_ref \<Rightarrow> memory \<Rightarrow> meta_ref \<times> memory" where
  "ObjectMeta_DeepCopyInto inn m =
     (let out = inn;
          out = out\<lparr>rm_creationTimestamp := rm_creationTimestamp inn\<rparr>;
          (x, m) = copy_field (rm_deletionTimestamp inn) m;
          out = out\<lparr>rm_deletionTimestamp := x\<rparr>;
          (x, m) = copy_field (rm_labels inn) m;
          out = out\<lparr>rm_labels := x\<rparr>;
          (x, m) = copy_field (rm_annotations inn) m;
          out = out\<lparr>rm_annotations := x\<rparr>;
          (x, m) = copy_field (rm_ownerReferences inn) m;
          out = out\<lparr>rm_ownerReferences := x\<rparr>;
          (x, m) = copy_field (rm_finalizers inn) m;
          out = out\<lparr>rm_finalizers := x\<rparr>
      in (out, m))"

definition ProcessingState_DeepCopyInto :: "processing_state \<Rightarrow> processing_state" where
  "ProcessingState_DeepCopyInto inn = (let out = inn in out)"

definition VirtualMachineDiskSpec_DeepCopyInto :: "disk_spec \<Rightarrow> disk_spec" where
  "VirtualMachineDiskSpec_DeepCopyInto inn = (let out = inn in out)"

definition VirtualMachineBootDiskSpec_DeepCopyInto :: "boot_disk_spec \<Rightarrow> boot_disk_spec" where
  "VirtualMachineBootDiskSpec_DeepCopyInto inn =
     (let out = inn;
          out = out\<lparr>sizeGb := sizeGb inn, disk_type := disk_type inn\<rparr>
      in out)"

definition VirtualMachineStatus_DeepCopyInto :: "vm_status \<Rightarrow> vm_status" where
  "VirtualMachineStatus_DeepCopyInto inn =
     (let out = inn;
          out = out\<lparr>state := state inn\<rparr>;
          out = out\<lparr>secretRef := secretRef inn\<rparr>
      in out)"

definition VirtualMachineSpec_DeepCopyInto :: "spec_ref \<Rightarrow> memory \<Rightarrow> spec_ref \<times> memory" where
  "VirtualMachineSpec_DeepCopyInto inn m =
     (let out = inn;
          out = out\<lparr>rs_bootDisk := rs_bootDisk inn\<rparr>;
          (x, m) = copy_field (rs_disks inn) m
      in (out\<lparr>rs_disks := x\<rparr>, m))"

definition VirtualMachine_DeepCopyInto :: "vm_ref \<Rightarrow> memory \<Rightarrow> vm_ref \<times> memory" where
  "VirtualMachine_DeepCopyInto inn m =
     (let out = inn;
          out = out\<lparr>r_type_meta := r_type_meta inn\<rparr>;
          (meta, m) = ObjectMeta_DeepCopyInto (r_metadata inn) m;
          out = out\<lparr>r_metadata := meta\<rparr>;
          (spec, m) = VirtualMachineSpec_DeepCopyInto (r_spec inn) m;
          out = out\<lparr>r_spec := spec\<rparr>;
          out = out\<lparr>r_status := r_status inn\<rparr>
      in (out, m))"

text \<open>The pointer versions: nil for nil, else a new struct that is filled.\<close>

fun VirtualMachine_DeepCopy :: "addr option \<Rightarrow> memory \<Rightarrow> addr option \<times> memory" where
  "VirtualMachine_DeepCopy None m = (None, m)"
| "VirtualMachine_DeepCopy (Some a) m =
     (let b = length m;
          m = m @ [Machine zero_vm];
          (out, m) = VirtualMachine_DeepCopyInto (machine_in (m ! a)) m
      in (Some b, m[b := Machine out]))"

definition VirtualMachine_DeepCopyObject :: "addr option \<Rightarrow> memory \<Rightarrow> addr option \<times> memory" where
  "VirtualMachine_DeepCopyObject inn m =
     (case VirtualMachine_DeepCopy inn m of (Some c, m) \<Rightarrow> (Some c, m) | (None, m) \<Rightarrow> (None, m))"

text \<open>The items of a list, copied one after the other into the new array at \<open>b\<close>.\<close>

fun copy_items :: "addr \<Rightarrow> nat \<Rightarrow> vm_ref list \<Rightarrow> memory \<Rightarrow> memory" where
  "copy_items b i [] m = m"
| "copy_items b i (r # rs) m =
     (let (out, m) = VirtualMachine_DeepCopyInto r m
      in copy_items b (Suc i) rs (m[b := Items ((items_in (m ! b))[i := out])]))"

definition VirtualMachineList_DeepCopyInto :: "list_ref \<Rightarrow> memory \<Rightarrow> list_ref \<times> memory" where
  "VirtualMachineList_DeepCopyInto inn m =
     (let out = inn;
          out = out\<lparr>lr_type_meta := lr_type_meta inn\<rparr>;
          out = out\<lparr>lr_resourceVersion := lr_resourceVersion inn\<rparr>
      in case lr_items inn of
           None \<Rightarrow> (out, m)
         | Some a \<Rightarrow>
             let b = length m;
                 m' = m @ [Items (replicate (length (items_in (m ! a))) zero_vm)]
             in (out\<lparr>lr_items := Some b\<rparr>, copy_items b 0 (items_in (m ! a)) m'))"

section \<open>One field\<close>

text \<open>A map has each key once; other cells are copied as they are.\<close>

fun proper :: "cell \<Rightarrow> bool" where
  "proper (Pairs kvs) = distinct (map fst kvs)"
| "proper _ = True"

lemma copy_owners_all: "i + length xs = length out \<Longrightarrow> copy_owners i xs out = take i out @ xs"
proof (induction xs arbitrary: i out)
  case (Cons x xs)
  then have "i < length out" by simp
  then have "take (Suc i) (out[i := x]) = take i out @ [x]" by (simp add: take_Suc_conv_app_nth)
  with Cons show ?case by simp
qed simp

lemma copy_pairs_all:
  "distinct (map fst (out @ kvs)) \<Longrightarrow> copy_pairs kvs out = out @ kvs"
proof (induction kvs arbitrary: out)
  case (Cons kv kvs)
  have "AList.update (fst kv) (snd kv) out = out @ [kv]"
    using Cons.prems by (induction out) auto
  with Cons show ?case by (cases kv) auto
qed simp

lemma fresh_copy_proper: "proper c \<Longrightarrow> fresh_copy c = c"
  by (cases c) (simp_all add: go_copy_def copy_owners_all copy_pairs_all)

text \<open>Where the address fields of a struct point, and memories that agree there.\<close>

definition held :: "memory \<Rightarrow> addr option list \<Rightarrow> bool" where
  "held m xs = (\<forall>a. Some a \<in> set xs \<longrightarrow> a < length m \<and> proper (m ! a))"

definition vm_fields :: "vm_ref \<Rightarrow> addr option list" where
  "vm_fields r = [rm_deletionTimestamp (r_metadata r), rm_labels (r_metadata r),
     rm_annotations (r_metadata r), rm_ownerReferences (r_metadata r), rm_finalizers (r_metadata r),
     rs_disks (r_spec r)]"

lemma content_cong:
  "(\<And>a. Some a \<in> set xs \<Longrightarrow> m' ! a = m ! a) \<Longrightarrow> map (content m') xs = map (content m) xs"
  by (auto simp: content_def split: option.splits intro!: map_option_cong)

lemma content_append: "held m xs \<Longrightarrow> map (content (m @ ds)) xs = map (content m) xs"
  by (rule content_cong) (auto simp: held_def nth_append)

lemma held_append: "held m xs \<Longrightarrow> held (m @ ds) xs"
  by (auto simp: held_def nth_append)

lemma view_cong: "map (content m') (vm_fields r) = map (content m) (vm_fields r) \<Longrightarrow> view m' r = view m r"
  by (simp add: view_def vm_fields_def)

lemma view_agree:
  "(\<And>a. Some a \<in> set (vm_fields r) \<Longrightarrow> m' ! a = m ! a) \<Longrightarrow> view m' r = view m r"
  by (rule view_cong) (rule content_cong)

section \<open>All fields\<close>

fun copy_fields :: "addr option list \<Rightarrow> memory \<Rightarrow> addr option list \<times> memory" where
  "copy_fields [] m = ([], m)"
| "copy_fields (x # xs) m =
     (let (y, m) = copy_field x m; (ys, m) = copy_fields xs m in (y # ys, m))"

lemma copy_field_held:
  assumes "copy_field x m = (y, m')" "held m [x]"
  obtains ds where "m' = m @ ds" "content m' y = content m x" "held m' [y]"
    "\<forall>a. y = Some a \<longrightarrow> length m \<le> a"
  using assms by (cases x) (auto simp: content_def held_def fresh_copy_proper nth_append)

lemma copy_fields_held:
  "copy_fields xs m = (ys, m') \<Longrightarrow> held m xs \<Longrightarrow>
     \<exists>ds. m' = m @ ds \<and> map (content m') ys = map (content m) xs \<and> held m' ys \<and>
       (\<forall>a. Some a \<in> set ys \<longrightarrow> length m \<le> a)"
proof (induction xs arbitrary: m ys m')
  case (Cons x xs)
  obtain y m1 zs where y: "copy_field x m = (y, m1)" and zs: "copy_fields xs m1 = (zs, m')" "ys = y # zs"
    using Cons.prems(1) by (auto simp: split: prod.splits)
  have "held m [x]" using Cons.prems(2) by (simp add: held_def)
  with y obtain ds where m1: "m1 = m @ ds" "content m1 y = content m x" "held m1 [y]"
      "\<forall>a. y = Some a \<longrightarrow> length m \<le> a"
    by (rule copy_field_held)
  have "held m xs" using Cons.prems(2) by (simp add: held_def)
  with m1(1) have rest: "held m1 xs" "map (content m1) xs = map (content m) xs"
    by (simp_all add: held_append content_append)
  from Cons.IH [OF zs(1) rest(1)] obtain es where es: "m' = m1 @ es"
      "map (content m') zs = map (content m1) xs" "held m' zs" "\<forall>a. Some a \<in> set zs \<longrightarrow> length m1 \<le> a"
    by blast
  have "content m' y = content m x" "held m' [y]"
    using content_append [OF m1(3), of es] held_append [OF m1(3), of es] es(1) m1(2) by simp_all
  with es m1 rest(2) zs(2) show ?case
    by (intro exI [of _ "ds @ es"]) (auto simp: held_def)
qed simp

lemma VirtualMachine_DeepCopyInto_fields:
  "\<exists>t l a ow f d m'. copy_fields (vm_fields inn) m = ([t, l, a, ow, f, d], m') \<and>
     VirtualMachine_DeepCopyInto inn m =
       (inn\<lparr>r_metadata := (r_metadata inn)\<lparr>rm_deletionTimestamp := t, rm_labels := l, rm_annotations := a,
          rm_ownerReferences := ow, rm_finalizers := f\<rparr>,
        r_spec := (r_spec inn)\<lparr>rs_disks := d\<rparr>\<rparr>, m')"
  by (simp add: vm_fields_def VirtualMachine_DeepCopyInto_def ObjectMeta_DeepCopyInto_def
      VirtualMachineSpec_DeepCopyInto_def Let_def split: prod.split)

lemma VirtualMachine_DeepCopyInto_ok:
  assumes "VirtualMachine_DeepCopyInto inn m = (out, m')" "held m (vm_fields inn)"
  obtains ds where "m' = m @ ds" "view m' out = view m inn" "held m' (vm_fields out)"
    "\<forall>a. Some a \<in> set (vm_fields out) \<longrightarrow> length m \<le> a"
proof -
  obtain t l a ow f d where fields: "copy_fields (vm_fields inn) m = ([t, l, a, ow, f, d], m')" and
    out: "out = inn\<lparr>r_metadata := (r_metadata inn)\<lparr>rm_deletionTimestamp := t, rm_labels := l, rm_annotations := a,
          rm_ownerReferences := ow, rm_finalizers := f\<rparr>,
        r_spec := (r_spec inn)\<lparr>rs_disks := d\<rparr>\<rparr>"
    using VirtualMachine_DeepCopyInto_fields [of inn m] assms(1) by auto
  then have vf: "vm_fields out = [t, l, a, ow, f, d]" by (simp add: vm_fields_def)
  from copy_fields_held [OF fields assms(2)] obtain ds where ds: "m' = m @ ds"
      "map (content m') (vm_fields out) = map (content m) (vm_fields inn)" "held m' (vm_fields out)"
      "\<forall>a. Some a \<in> set (vm_fields out) \<longrightarrow> length m \<le> a"
    unfolding vf by blast
  from ds(2) out have "view m' out = view m inn" by (simp add: view_def vm_fields_def)
  with ds show thesis by (intro that)
qed

section \<open>Objects behind pointers\<close>

definition vm_at :: "memory \<Rightarrow> addr \<Rightarrow> virtual_machine" where
  "vm_at m a = view m (machine_in (m ! a))"

text \<open>The cells that an object consists of.\<close>

definition footprint :: "memory \<Rightarrow> addr \<Rightarrow> addr set" where
  "footprint m a = insert a {x. Some x \<in> set (vm_fields (machine_in (m ! a)))}"

definition well_held :: "memory \<Rightarrow> addr \<Rightarrow> bool" where
  "well_held m a = (a < length m \<and> held m (vm_fields (machine_in (m ! a))))"

lemma footprint_bound: "well_held m a \<Longrightarrow> x \<in> footprint m a \<Longrightarrow> x < length m"
  by (auto simp: well_held_def footprint_def held_def)

lemma vm_at_agree: "(\<And>x. x \<in> footprint m a \<Longrightarrow> m' ! x = m ! x) \<Longrightarrow> vm_at m' a = vm_at m a"
  unfolding vm_at_def footprint_def by (metis (mono_tags, lifting) insert_iff mem_Collect_eq view_agree)

lemma vm_at_write: "x \<notin> footprint m a \<Longrightarrow> vm_at (m[x := c]) a = vm_at m a"
  by (rule vm_at_agree) (metis nth_list_update_neq)

lemma DeepCopy_ok:
  assumes "well_held m a" "VirtualMachine_DeepCopy (Some a) m = (y, m')"
  obtains b where "y = Some b" "b = length m" "well_held m' b" "well_held m' a"
    "vm_at m' b = vm_at m a" "vm_at m' a = vm_at m a" "footprint m' a = footprint m a"
    "\<forall>x \<in> footprint m' b. length m \<le> x"
    "\<forall>x. Some x \<in> set (vm_fields (machine_in (m' ! b))) \<longrightarrow> b < x"
proof -
  let ?m0 = "m @ [Machine zero_vm]" and ?r = "machine_in (m ! a)"
  have a: "a < length m" and h: "held m (vm_fields ?r)" using assms(1) by (simp_all add: well_held_def)
  have r0: "machine_in (?m0 ! a) = ?r" using a by (simp add: nth_append)
  obtain out m1 where copy: "VirtualMachine_DeepCopyInto ?r ?m0 = (out, m1)" by fastforce
  from this held_append [OF h] obtain ds where ds: "m1 = ?m0 @ ds" "view m1 out = view ?m0 ?r"
      "held m1 (vm_fields out)" "\<forall>x. Some x \<in> set (vm_fields out) \<longrightarrow> length ?m0 \<le> x"
    by (rule VirtualMachine_DeepCopyInto_ok)
  have m': "y = Some (length m)" "m' = m1[length m := Machine out]"
    using assms(2) copy r0 by (simp_all add: Let_def)
  have old: "m' ! x = m ! x" if "x < length m" for x
    using that ds(1) m'(2) by (simp add: nth_append nth_list_update)
  have new: "m' ! x = m1 ! x" if "x \<noteq> length m" for x
    using that m'(2) by simp
  have cell: "m' ! length m = Machine out" using ds(1) m'(2) by simp
  have fields: "Some x \<in> set (vm_fields out) \<Longrightarrow> m' ! x = m1 ! x \<and> x < length m' \<and> proper (m' ! x)" for x
    using ds(3,4) m'(2) new [of x] by (auto simp: held_def)
  have len: "length m < length m'" using ds(1) m'(2) by simp
  have keep: "vm_at m' a = vm_at m a"
    by (rule vm_at_agree) (use footprint_bound [OF assms(1)] old in blast)
  have "vm_at m' (length m) = view m1 out"
    using fields by (auto simp: vm_at_def cell intro!: view_agree)
  also have "\<dots> = vm_at m a"
    unfolding ds(2) vm_at_def by (rule view_cong) (rule content_append [OF h])
  finally have same: "vm_at m' (length m) = vm_at m a" .
  have "well_held m' (length m)" using len fields ds(3) by (auto simp: well_held_def cell held_def)
  moreover have "well_held m' a"
    using a h len old by (auto simp: well_held_def held_def)
  moreover have "\<forall>x \<in> footprint m' (length m). length m \<le> x"
    using ds(4) by (auto simp: footprint_def cell)
  moreover have "\<forall>x. Some x \<in> set (vm_fields (machine_in (m' ! length m))) \<longrightarrow> length m < x"
    using ds(4) by (auto simp: cell)
  moreover have "footprint m' a = footprint m a" using old [OF a] by (simp add: footprint_def)
  ultimately show thesis using m'(1) keep same by (intro that [of "length m"]) simp_all
qed

text \<open>
  The object that \<open>handleError\<close> sends: a copy whose state is overwritten through the pointer.
\<close>

definition failed_copy :: "addr \<Rightarrow> go_error \<Rightarrow> memory \<Rightarrow> addr option \<times> memory" where
  "failed_copy vm err m =
     (case VirtualMachine_DeepCopy (Some vm) m of
        (None, m) \<Rightarrow> (None, m)
      | (Some updated, m) \<Rightarrow>
          let r = machine_in (m ! updated);
              m = m[updated := Machine (r\<lparr>r_status := r_status r
                \<lparr>state := state (r_status r)\<lparr>processingPhase := ProcessingPhaseError\<rparr>\<rparr>\<rparr>)];
              r = machine_in (m ! updated);
              m = m[updated := Machine (r\<lparr>r_status := r_status r
                \<lparr>state := state (r_status r)\<lparr>message := Error err\<rparr>\<rparr>\<rparr>)]
          in (Some updated, m))"

section \<open>Lists\<close>

text \<open>
  The copy of an item: its fields lie in the memory that was added, and it looks like the original.
\<close>

definition item_copied :: "memory \<Rightarrow> memory \<Rightarrow> addr \<Rightarrow> vm_ref \<Rightarrow> vm_ref \<Rightarrow> bool" where
  "item_copied m m' b r out =
     (view m' out = view m r \<and>
      (\<forall>a. Some a \<in> set (vm_fields out) \<longrightarrow> length m \<le> a \<and> a \<noteq> b \<and> a < length m'))"

lemma item_copied_later:
  assumes "item_copied m m1 b r out" "length m1 \<le> length m2"
    "\<And>x. x < length m1 \<Longrightarrow> x \<noteq> b \<Longrightarrow> m2 ! x = m1 ! x"
  shows "item_copied m m2 b r out"
proof -
  have "view m2 out = view m1 out"
    by (rule view_agree) (use assms(1,3) in \<open>auto simp: item_copied_def\<close>)
  with assms(1,2) show ?thesis by (auto simp: item_copied_def)
qed

lemma copy_items_step:
  assumes copy: "VirtualMachine_DeepCopyInto r m = (out, m1)" and old: "take (length m0) m = m0"
    and b: "length m0 \<le> b" "b < length m" and h: "held m0 (vm_fields r)"
  shows "item_copied m0 (m1[b := c]) b r out" "length m \<le> length m1"
    "\<And>x. x < length m \<Longrightarrow> x \<noteq> b \<Longrightarrow> m1[b := c] ! x = m ! x" "take (length m0) (m1[b := c]) = m0"
    "m1 ! b = m ! b"
proof -
  obtain es where m: "m = m0 @ es" using old by (metis append_take_drop_id)
  from copy held_append [OF h, of es, folded m] obtain ds where ds: "m1 = m @ ds" "view m1 out = view m r"
      "held m1 (vm_fields out)" "\<forall>a. Some a \<in> set (vm_fields out) \<longrightarrow> length m \<le> a"
    by (rule VirtualMachine_DeepCopyInto_ok)
  have "view m r = view m0 r" unfolding m by (rule view_cong) (rule content_append [OF h])
  with ds b m have "item_copied m0 m1 b r out" by (auto simp: item_copied_def held_def)
  then show "item_copied m0 (m1[b := c]) b r out" by (rule item_copied_later) simp_all
  show "length m \<le> length m1" "m1 ! b = m ! b" using ds(1) b by (simp_all add: nth_append)
  show "m1[b := c] ! x = m ! x" if "x < length m" "x \<noteq> b" for x
    using that ds(1) by (simp add: nth_append)
  show "take (length m0) (m1[b := c]) = m0" using b ds(1) m by simp
qed

lemma copy_items_ok:
  assumes "\<forall>r \<in> set rs. held m0 (vm_fields r)" "take (length m0) m = m0" "length m0 \<le> b"
    "b < length m" "m ! b = Items xs" "i + length rs = length xs"
  shows "\<exists>ys. copy_items b i rs m ! b = Items (take i xs @ ys) \<and>
    list_all2 (item_copied m0 (copy_items b i rs m) b) rs ys \<and>
    length m \<le> length (copy_items b i rs m) \<and> take (length m0) (copy_items b i rs m) = m0 \<and>
    (\<forall>x < length m. x \<noteq> b \<longrightarrow> copy_items b i rs m ! x = m ! x)"
  using assms
proof (induction rs arbitrary: i m xs)
  case (Cons r rs)
  obtain out m1 where copy: "VirtualMachine_DeepCopyInto r m = (out, m1)" by fastforce
  have h: "held m0 (vm_fields r)" using Cons.prems(1) by simp
  note c = copy_items_step [OF copy Cons.prems(2-4) h]
  define m2 where "m2 = m1[b := Items (xs[i := out])]"
  note step = c(1,3,4) [where c = "Items (xs[i := out])", folded m2_def] c(2,5)
  have items: "m2 ! b = Items (xs[i := out])" "length m1 = length m2"
    using Cons.prems(4) step(4) by (simp_all add: m2_def)
  have next_eq: "copy_items b i (r # rs) m = copy_items b (Suc i) rs m2"
    using copy step(5) Cons.prems(5) by (simp add: m2_def)
  have "\<exists>ys. copy_items b (Suc i) rs m2 ! b = Items (take (Suc i) (xs[i := out]) @ ys) \<and>
    list_all2 (item_copied m0 (copy_items b (Suc i) rs m2) b) rs ys \<and>
    length m2 \<le> length (copy_items b (Suc i) rs m2) \<and> take (length m0) (copy_items b (Suc i) rs m2) = m0 \<and>
    (\<forall>x < length m2. x \<noteq> b \<longrightarrow> copy_items b (Suc i) rs m2 ! x = m2 ! x)"
    using Cons.prems step(3,4) items by (intro Cons.IH) simp_all
  then obtain ys where ys: "copy_items b (Suc i) rs m2 ! b = Items (take (Suc i) (xs[i := out]) @ ys)"
      "list_all2 (item_copied m0 (copy_items b (Suc i) rs m2) b) rs ys"
      "length m2 \<le> length (copy_items b (Suc i) rs m2)" "take (length m0) (copy_items b (Suc i) rs m2) = m0"
      "\<forall>x < length m2. x \<noteq> b \<longrightarrow> copy_items b (Suc i) rs m2 ! x = m2 ! x"
    by blast
  have "i < length xs" using Cons.prems(6) by simp
  then have "take (Suc i) (xs[i := out]) = take i xs @ [out]" by (simp add: take_Suc_conv_app_nth)
  moreover have "item_copied m0 (copy_items b (Suc i) rs m2) b r out"
    using step(1) ys(3) by (rule item_copied_later) (use ys(5) in simp)
  ultimately show ?case
    unfolding next_eq using ys items(2) step(2,4)
    by (intro exI [of _ "out # ys"]) simp
qed simp

lemma items_copied:
  "list_all2 (item_copied m m' b) rs ys \<Longrightarrow> map (view m') ys = map (view m) rs \<and>
     (\<forall>r \<in> set ys. \<forall>x. Some x \<in> set (vm_fields r) \<longrightarrow> length m \<le> x \<and> x < length m')"
  by (induction rule: list_all2_induct) (auto simp: item_copied_def)

section \<open>Properties\<close>

text \<open>A memory with one machine, its finalizers and its additional disks.\<close>

definition sample_memory :: memory where
  "sample_memory = [Machine (zero_vm\<lparr>r_metadata := zero_meta\<lparr>rm_name := ''vm'', rm_finalizers := Some 1\<rparr>,
     r_spec := (r_spec zero_vm)\<lparr>rs_disks := Some 2\<rparr>\<rparr>), Strings [VirtualMachineFinalizer], Disks [zero_disk]]"

lemma sample_well_held: "well_held sample_memory 0"
  by (auto simp: well_held_def held_def sample_memory_def vm_fields_def zero_meta_def)



text \<open>
  C21. Recording a failure on the copy, as \<open>handleError\<close> does, yields the object that the value
  model sends, and leaves the object of the caller unchanged.
\<close>

theorem failed_copy_refines:
  assumes "well_held m a"
  shows "\<exists>b m'. failed_copy a err m = (Some b, m') \<and> vm_at m' b = mark_failed (vm_at m a) err \<and>
    vm_at m' a = vm_at m a"
proof -
  obtain y m1 where copy: "VirtualMachine_DeepCopy (Some a) m = (y, m1)" by fastforce
  obtain b where b: "y = Some b" "b = length m" "well_held m1 b" "vm_at m1 b = vm_at m a"
      "vm_at m1 a = vm_at m a" "footprint m1 a = footprint m a"
      "\<forall>x. Some x \<in> set (vm_fields (machine_in (m1 ! b))) \<longrightarrow> b < x"
    using assms copy by (rule DeepCopy_ok)
  have len: "b < length m1" using b(3) by (simp add: well_held_def)
  define r where "r = machine_in (m1 ! b)"
  define st where "st = (state (r_status r))\<lparr>processingPhase := ProcessingPhaseError, message := Error err\<rparr>"
  define m2 where "m2 = m1[b := Machine (r\<lparr>r_status := (r_status r)\<lparr>state := st\<rparr>\<rparr>)]"
  have fc: "failed_copy a err m = (Some b, m2)"
    using copy b(1) len by (simp add: failed_copy_def Let_def r_def st_def m2_def)
  have "b \<notin> footprint m1 a" using b(2,6) footprint_bound [OF assms] by auto
  then have kept: "vm_at m2 a = vm_at m a" unfolding m2_def by (simp add: vm_at_write b(5))
  have "view m2 r = view m1 r"
    by (rule view_agree) (use b(7) in \<open>auto simp: m2_def r_def\<close>)
  then have "view m2 r = vm_at m a" using b(4) by (simp add: vm_at_def r_def)
  moreover have "vm_at m2 b = (view m2 r)\<lparr>status := (r_status r)\<lparr>state := st\<rparr>\<rparr>"
    using len by (simp add: vm_at_def m2_def view_def)
  moreover have "r_status r = status (view m2 r)" by (simp add: view_def)
  ultimately have "vm_at m2 b = mark_failed (vm_at m a) err"
    by (simp add: mark_failed_def st_def)
  with fc kept show ?thesis by blast
qed

theorem failed_copy_refines_witness:
  "\<exists>b m'. failed_copy 0 (ErrorString ''quota'') sample_memory = (Some b, m') \<and>
     vm_at m' b = mark_failed (vm_at sample_memory 0) (ErrorString ''quota'')"
  using failed_copy_refines [OF sample_well_held, of "ErrorString ''quota''"] by blast

text \<open>
  Copying a list copies its items: the new list has equal items in the same order, everything it
  refers to lies in memory that was added, and the memory of the original is as it was.
\<close>

lemma list_deep_copy:
  assumes "lr_items l = Some a" "a < length m" "\<forall>r \<in> set (items_in (m ! a)). held m (vm_fields r)"
  shows "\<exists>b m' ys. VirtualMachineList_DeepCopyInto l m = (l\<lparr>lr_items := Some b\<rparr>, m') \<and>
    take (length m) m' = m \<and> length m \<le> b \<and> m' ! b = Items ys \<and>
    map (view m') ys = map (view m) (items_in (m ! a)) \<and>
    (\<forall>r \<in> set ys. \<forall>x. Some x \<in> set (vm_fields r) \<longrightarrow> length m \<le> x \<and> x < length m')"
proof -
  let ?rs = "items_in (m ! a)"
  let ?m0 = "m @ [Items (replicate (length ?rs) zero_vm)]"
  obtain ys where ys: "copy_items (length m) 0 ?rs ?m0 ! length m = Items ys"
      "list_all2 (item_copied m (copy_items (length m) 0 ?rs ?m0) (length m)) ?rs ys"
      "take (length m) (copy_items (length m) 0 ?rs ?m0) = m"
    using copy_items_ok [OF assms(3), of ?m0 "length m" "replicate (length ?rs) zero_vm" 0] by auto
  define m' where "m' = copy_items (length m) 0 ?rs ?m0"
  have copied: "VirtualMachineList_DeepCopyInto l m = (l\<lparr>lr_items := Some (length m)\<rparr>, m')"
    using assms(1) by (simp add: VirtualMachineList_DeepCopyInto_def Let_def m'_def)
  note items = items_copied [OF ys(2), folded m'_def]
  show ?thesis
    using copied items ys(1,3) unfolding m'_def [symmetric]
    by (intro exI [of _ "length m"] exI [of _ m'] exI [of _ ys]) simp
qed

end
