(* ===== verification/Deep_Copy_Parts.thy ===== *)
theory Deep_Copy_Parts
  imports Deep_Copy
begin

text \<open>
  The pointer versions of the generated copies for the parts of a machine and for a list of machines:
  nil for nil, and otherwise a new variable that \<open>DeepCopyInto\<close> fills. Each leaves the memory that was
  there as it was, and its result holds the same value.
\<close>

section \<open>The copies\<close>

fun list_in :: "cell \<Rightarrow> list_ref" where
  "list_in (MachineList l) = l"
| "list_in _ = \<lparr>lr_type_meta = \<lparr>kind = [], apiVersion = []\<rparr>, lr_resourceVersion = [], lr_items = None\<rparr>"

fun state_in :: "cell \<Rightarrow> processing_state" where
  "state_in (State x) = x"
| "state_in _ = \<lparr>processingPhase = [], message = []\<rparr>"

fun disk_in :: "cell \<Rightarrow> disk_spec" where
  "disk_in (DiskSpec x) = x"
| "disk_in _ = zero_disk"

fun boot_disk_in :: "cell \<Rightarrow> boot_disk_spec" where
  "boot_disk_in (BootDisk x) = x"
| "boot_disk_in _ = \<lparr>sizeGb = 0, disk_type = [], imageFamily = []\<rparr>"

fun spec_in :: "cell \<Rightarrow> spec_ref" where
  "spec_in (MachineSpec x) = x"
| "spec_in _ = r_spec zero_vm"

fun status_in :: "cell \<Rightarrow> vm_status" where
  "status_in (MachineStatus x) = x"
| "status_in _ = r_status zero_vm"

fun ProcessingState_DeepCopy :: "addr option \<Rightarrow> memory \<Rightarrow> addr option \<times> memory" where
  "ProcessingState_DeepCopy None m = (None, m)"
| "ProcessingState_DeepCopy (Some a) m =
     (let b = length m;
          m = m @ [State \<lparr>processingPhase = [], message = []\<rparr>];
          out = ProcessingState_DeepCopyInto (state_in (m ! a))
      in (Some b, m[b := State out]))"

fun VirtualMachineDiskSpec_DeepCopy :: "addr option \<Rightarrow> memory \<Rightarrow> addr option \<times> memory" where
  "VirtualMachineDiskSpec_DeepCopy None m = (None, m)"
| "VirtualMachineDiskSpec_DeepCopy (Some a) m =
     (let b = length m;
          m = m @ [DiskSpec zero_disk];
          out = VirtualMachineDiskSpec_DeepCopyInto (disk_in (m ! a))
      in (Some b, m[b := DiskSpec out]))"

fun VirtualMachineBootDiskSpec_DeepCopy :: "addr option \<Rightarrow> memory \<Rightarrow> addr option \<times> memory" where
  "VirtualMachineBootDiskSpec_DeepCopy None m = (None, m)"
| "VirtualMachineBootDiskSpec_DeepCopy (Some a) m =
     (let b = length m;
          m = m @ [BootDisk \<lparr>sizeGb = 0, disk_type = [], imageFamily = []\<rparr>];
          out = VirtualMachineBootDiskSpec_DeepCopyInto (boot_disk_in (m ! a))
      in (Some b, m[b := BootDisk out]))"

fun VirtualMachineStatus_DeepCopy :: "addr option \<Rightarrow> memory \<Rightarrow> addr option \<times> memory" where
  "VirtualMachineStatus_DeepCopy None m = (None, m)"
| "VirtualMachineStatus_DeepCopy (Some a) m =
     (let b = length m;
          m = m @ [MachineStatus (r_status zero_vm)];
          out = VirtualMachineStatus_DeepCopyInto (status_in (m ! a))
      in (Some b, m[b := MachineStatus out]))"

fun VirtualMachineSpec_DeepCopy :: "addr option \<Rightarrow> memory \<Rightarrow> addr option \<times> memory" where
  "VirtualMachineSpec_DeepCopy None m = (None, m)"
| "VirtualMachineSpec_DeepCopy (Some a) m =
     (let b = length m;
          m = m @ [MachineSpec (r_spec zero_vm)];
          (out, m) = VirtualMachineSpec_DeepCopyInto (spec_in (m ! a)) m
      in (Some b, m[b := MachineSpec out]))"

fun VirtualMachineList_DeepCopy :: "addr option \<Rightarrow> memory \<Rightarrow> addr option \<times> memory" where
  "VirtualMachineList_DeepCopy None m = (None, m)"
| "VirtualMachineList_DeepCopy (Some a) m =
     (let b = length m;
          m = m @ [MachineList (list_in (Strings []))];
          (out, m) = VirtualMachineList_DeepCopyInto (list_in (m ! a)) m
      in (Some b, m[b := MachineList out]))"

definition VirtualMachineList_DeepCopyObject :: "addr option \<Rightarrow> memory \<Rightarrow> addr option \<times> memory" where
  "VirtualMachineList_DeepCopyObject inn m =
     (case VirtualMachineList_DeepCopy inn m of (Some c, m) \<Rightarrow> (Some c, m) | (None, m) \<Rightarrow> (None, m))"

section \<open>Parts without references\<close>

lemma plain_copies_same:
  "ProcessingState_DeepCopyInto x = x" "VirtualMachineDiskSpec_DeepCopyInto d = d"
  "VirtualMachineBootDiskSpec_DeepCopyInto b = b" "VirtualMachineStatus_DeepCopyInto s = s"
  by (simp_all add: ProcessingState_DeepCopyInto_def VirtualMachineDiskSpec_DeepCopyInto_def
      VirtualMachineBootDiskSpec_DeepCopyInto_def VirtualMachineStatus_DeepCopyInto_def)

lemma plain_parts_copied:
  assumes "a < length m"
  shows "m ! a = State x \<Longrightarrow> ProcessingState_DeepCopy (Some a) m = (Some (length m), m @ [State x])"
    "m ! a = DiskSpec d \<Longrightarrow> VirtualMachineDiskSpec_DeepCopy (Some a) m = (Some (length m), m @ [DiskSpec d])"
    "m ! a = BootDisk b \<Longrightarrow> VirtualMachineBootDiskSpec_DeepCopy (Some a) m = (Some (length m), m @ [BootDisk b])"
    "m ! a = MachineStatus s \<Longrightarrow> VirtualMachineStatus_DeepCopy (Some a) m = (Some (length m), m @ [MachineStatus s])"
  using assms by (simp_all add: Let_def nth_append plain_copies_same)

section \<open>A specification\<close>

definition spec_view :: "memory \<Rightarrow> spec_ref \<Rightarrow> vm_spec" where
  "spec_view m r = \<lparr>machineType = rs_machineType r, bootDisk = rs_bootDisk r,
     disks = as_slice disks_in (content m (rs_disks r))\<rparr>"

lemma spec_copied:
  assumes "a < length m" "m ! a = MachineSpec r" "held m [rs_disks r]"
  shows "\<exists>ds out. VirtualMachineSpec_DeepCopy (Some a) m = (Some (length m), m @ MachineSpec out # ds) \<and>
    spec_view (m @ MachineSpec out # ds) out = spec_view m r \<and>
    (\<forall>x. rs_disks out = Some x \<longrightarrow> length m < x)"
proof -
  let ?m0 = "m @ [MachineSpec (r_spec zero_vm)]"
  obtain y m1 where f: "copy_field (rs_disks r) ?m0 = (y, m1)" by fastforce
  from this held_append [OF assms(3)] obtain ds where ds: "m1 = ?m0 @ ds"
      "content m1 y = content ?m0 (rs_disks r)" "held m1 [y]" "\<forall>x. y = Some x \<longrightarrow> length ?m0 \<le> x"
    by (rule copy_field_held)
  let ?out = "r\<lparr>rs_disks := y\<rparr>"
  have "?m0 ! a = MachineSpec r" using assms(1,2) by (simp add: nth_append)
  then have copied: "VirtualMachineSpec_DeepCopy (Some a) m = (Some (length m), m @ MachineSpec ?out # ds)"
    using f ds(1) by (simp add: Let_def VirtualMachineSpec_DeepCopyInto_def list_update_append)
  have "content (m @ MachineSpec ?out # ds) y = content m1 y"
    using ds(1,4) by (cases y) (auto simp: content_def nth_append nth_Cons')
  moreover have "content ?m0 (rs_disks r) = content m (rs_disks r)"
    using content_append [OF assms(3)] by simp
  ultimately have "spec_view (m @ MachineSpec ?out # ds) ?out = spec_view m r"
    using ds(2) by (simp add: spec_view_def)
  with copied ds(4) show ?thesis by (intro exI [of _ ds] exI [of _ ?out]) auto
qed

section \<open>A list\<close>

lemma list_copied:
  assumes "b < length m" "m ! b = MachineList l" "lr_items l = Some a" "a < length m"
    "\<forall>r \<in> set (items_in (m ! a)). held m (vm_fields r)"
  shows "\<exists>m' c ys. VirtualMachineList_DeepCopy (Some b) m = (Some (length m), m') \<and>
    take (length m) m' = m \<and> m' ! length m = MachineList (l\<lparr>lr_items := Some c\<rparr>) \<and> length m < c \<and>
    m' ! c = Items ys \<and> map (view m') ys = map (view m) (items_in (m ! a)) \<and>
    (\<forall>r \<in> set ys. \<forall>x. Some x \<in> set (vm_fields r) \<longrightarrow> length m < x \<and> x < length m')"
proof -
  let ?m0 = "m @ [MachineList (list_in (Strings []))]"
  have items: "items_in (?m0 ! a) = items_in (m ! a)" using assms(4) by (simp add: nth_append)
  have h: "\<forall>r \<in> set (items_in (?m0 ! a)). held ?m0 (vm_fields r)"
    unfolding items using assms(5) held_append by blast
  obtain c m1 ys where copy: "VirtualMachineList_DeepCopyInto l ?m0 = (l\<lparr>lr_items := Some c\<rparr>, m1)"
      "take (length ?m0) m1 = ?m0" "length ?m0 \<le> c" "m1 ! c = Items ys"
      "map (view m1) ys = map (view ?m0) (items_in (m ! a))"
      "\<forall>r \<in> set ys. \<forall>x. Some x \<in> set (vm_fields r) \<longrightarrow> length ?m0 \<le> x \<and> x < length m1"
    using list_deep_copy [OF assms(3) _ h] assms(4) unfolding items by fastforce
  define m' where "m' = m1[length m := MachineList (l\<lparr>lr_items := Some c\<rparr>)]"
  have m1: "m1 = ?m0 @ drop (length ?m0) m1" using copy(2) by (metis append_take_drop_id)
  have "length m < length m1" by (subst m1) simp
  then have cell: "m' ! length m = MachineList (l\<lparr>lr_items := Some c\<rparr>)" "length m' = length m1"
    by (simp_all add: m'_def)
  have other: "m' ! x = m1 ! x" if "x \<noteq> length m" for x using that by (simp add: m'_def)
  have "take (length m) m' = take (length m) m1" by (simp add: m'_def)
  also have "\<dots> = m" by (subst m1) simp
  finally have old: "take (length m) m' = m" .
  have result: "VirtualMachineList_DeepCopy (Some b) m = (Some (length m), m')"
    using assms(1,2) copy(1) by (simp add: Let_def nth_append m'_def)
  have "view m' r = view m1 r" if "r \<in> set ys" for r
    by (rule view_agree) (use copy(6) that other in fastforce)
  moreover have "view ?m0 r = view m r" if "r \<in> set (items_in (m ! a))" for r
    by (rule view_cong) (rule content_append, use assms(5) that in blast)
  ultimately have "map (view m') ys = map (view m) (items_in (m ! a))"
    using copy(5) by (metis (no_types, lifting) map_cong)
  moreover have "m' ! c = Items ys" using other [of c] copy(3,4) by simp
  moreover have "\<forall>r \<in> set ys. \<forall>x. Some x \<in> set (vm_fields r) \<longrightarrow> length m < x \<and> x < length m'"
    using copy(6) cell(2) by fastforce
  moreover have "length m < c" using copy(3) by simp
  ultimately show ?thesis using result old cell(1) by blast
qed

end
