(* ===== verification/Url_Paths.thy ===== *)
theory Url_Paths
  imports Go_Base
begin

text \<open>
  Slash-separated paths: \<open>Clean\<close> and \<open>Join\<close> of Go's package \<open>path\<close>, which the client uses to put
  the address of a request together, and \<open>IsValidPathSegmentName\<close> of \<open>client-go/rest/request.go\<close>,
  which guards them. The lemmas show that joining plain segments to a path of plain segments
  appends them, so that the address of an object determines its namespace and name.
\<close>

section \<open>Clean and Join\<close>

fun join_with :: "string \<Rightarrow> string list \<Rightarrow> string" where
  "join_with sep [] = []"
| "join_with sep [x] = x"
| "join_with sep (x # y # zs) = x @ sep @ join_with sep (y # zs)"

text \<open>The elements kept so far are in reverse order; a leading \<open>..\<close> survives in a relative path.\<close>

fun clean_elements :: "bool \<Rightarrow> string list \<Rightarrow> string list \<Rightarrow> string list" where
  "clean_elements is_rooted kept [] = rev kept"
| "clean_elements is_rooted kept (p # ps) =
     (if p = [] \<or> p = ''.'' then clean_elements is_rooted kept ps
      else if p = ''..'' then
        (case kept of
           k # ks \<Rightarrow> if k = ''..'' then clean_elements is_rooted (p # kept) ps
                      else clean_elements is_rooted ks ps
         | [] \<Rightarrow> clean_elements is_rooted (if is_rooted then [] else [p]) ps)
      else clean_elements is_rooted (p # kept) ps)"

definition path_Clean :: "string \<Rightarrow> string" where
  "path_Clean p =
     (if p = [] then ''.''
      else let is_rooted = (hd p = slash);
               out = (if is_rooted then ''/'' else []) @
                 join_with ''/'' (clean_elements is_rooted [] (split_at_byte slash p))
           in if out = [] then ''.'' else out)"

fun path_Join :: "string list \<Rightarrow> string" where
  "path_Join [] = []"
| "path_Join (e # es) = (if e \<noteq> [] then path_Clean (join_with ''/'' (e # es)) else path_Join es)"

text \<open>\<open>strings.ToLower\<close> on ASCII letters.\<close>

definition lower_byte :: "char \<Rightarrow> char" where
  "lower_byte c = (let n = of_char c :: nat in if 65 \<le> n \<and> n \<le> 90 then char_of (n + 32) else c)"

definition ToLower :: "string \<Rightarrow> string" where
  "ToLower s = map lower_byte s"

section \<open>Segments\<close>

definition percent :: char where
  "percent = CHR ''%''"

definition IsValidPathSegmentName :: "string \<Rightarrow> string list" where
  "IsValidPathSegmentName name =
     (if name = ''.'' then [''may not be '' @ CHR 0x27 # ''.'' @ [CHR 0x27]]
      else if name = ''..'' then [''may not be '' @ CHR 0x27 # ''..'' @ [CHR 0x27]]
      else (if slash \<in> set name then [''may not contain '' @ CHR 0x27 # ''/'' @ [CHR 0x27]] else []) @
           (if percent \<in> set name then [''may not contain '' @ CHR 0x27 # ''%'' @ [CHR 0x27]] else []))"

definition valid_segment :: "string \<Rightarrow> bool" where
  "valid_segment s = (s \<noteq> ''.'' \<and> s \<noteq> ''..'' \<and> slash \<notin> set s \<and> percent \<notin> set s)"

lemma IsValidPathSegmentName_iff: "IsValidPathSegmentName s = [] \<longleftrightarrow> valid_segment s"
  by (auto simp: IsValidPathSegmentName_def valid_segment_def)

definition plain :: "string \<Rightarrow> bool" where
  "plain s = (s \<noteq> [] \<and> s \<noteq> ''.'' \<and> s \<noteq> ''..'' \<and> slash \<notin> set s)"

lemma valid_plain: "valid_segment s \<Longrightarrow> s \<noteq> [] \<Longrightarrow> plain s"
  by (simp add: valid_segment_def plain_def)

text \<open>The path of a list of segments, from the root.\<close>

definition rooted :: "string list \<Rightarrow> string" where
  "rooted ps = (if ps = [] then ''/'' else concat (map (\<lambda>p. slash # p) ps))"

lemma split_at_byte_sep: "split_at_byte c (xs @ c # ys) = split_at_byte c xs @ split_at_byte c ys"
  by (induction xs) (auto split: list.splits)

lemma split_tails:
  "list_all (\<lambda>p. slash \<notin> set p) ps \<Longrightarrow>
   split_at_byte slash (b @ concat (map (\<lambda>p. slash # p) ps)) = split_at_byte slash b @ ps"
proof (induction ps arbitrary: b rule: rev_induct)
  case (snoc p ps)
  have "b @ concat (map (\<lambda>p. slash # p) (ps @ [p])) =
      (b @ concat (map (\<lambda>p. slash # p) ps)) @ slash # p" by simp
  also have "split_at_byte slash \<dots> = split_at_byte slash b @ ps @ [p]"
    using snoc by (simp only: split_at_byte_sep) (simp add: split_at_byte_none)
  finally show ?case .
qed simp

lemma clean_plain:
  "list_all plain ps \<Longrightarrow> clean_elements r kept (ps @ qs) = clean_elements r (rev ps @ kept) qs"
  by (induction ps arbitrary: kept) (auto simp: plain_def)

lemma join_rooted: "ps \<noteq> [] \<Longrightarrow> ''/'' @ join_with ''/'' ps = rooted ps"
  by (induction "''/''" ps rule: join_with.induct) (auto simp: rooted_def slash_def)

lemma filter_plain: "list_all plain ps \<Longrightarrow> filter (\<lambda>p. p \<noteq> []) ps = ps"
  by (induction ps) (simp_all add: plain_def)

lemma plain_no_slash: "list_all plain ps \<Longrightarrow> list_all (\<lambda>p. slash \<notin> set p) ps"
  by (auto simp: plain_def list_all_iff)

lemma Clean_rooted_append:
  assumes "list_all plain ps" "list_all (\<lambda>q. plain q \<or> q = []) qs"
  shows "path_Clean (rooted ps @ concat (map (\<lambda>q. slash # q) qs)) = rooted (ps @ filter (\<lambda>q. q \<noteq> []) qs)"
proof -
  have skip: "clean_elements r kept qs = rev kept @ filter (\<lambda>q. q \<noteq> []) qs" for r kept
    using assms(2)
  proof (induction qs arbitrary: kept)
    case (Cons q qs)
    then show ?case using clean_plain [of "[q]" r kept qs] by (cases "q = []") simp_all
  qed simp
  have qs: "list_all (\<lambda>q. slash \<notin> set q) qs"
    by (rule list_all_mono_imp [OF assms(2)]) (auto simp only: plain_def list.set)
  obtain lead where lead: "split_at_byte slash (rooted ps @ concat (map (\<lambda>q. slash # q) qs)) =
      lead @ ps @ qs" "list_all (\<lambda>x. x = []) lead"
  proof (cases "ps = []")
    case True
    have "split_at_byte slash (rooted ps @ concat (map (\<lambda>q. slash # q) qs)) = [[], []] @ qs"
      using split_tails [OF qs, of "''/''"] True by (simp add: rooted_def slash_def)
    with True show ?thesis by (intro that [of "[[], []]"]) auto
  next
    case False
    have "split_at_byte slash (rooted ps) = [[]] @ ps"
      using split_tails [of ps "[]"] plain_no_slash [OF assms(1)] False by (simp add: rooted_def)
    with False split_tails [OF qs, of "rooted ps"] show ?thesis by (intro that [of "[[]]"]) auto
  qed
  have drop: "clean_elements r kept (lead @ xs) = clean_elements r kept xs" for r kept xs
    using lead(2) by (induction lead) auto
  have elements: "clean_elements True [] (lead @ ps @ qs) = ps @ filter (\<lambda>q. q \<noteq> []) qs"
    by (simp add: drop clean_plain [OF assms(1)] skip)
  have "hd (rooted ps @ xs) = slash" "rooted ps \<noteq> []" for xs
    by (cases ps; simp add: rooted_def slash_def)+
  then have "path_Clean (rooted ps @ concat (map (\<lambda>q. slash # q) qs)) =
      ''/'' @ join_with ''/'' (ps @ filter (\<lambda>q. q \<noteq> []) qs)"
    by (simp add: path_Clean_def Let_def lead(1) elements)
  then show ?thesis
    by (cases "ps @ filter (\<lambda>q. q \<noteq> []) qs = []") (simp add: rooted_def, simp only: join_rooted not_False_eq_True)
qed

lemma join_with_tails: "join_with ''/'' (x # qs) = x @ concat (map (\<lambda>q. slash # q) qs)"
  by (induction qs arbitrary: x) (simp_all add: slash_def)

theorem Join_rooted:
  assumes "list_all plain ps" "list_all (\<lambda>q. plain q \<or> q = []) qs"
  shows "path_Join (rooted ps # qs) = rooted (ps @ filter (\<lambda>q. q \<noteq> []) qs)"
proof -
  have "rooted ps \<noteq> []" by (cases ps) (simp_all add: rooted_def)
  then show ?thesis
    by (simp only: path_Join.simps join_with_tails Clean_rooted_append [OF assms] if_True simp_thms)
qed

lemma rooted_inj:
  assumes "list_all plain ps" "list_all plain qs" "rooted ps = rooted qs"
  shows "ps = qs"
proof -
  have recover: "filter (\<lambda>p. p \<noteq> []) (split_at_byte slash (rooted xs)) = xs" if "list_all plain xs" for xs
  proof -
    from split_tails [of xs "[]"] plain_no_slash [OF that] filter_plain [OF that] show ?thesis
      by (cases "xs = []") (simp_all add: rooted_def slash_def)
  qed
  show ?thesis using recover [OF assms(1)] recover [OF assms(2)] assms(3) by metis
qed

text \<open>Joining anything to the root gives the path of plain segments.\<close>

definition root_segments :: "string \<Rightarrow> string list" where
  "root_segments p = clean_elements True [] (split_at_byte slash p)"

lemma clean_elements_plain:
  assumes "list_all plain kept" "list_all (\<lambda>p. slash \<notin> set p) ps"
  shows "list_all plain (clean_elements True kept ps)"
  using assms
proof (induction True kept ps rule: clean_elements.induct)
  case (2 kept p ps)
  then show ?case by (auto simp: plain_def split: list.split)
qed (simp add: list_all_iff)

lemma root_segments_plain: "list_all plain (root_segments p)"
  unfolding root_segments_def
  by (rule clean_elements_plain) (auto simp: list_all_iff dest: split_at_byte_no_sep)

lemma Join_root: "path_Join [''/'', p] = rooted (root_segments p)"
proof -
  have "split_at_byte slash (''/'' @ ''/'' @ p) = [[], []] @ split_at_byte slash p"
    using split_at_byte_sep [of slash "[]" "''/'' @ p"] split_at_byte_sep [of slash "[]" p]
    by (simp add: slash_def)
  moreover have "clean_elements True [] ([[], []] @ ps) = clean_elements True [] ps" for ps
    by simp
  ultimately have "path_Join [''/'', p] = ''/'' @ join_with ''/'' (root_segments p)"
    by (simp add: path_Clean_def Let_def root_segments_def slash_def)
  then show ?thesis
    by (cases "root_segments p = []") (simp add: rooted_def, simp only: join_rooted not_False_eq_True)
qed

text \<open>Joining a rooted path, and joining segments below a path.\<close>

lemma Join_rooted_rooted:
  assumes "list_all plain ps" "list_all plain qs"
  shows "path_Join [rooted ps, rooted qs] = rooted (ps @ qs)"
proof (cases "qs = []")
  case True
  have "rooted ps @ ''/'' @ ''/'' = rooted ps @ concat (map (\<lambda>q. slash # q) [[], []])"
    by (simp add: slash_def)
  moreover have "rooted ps \<noteq> []" by (cases ps) (simp_all add: rooted_def)
  ultimately show ?thesis
    using Clean_rooted_append [OF assms(1), of "[[], []]"] True by (simp add: rooted_def)
next
  case False
  have "rooted ps @ ''/'' @ rooted qs = rooted ps @ concat (map (\<lambda>q. slash # q) ([] # qs))"
    using False by (simp add: rooted_def slash_def)
  moreover have "rooted ps \<noteq> []" by (cases ps) (simp_all add: rooted_def)
  moreover have "filter (\<lambda>q. q \<noteq> []) qs = qs"
    by (rule filter_plain [OF assms(2)])
  moreover have "list_all (\<lambda>q. plain q \<or> q = []) ([] # qs)"
    using assms(2) by (simp add: list_all_iff)
  ultimately show ?thesis
    using Clean_rooted_append [OF assms(1), of "[] # qs"] by simp
qed

lemma Join_plain: "list_all plain ss \<Longrightarrow> path_Join ss = join_with ''/'' ss"
proof (cases ss)
  case (Cons s ss')
  assume plain: "list_all plain ss"
  then have s: "s \<noteq> []" "slash \<notin> set s" "list_all plain ss'"
    using Cons by (simp_all only: list.pred_inject plain_def not_False_eq_True)
  have join: "join_with ''/'' ss = s @ concat (map (\<lambda>q. slash # q) ss')"
    by (simp only: Cons join_with_tails)
  have "split_at_byte slash (join_with ''/'' ss) = ss"
    unfolding join by (simp only: split_tails [OF plain_no_slash [OF s(3)]] split_at_byte_none [OF s(2)] Cons append.simps)
  moreover have "join_with ''/'' ss \<noteq> []" "hd (join_with ''/'' ss) \<noteq> slash"
    unfolding join using s(1,2) by (cases s; auto)+
  ultimately have "path_Clean (join_with ''/'' ss) = join_with ''/'' ss"
    using clean_plain [OF plain, of False "[]" "[]"] by (simp add: path_Clean_def)
  with s(1) Cons show ?thesis by simp
qed simp

lemma Join_below:
  assumes "list_all plain ps" "plain n \<or> n = []" "list_all plain ss"
  shows "path_Join [rooted ps, n, join_with ''/'' ss, []] = rooted (ps @ (if n = [] then [] else [n]) @ ss)"
proof -
  have tails: "''/'' @ join_with ''/'' ss = concat (map (\<lambda>q. slash # q) (if ss = [] then [[]] else ss))"
    by (cases ss) (simp add: slash_def, simp add: join_with_tails slash_def del: join_with.simps)
  let ?qs = "[n] @ (if ss = [] then [[]] else ss) @ [[]]"
  have "join_with ''/'' [rooted ps, n, join_with ''/'' ss, []] = rooted ps @ concat (map (\<lambda>q. slash # q) ?qs)"
    using tails by (simp add: slash_def)
  moreover have "list_all (\<lambda>q. plain q \<or> q = []) ?qs"
    using assms(2,3) by (simp add: list_all_iff)
  moreover have "filter (\<lambda>q. q \<noteq> []) ?qs = (if n = [] then [] else [n]) @ ss"
    using filter_plain [OF assms(3)] by simp
  moreover have "rooted ps \<noteq> []" by (cases ps) (simp_all add: rooted_def)
  ultimately show ?thesis
    using Clean_rooted_append [OF assms(1), of ?qs] by (simp only: path_Join.simps if_True simp_thms)
qed

end
