(* ===== verification/Rest_Request.thy ===== *)
theory Rest_Request
  imports Url_Paths "HOL-Library.Sublist"
begin

text \<open>
  The requests of \<open>client-go/rest/request.go\<close>: the builder that collects what a request is about
  and keeps the first error, the address it stands for, the loop that sends it, and what is made of
  the answer. The connection to the API server and the serializers are parameters. What a request
  does to the outside is a trace of sends, waits and tokens taken from the rate limiter.
\<close>

section \<open>Requests\<close>

record url =
  u_path :: string
  u_query :: "string \<rightharpoonup> string list"

record rest_request =
  rq_verb :: string
  rq_pathPrefix :: string
  rq_subpath :: string
  rq_params :: "string \<rightharpoonup> string list"
  rq_headers :: "string \<rightharpoonup> string list"
  rq_namespace :: string
  rq_namespaceSet :: bool
  rq_resource :: string
  rq_resourceName :: string
  rq_subresource :: string
  rq_timeout :: int
  rq_err :: "go_error option"
  rq_body :: "string option"
  rq_group :: string
  rq_contentType :: string
  rq_throttled :: bool

definition SetHeader :: "string \<Rightarrow> string list \<Rightarrow> rest_request \<Rightarrow> rest_request" where
  "SetHeader key values r =
     r\<lparr>rq_headers := (rq_headers r)(key := if values = [] then None else Some values)\<rparr>"

definition NewRequest ::
    "string \<Rightarrow> string \<Rightarrow> string \<Rightarrow> string \<Rightarrow> string \<Rightarrow> string \<Rightarrow> bool \<Rightarrow> int \<Rightarrow> rest_request" where
  "NewRequest verb basePath versionedAPIPath gv_group accept contentType throttled timeout =
     (let r = \<lparr>rq_verb = verb,
        rq_pathPrefix = path_Join [path_Join [''/'', basePath], versionedAPIPath],
        rq_subpath = [], rq_params = Map.empty, rq_headers = Map.empty, rq_namespace = [],
        rq_namespaceSet = False, rq_resource = [], rq_resourceName = [], rq_subresource = [],
        rq_timeout = timeout, rq_err = None, rq_body = None, rq_group = gv_group,
        rq_contentType = contentType, rq_throttled = throttled\<rparr>
      in if accept \<noteq> [] then SetHeader ''Accept'' [accept] r
         else if contentType \<noteq> [] then SetHeader ''Accept'' [contentType @ '', */*''] r
         else r)"

text \<open>Every step of the builder leaves a request alone that has failed before.\<close>

definition failed :: "string \<Rightarrow> rest_request \<Rightarrow> rest_request" where
  "failed text r = r\<lparr>rq_err := Some (ErrorString text)\<rparr>"

definition fmt_strings :: "string list \<Rightarrow> string" where
  "fmt_strings xs = ''['' @ join_with '' '' xs @ '']''"

definition Request_Resource :: "string \<Rightarrow> rest_request \<Rightarrow> rest_request" where
  "Request_Resource resource r =
     (if rq_err r \<noteq> None then r
      else if rq_resource r \<noteq> [] then
        failed (''resource already set to '' @ fmt_q (rq_resource r) @ '', cannot change to '' @ fmt_q resource) r
      else let msgs = IsValidPathSegmentName resource in
        if msgs \<noteq> [] then failed (''invalid resource '' @ fmt_q resource @ '': '' @ fmt_strings msgs) r
        else r\<lparr>rq_resource := resource\<rparr>)"

fun invalid_subresource :: "string list \<Rightarrow> string option" where
  "invalid_subresource [] = None"
| "invalid_subresource (s # ss) =
     (let msgs = IsValidPathSegmentName s in
      if msgs \<noteq> [] then Some (''invalid subresource '' @ fmt_q s @ '': '' @ fmt_strings msgs)
      else invalid_subresource ss)"

definition Request_SubResource :: "string list \<Rightarrow> rest_request \<Rightarrow> rest_request" where
  "Request_SubResource subresources r =
     (if rq_err r \<noteq> None then r
      else let subresource = path_Join subresources in
        if rq_subresource r \<noteq> [] then
          failed (''subresource already set to '' @ fmt_q (rq_resource r) @ '', cannot change to '' @ fmt_q subresource) r
        else (case invalid_subresource subresources of
            Some text \<Rightarrow> failed text r
          | None \<Rightarrow> r\<lparr>rq_subresource := subresource\<rparr>))"

definition Request_Name :: "string \<Rightarrow> rest_request \<Rightarrow> rest_request" where
  "Request_Name resourceName r =
     (if rq_err r \<noteq> None then r
      else if resourceName = [] then failed ''resource name may not be empty'' r
      else if rq_resourceName r \<noteq> [] then
        failed (''resource name already set to '' @ fmt_q (rq_resourceName r) @ '', cannot change to '' @ fmt_q resourceName) r
      else let msgs = IsValidPathSegmentName resourceName in
        if msgs \<noteq> [] then failed (''invalid resource name '' @ fmt_q resourceName @ '': '' @ fmt_strings msgs) r
        else r\<lparr>rq_resourceName := resourceName\<rparr>)"

definition Request_Namespace :: "string \<Rightarrow> rest_request \<Rightarrow> rest_request" where
  "Request_Namespace namespace r =
     (if rq_err r \<noteq> None then r
      else if rq_namespaceSet r then
        failed (''namespace already set to '' @ fmt_q (rq_namespace r) @ '', cannot change to '' @ fmt_q namespace) r
      else let msgs = IsValidPathSegmentName namespace in
        if msgs \<noteq> [] then failed (''invalid namespace '' @ fmt_q namespace @ '': '' @ fmt_strings msgs) r
        else r\<lparr>rq_namespaceSet := True, rq_namespace := namespace\<rparr>)"

text \<open>The argument is what the codec makes of the options: parameters or an error.\<close>

definition Request_VersionedParams ::
    "(string \<rightharpoonup> string list) \<times> go_error option \<Rightarrow> rest_request \<Rightarrow> rest_request" where
  "Request_VersionedParams encoded r =
     (if rq_err r \<noteq> None then r
      else case encoded of
        (_, Some err) \<Rightarrow> r\<lparr>rq_err := Some err\<rparr>
      | (params, None) \<Rightarrow>
          r\<lparr>rq_params := (\<lambda>k. case params k of
              None \<Rightarrow> rq_params r k
            | Some v \<Rightarrow> Some ((case rq_params r k of None \<Rightarrow> [] | Some old \<Rightarrow> old) @ v))\<rparr>)"

text \<open>The two types of body that the typed client passes: bytes and objects, which may be nil.\<close>

datatype 'o body_arg = BytesBody string | ObjectBody "'o option"

definition Request_Body ::
    "('o \<Rightarrow> string \<times> go_error option) \<Rightarrow> 'o body_arg \<Rightarrow> rest_request \<Rightarrow> rest_request" where
  "Request_Body encode obj r =
     (if rq_err r \<noteq> None then r
      else case obj of
        BytesBody t \<Rightarrow> r\<lparr>rq_body := Some t\<rparr>
      | ObjectBody None \<Rightarrow> r
      | ObjectBody (Some t) \<Rightarrow>
          (case encode t of
             (_, Some err) \<Rightarrow> r\<lparr>rq_err := Some err\<rparr>
           | (data, None) \<Rightarrow>
               SetHeader ''Content-Type'' [rq_contentType r] (r\<lparr>rq_body := Some data\<rparr>)))"

definition Request_URL :: "rest_request \<Rightarrow> url" where
  "Request_URL r =
     (let p = rq_pathPrefix r;
          p = (if rq_namespaceSet r \<and> rq_namespace r \<noteq> []
               then path_Join [p, ''namespaces'', rq_namespace r] else p);
          p = (if rq_resource r \<noteq> [] then path_Join [p, ToLower (rq_resource r)] else p);
          p = (if rq_resourceName r \<noteq> [] \<or> rq_subpath r \<noteq> [] \<or> rq_subresource r \<noteq> []
               then path_Join [p, rq_resourceName r, rq_subresource r, rq_subpath r] else p)
      in \<lparr>u_path = p,
          u_query = (if rq_timeout r \<noteq> 0 then (rq_params r)(''timeout'' \<mapsto> [fmt_duration (rq_timeout r)])
                     else rq_params r)\<rparr>)"

section \<open>The connection\<close>

record http_call =
  hc_verb :: string
  hc_url :: url
  hc_headers :: "string \<rightharpoonup> string list"
  hc_body :: "string option"

text \<open>
  A response, with the value of its header \<open>Retry-After\<close> and its body, or the error that ended
  the reading of it: whether it was an HTTP/2 stream error, and its text.
\<close>

record http_response =
  r_status :: int
  r_retryAfter :: string
  r_contentType :: string
  r_body :: "string + bool \<times> string"

record 'e transport =
  HTTPRequestError :: "string \<Rightarrow> url \<Rightarrow> go_error option"
  DoHTTP :: "http_call \<Rightarrow> 'e \<Rightarrow> (http_response + go_error) \<times> 'e"
  IsConnectionReset :: "go_error \<Rightarrow> bool"
  IsProbableEOF :: "go_error \<Rightarrow> bool"

datatype wire_event = Sent http_call "http_response + go_error" | Accepted | Slept int64

record 'e wire =
  peer :: 'e
  trace :: "wire_event list"

definition wire_log :: "wire_event \<Rightarrow> 'e wire \<Rightarrow> 'e wire" where
  "wire_log ev w = w\<lparr>trace := trace w @ [ev]\<rparr>"

definition tryThrottle :: "rest_request \<Rightarrow> 'e wire \<Rightarrow> 'e wire" where
  "tryThrottle r w = (if rq_throttled r then wire_log Accepted w else w)"

definition call_of :: "rest_request \<Rightarrow> http_call" where
  "call_of r = \<lparr>hc_verb = rq_verb r, hc_url = Request_URL r, hc_headers = rq_headers r, hc_body = rq_body r\<rparr>"

definition client_Do ::
    "'e transport \<Rightarrow> http_call \<Rightarrow> 'e wire \<Rightarrow> (http_response + go_error) \<times> 'e wire" where
  "client_Do t c w = (case DoHTTP t c (peer w) of (x, e) \<Rightarrow> (x, (wire_log (Sent c x) w)\<lparr>peer := e\<rparr>))"

section \<open>Sending and retrying\<close>

text \<open>\<open>strconv.Atoi\<close>: an optional sign and decimal digits whose value fits \<open>int\<close>.\<close>

definition ascii_digit :: "char \<Rightarrow> bool" where
  "ascii_digit c = (let n = of_char c :: nat in 48 \<le> n \<and> n \<le> 57)"

definition dec_value :: "string \<Rightarrow> int" where
  "dec_value ds = foldl (\<lambda>n c. 10 * n + (of_char c - 48)) 0 ds"

definition Atoi :: "string \<Rightarrow> int option" where
  "Atoi s =
     (let neg = (s \<noteq> [] \<and> hd s = CHR ''-'');
          ds = (if s \<noteq> [] \<and> (hd s = CHR ''-'' \<or> hd s = CHR ''+'') then tl s else s);
          i = (if neg then - dec_value ds else dec_value ds)
      in if ds \<noteq> [] \<and> list_all ascii_digit ds \<and> - (2 ^ 63) \<le> i \<and> i < 2 ^ 63 then Some i else None)"

definition retryAfterSeconds :: "http_response \<Rightarrow> int \<times> bool" where
  "retryAfterSeconds resp =
     (let h = r_retryAfter resp in
      if h \<noteq> [] then (case Atoi h of Some i \<Rightarrow> (i, True) | None \<Rightarrow> (0, False)) else (0, False))"

definition checkWait :: "http_response \<Rightarrow> int \<times> bool" where
  "checkWait resp =
     (if r_status resp = 429 \<or> 500 \<le> r_status resp then retryAfterSeconds resp else (0, False))"

text \<open>The answer that stands for a reset connection.\<close>

definition reset_response :: http_response where
  "reset_response = \<lparr>r_status = 500, r_retryAfter = ''1'', r_contentType = [], r_body = Inl []\<rparr>"

definition request_maxRetries :: nat where
  "request_maxRetries = 10"

definition wait_seconds :: "int \<Rightarrow> int64" where
  "wait_seconds i = word_of_int i * 1000000000"

text \<open>What a turn of the loop takes as its answer: a reset connection is one only for a GET.\<close>

definition answer_of ::
    "'e transport \<Rightarrow> rest_request \<Rightarrow> http_response + go_error \<Rightarrow> http_response + go_error" where
  "answer_of t r x =
     (case x of
        Inl resp \<Rightarrow> Inl resp
      | Inr err \<Rightarrow> if \<not> IsConnectionReset t err \<or> rq_verb r \<noteq> ''GET'' then Inr err
                   else Inl reset_response)"

text \<open>
  One turn of the loop of \<open>request\<close> for each call; the wait without back-off is of no length. A
  body is a seekable reader of bytes, rewound before a retry.
\<close>

function attempt ::
    "'e transport \<Rightarrow> rest_request \<Rightarrow> nat \<Rightarrow> 'e wire \<Rightarrow> (http_response + go_error) \<times> 'e wire" where
  "attempt t r retries w =
     (case HTTPRequestError t (rq_verb r) (Request_URL r) of
        Some err \<Rightarrow> (Inr err, w)
      | None \<Rightarrow>
          let w0 = wire_log (Slept 0) w;
              w1 = (if retries > 0 then tryThrottle r w0 else w0);
              (x, w2) = client_Do t (call_of r) w1
          in case answer_of t r x of
               Inr err \<Rightarrow> (Inr err, w2)
             | Inl resp \<Rightarrow>
                 let (seconds, wait) = checkWait resp in
                 if wait \<and> retries + 1 < request_maxRetries
                 then attempt t r (retries + 1) (wire_log (Slept (wait_seconds seconds)) w2)
                 else (Inl resp, w2))"
  by pat_completeness auto
termination
  by (relation "measure (\<lambda>(t, r, retries, w). request_maxRetries - retries)") auto

declare attempt.simps [simp del]

definition request ::
    "'e transport \<Rightarrow> rest_request \<Rightarrow> 'e wire \<Rightarrow> (http_response + go_error) \<times> 'e wire" where
  "request t r w =
     (case rq_err r of
        Some err \<Rightarrow> (Inr err, w)
      | None \<Rightarrow>
          if (rq_verb r = ''GET'' \<or> rq_verb r = ''PUT'' \<or> rq_verb r = ''DELETE'') \<and> rq_namespaceSet r \<and>
            rq_resourceName r \<noteq> [] \<and> rq_namespace r = []
          then (Inr (ErrorString ''an empty namespace may not be set when a resource name is provided''), w)
          else if rq_verb r = ''POST'' \<and> rq_namespaceSet r \<and> rq_namespace r = []
          then (Inr (ErrorString ''an empty namespace may not be set during creation''), w)
          else attempt t r 0 w)"

section \<open>What a request does to the outside\<close>

text \<open>The answers to the calls of a trace, and the tokens taken in it.\<close>

fun answers :: "wire_event list \<Rightarrow> (http_response + go_error) list" where
  "answers [] = []"
| "answers (Sent c x # evs) = x # answers evs"
| "answers (ev # evs) = answers evs"

fun calls_sent :: "wire_event list \<Rightarrow> http_call list" where
  "calls_sent [] = []"
| "calls_sent (Sent c x # evs) = c # calls_sent evs"
| "calls_sent (ev # evs) = calls_sent evs"

definition tokens :: "wire_event list \<Rightarrow> nat" where
  "tokens evs = count_list evs Accepted"

lemma answers_append [simp]: "answers (xs @ ys) = answers xs @ answers ys"
  by (induction xs rule: answers.induct) auto

lemma calls_sent_append [simp]: "calls_sent (xs @ ys) = calls_sent xs @ calls_sent ys"
  by (induction xs rule: calls_sent.induct) auto

lemma length_calls_sent: "length (calls_sent evs) = length (answers evs)"
  by (induction evs rule: calls_sent.induct) auto

lemma tokens_simps [simp]:
  "tokens [] = 0" "tokens (Accepted # evs) = Suc (tokens evs)"
  "tokens (Sent c x # evs) = tokens evs" "tokens (Slept d # evs) = tokens evs"
  "tokens (xs @ ys) = tokens xs + tokens ys"
  by (simp_all add: tokens_def)

text \<open>An answer after which the same call is sent again.\<close>

definition asks_again :: "'e transport \<Rightarrow> rest_request \<Rightarrow> http_response + go_error \<Rightarrow> bool" where
  "asks_again t r x =
     (case x of Inl resp \<Rightarrow> snd (checkWait resp) | Inr err \<Rightarrow> IsConnectionReset t err \<and> rq_verb r = ''GET'')"

text \<open>
  The exchange of a request: \<open>exchange t r n evs x\<close> says that from the turn \<open>n\<close> on the events are
  \<open>evs\<close> and the outcome is \<open>x\<close>.
\<close>

inductive exchange ::
    "'e transport \<Rightarrow> rest_request \<Rightarrow> nat \<Rightarrow> wire_event list \<Rightarrow> http_response + go_error \<Rightarrow> bool"
  for t r where
  unsendable: "HTTPRequestError t (rq_verb r) (Request_URL r) = Some err \<Longrightarrow> exchange t r n [] (Inr err)"
| last_call: "\<not> asks_again t r x \<or> request_maxRetries \<le> Suc n \<Longrightarrow>
    exchange t r n (Slept 0 # (if n > 0 \<and> rq_throttled r then [Accepted] else []) @ [Sent (call_of r) x])
      (answer_of t r x)"
| call_again: "asks_again t r x \<Longrightarrow> Suc n < request_maxRetries \<Longrightarrow> exchange t r (Suc n) evs y \<Longrightarrow>
    exchange t r n (Slept 0 # (if n > 0 \<and> rq_throttled r then [Accepted] else []) @
      [Sent (call_of r) x, Slept d] @ evs) y"

lemma reset_asks: "checkWait reset_response = (1, True)"
  by code_simp

lemma answer_of_asks:
  "answer_of t r x = Inl resp \<Longrightarrow> asks_again t r x = snd (checkWait resp)"
  by (auto simp: answer_of_def asks_again_def reset_asks split: sum.splits if_splits)

lemma answer_of_error: "answer_of t r x = Inr err \<Longrightarrow> x = Inr err \<and> \<not> asks_again t r x"
  by (auto simp: answer_of_def asks_again_def split: sum.splits if_splits)

lemma attempt_exchange:
  "\<exists>evs. trace (snd (attempt t r n w)) = trace w @ evs \<and> exchange t r n evs (fst (attempt t r n w))"
proof (induction t r n w rule: attempt.induct)
  case (1 t r n w)
  let ?w1 = "if n > 0 then tryThrottle r (wire_log (Slept 0) w) else wire_log (Slept 0) w"
  let ?lead = "Slept 0 # (if n > 0 \<and> rq_throttled r then [Accepted] else [])"
  obtain x w2 where sent: "client_Do t (call_of r) ?w1 = (x, w2)" by fastforce
  then have tr: "trace w2 = trace w @ ?lead @ [Sent (call_of r) x]"
    by (auto simp: client_Do_def wire_log_def tryThrottle_def split: prod.splits if_splits)
  show ?case
  proof (cases "HTTPRequestError t (rq_verb r) (Request_URL r)")
    case (Some err)
    then show ?thesis
      by (subst (1 2) attempt.simps) (auto intro: exchange.unsendable)
  next
    case ok: None
    show ?thesis
    proof (cases "answer_of t r x")
      case (Inr err)
      with ok sent have "attempt t r n w = (Inr err, w2)"
        by (subst attempt.simps) (simp add: Let_def)
      with tr exchange.last_call [of t r x n] answer_of_error [OF Inr] Inr show ?thesis
        by (auto simp: disjI1)
    next
      case (Inl resp)
      obtain secs wait where cw: "checkWait resp = (secs, wait)" by fastforce
      show ?thesis
      proof (cases "wait \<and> n + 1 < request_maxRetries")
        case again: True
        let ?w3 = "wire_log (Slept (wait_seconds secs)) w2"
        have step: "attempt t r n w = attempt t r (n + 1) ?w3"
          using ok sent Inl cw again by (subst attempt.simps) (simp add: Let_def)
        obtain evs where "trace (snd (attempt t r (n + 1) ?w3)) = trace ?w3 @ evs"
            "exchange t r (n + 1) evs (fst (attempt t r (n + 1) ?w3))"
          using 1 [OF ok refl refl sent [symmetric] refl Inl cw [symmetric] refl again] by blast
        with exchange.call_again [of t r x n evs _ "wait_seconds secs"] again cw answer_of_asks [OF Inl]
        show ?thesis unfolding step by (auto simp: tr wire_log_def)
      next
        case False
        with ok sent Inl cw have "attempt t r n w = (Inl resp, w2)"
          by (subst attempt.simps) (auto simp: Let_def)
        moreover have "\<not> asks_again t r x \<or> request_maxRetries \<le> Suc n"
          using False cw answer_of_asks [OF Inl] by auto
        ultimately show ?thesis
          using tr exchange.last_call [of t r x n] Inl by auto
      qed
    qed
  qed
qed

lemma exchange_calls: "exchange t r n evs y \<Longrightarrow> set (calls_sent evs) \<subseteq> {call_of r}"
  by (induction rule: exchange.induct) auto

lemma exchange_bounded:
  "exchange t r n evs y \<Longrightarrow> n < request_maxRetries \<Longrightarrow> n + length (answers evs) \<le> request_maxRetries"
  by (induction rule: exchange.induct) auto

lemma exchange_repeats:
  "exchange t r n evs y \<Longrightarrow> list_all (asks_again t r) (butlast (answers evs))"
proof (induction rule: exchange.induct)
  case (call_again x n evs y d)
  then show ?case by (cases "answers evs") auto
qed auto

lemma exchange_outcome:
  "exchange t r n evs y \<Longrightarrow> y = Inl resp \<Longrightarrow>
   answers evs \<noteq> [] \<and> answer_of t r (last (answers evs)) = Inl resp"
  by (induction rule: exchange.induct) auto

lemma exchange_tokens:
  "exchange t r n evs y \<Longrightarrow> rq_throttled r \<Longrightarrow> length (answers evs) \<le> tokens evs + (if n = 0 then 1 else 0)"
  by (induction rule: exchange.induct) auto

lemma exchange_no_tokens: "exchange t r n evs y \<Longrightarrow> \<not> rq_throttled r \<Longrightarrow> tokens evs = 0"
  by (induction rule: exchange.induct) simp_all

end
