(* ===== verification/Rest_Response.thy ===== *)
theory Rest_Response
  imports Rest_Request
begin

text \<open>
  What \<open>client-go/rest/request.go\<close> makes of a response: \<open>transformResponse\<close>, the errors that stand
  for a status code (\<open>NewGenericServerResponse\<close> of \<open>apimachinery/pkg/api/errors\<close>), and the readers
  of a result, \<open>Error\<close> and \<open>Into\<close>. Media types and decoders are parameters.
\<close>

section \<open>Results\<close>

record api_status =
  st_status :: string
  st_reason :: string
  st_message :: string

definition FromObject :: "api_status \<Rightarrow> go_error" where
  "FromObject st = StatusError (st_reason st) (st_message st)"

text \<open>What a decoder returns: the object it was given to fill, a status, or something else.\<close>

datatype decoded = SameObject | DecodedStatus api_status | DecodedOther

record 'd media =
  ParseMediaType :: "string \<Rightarrow> string \<times> go_error option"
  RenegotiatedDecoder :: "string \<Rightarrow> 'd \<times> go_error option"
  DefaultDecoder :: 'd
  DecodeAny :: "'d \<Rightarrow> string \<Rightarrow> decoded \<times> go_error option"

text \<open>
  The error of a result with whether it is marked as an unexpected answer of the server
  (\<open>IsUnexpectedServerError\<close>), which only the errors made from a status code are.
\<close>

record 'd rest_result =
  rs_body :: string
  rs_contentType :: string
  rs_err :: "(go_error \<times> bool) option"
  rs_statusCode :: int
  rs_decoder :: "'d option"

definition error_result :: "go_error \<Rightarrow> bool \<Rightarrow> 'd rest_result" where
  "error_result err unexpected =
     \<lparr>rs_body = [], rs_contentType = [], rs_err = Some (err, unexpected), rs_statusCode = 0, rs_decoder = None\<rparr>"

section \<open>Errors of status codes\<close>

definition NewInternalError :: "go_error \<Rightarrow> go_error" where
  "NewInternalError err = StatusError ''InternalError'' (''Internal error occurred: '' @ Error err)"

definition reason_of_code :: "int \<Rightarrow> string \<Rightarrow> string" where
  "reason_of_code code verb =
     (if code = 409 then if verb = ''POST'' then ''AlreadyExists'' else ''Conflict''
      else if code = 404 then ''NotFound''
      else if code = 400 then ''BadRequest''
      else if code = 401 then ''Unauthorized''
      else if code = 403 then ''Forbidden''
      else if code = 406 then ''NotAcceptable''
      else if code = 415 then ''UnsupportedMediaType''
      else if code = 405 then ''MethodNotAllowed''
      else if code = 422 then ''Invalid''
      else if code = 503 then ''ServiceUnavailable''
      else if code = 504 then ''Timeout''
      else if code = 429 then ''TooManyRequests''
      else if 500 \<le> code then ''InternalError''
      else [])"

definition message_of_code :: "int \<Rightarrow> string \<Rightarrow> string" where
  "message_of_code code serverMessage =
     (if code = 409 then ''the server reported a conflict''
      else if code = 404 then ''the server could not find the requested resource''
      else if code = 400 then ''the server rejected our request for an unknown reason''
      else if code = 401 then ''the server has asked for the client to provide credentials''
      else if code = 403 \<or> code = 406 \<or> code = 415 then serverMessage
      else if code = 405 then ''the server does not allow this method on the requested resource''
      else if code = 422 then ''the server rejected our request due to an error in our request''
      else if code = 503 then ''the server is currently unable to handle the request''
      else if code = 504 then
        ''the server was unable to return a response in the time allotted, but may still be processing the request''
      else if code = 429 then
        ''the server has received too many requests and has asked us to try again later''
      else if 500 \<le> code then
        ''an error on the server ('' @ fmt_q serverMessage @ '') has prevented the request from succeeding''
      else ''the server responded with the status code '' @ fmt_d code @ '' but did not return more information'')"

definition GroupResource_String :: "string \<Rightarrow> string \<Rightarrow> string" where
  "GroupResource_String gv_group resource = (if gv_group = [] then resource else resource @ ''.'' @ gv_group)"

definition NewGenericServerResponse :: "int \<Rightarrow> string \<Rightarrow> string \<Rightarrow> string \<Rightarrow> string \<Rightarrow> string \<Rightarrow> go_error" where
  "NewGenericServerResponse code verb gv_group resource name serverMessage =
     (let text = message_of_code code serverMessage;
          text = (if \<not> (gv_group = [] \<and> resource = []) then
              if name \<noteq> [] then
                text @ '' ('' @ ToLower verb @ '' '' @ GroupResource_String gv_group resource @ '' '' @ name @ '')''
              else text @ '' ('' @ ToLower verb @ '' '' @ GroupResource_String gv_group resource @ '')''
            else text)
      in StatusError (reason_of_code code verb) text)"

definition maxUnstructuredResponseTextBytes :: nat where
  "maxUnstructuredResponseTextBytes = 2048"

definition newUnstructuredResponseError :: "rest_request \<Rightarrow> string \<Rightarrow> bool \<Rightarrow> int \<Rightarrow> string \<Rightarrow> go_error" where
  "newUnstructuredResponseError r body is_text statusCode meth =
     (let body = (if maxUnstructuredResponseTextBytes < length body
                  then take maxUnstructuredResponseTextBytes body else body);
          text = (if is_text then TrimSpace body else ''unknown'')
      in if rq_resource r \<noteq> []
         then NewGenericServerResponse statusCode meth (rq_group r) (rq_resource r) (rq_resourceName r) text
         else NewGenericServerResponse statusCode meth [] [] (rq_resourceName r) text)"

definition isTextResponse :: "('d, 'z) media_scheme \<Rightarrow> http_response \<Rightarrow> bool" where
  "isTextResponse md resp =
     (if r_contentType resp = [] then True
      else case ParseMediaType md (r_contentType resp) of
        (_, Some err) \<Rightarrow> False
      | (media, None) \<Rightarrow> prefix ''text/'' media)"

section \<open>From a response to a result\<close>

definition error_status :: "int \<Rightarrow> bool" where
  "error_status code = (code < 200 \<or> code > 206)"

definition structured_result :: "('d, 'z) media_scheme \<Rightarrow> rest_request \<Rightarrow> http_response \<Rightarrow> string \<Rightarrow> 'd \<Rightarrow> 'd rest_result" where
  "structured_result md r resp body decoder =
     \<lparr>rs_body = body, rs_contentType = r_contentType resp,
      rs_err = (if r_status resp = 101 then None
        else if error_status (r_status resp)
        then Some (newUnstructuredResponseError r body (isTextResponse md resp) (r_status resp) (rq_verb r), True)
        else None),
      rs_statusCode = r_status resp, rs_decoder = Some decoder\<rparr>"

definition transformResponse :: "('d, 'z) media_scheme \<Rightarrow> rest_request \<Rightarrow> http_response \<Rightarrow> 'd rest_result" where
  "transformResponse md r resp =
     (case r_body resp of
        Inr (stream, text) \<Rightarrow>
          error_result (ErrorString (if stream
            then ''Stream error '' @ text @ '' when reading response body, may be caused by closed connection. Please retry.''
            else ''Unexpected error '' @ text @ '' when reading response body. Please retry.'')) False
      | Inl body \<Rightarrow>
          if r_contentType resp \<noteq> [] \<and> rq_contentType r \<noteq> [] \<and> r_contentType resp \<noteq> rq_contentType r then
            (case ParseMediaType md (r_contentType resp) of
               (_, Some err) \<Rightarrow> error_result (NewInternalError err) False
             | (mediaType, None) \<Rightarrow>
                 (case RenegotiatedDecoder md mediaType of
                    (_, Some err) \<Rightarrow>
                      if r_status resp \<noteq> 101 \<and> error_status (r_status resp)
                      then error_result (newUnstructuredResponseError r body (isTextResponse md resp)
                             (r_status resp) (rq_verb r)) True
                      else \<lparr>rs_body = body, rs_contentType = r_contentType resp, rs_err = None,
                             rs_statusCode = r_status resp, rs_decoder = None\<rparr>
                  | (decoder, None) \<Rightarrow> structured_result md r resp body decoder))
          else structured_result md r resp body (DefaultDecoder md))"

definition Request_Do ::
    "('d, 'z) media_scheme \<Rightarrow> 'e transport \<Rightarrow> rest_request \<Rightarrow> 'e wire \<Rightarrow> 'd rest_result \<times> 'e wire" where
  "Request_Do md t r w =
     (case request t r (tryThrottle r w) of
        (Inr err, w') \<Rightarrow> (error_result err False, w')
      | (Inl resp, w') \<Rightarrow> (transformResponse md r resp, w'))"

definition Result_Error :: "('d, 'z) media_scheme \<Rightarrow> 'd rest_result \<Rightarrow> go_error option" where
  "Result_Error md res =
     (case (rs_err res, rs_decoder res) of
        (Some (err, True), Some decoder) \<Rightarrow>
          if rs_body res = [] then Some err
          else (case DecodeAny md decoder (rs_body res) of
              (_, Some _) \<Rightarrow> Some err
            | (DecodedStatus st, None) \<Rightarrow>
                if st_status st = ''Failure'' then Some (FromObject st) else Some err
            | _ \<Rightarrow> Some err)
      | (e, _) \<Rightarrow> map_option fst e)"

text \<open>\<open>Into\<close> with what the decoder makes of the body and the object it fills.\<close>

definition Result_Into ::
    "('d, 'z) media_scheme \<Rightarrow> ('d \<Rightarrow> string \<Rightarrow> 'o \<times> decoded \<times> go_error option) \<Rightarrow> 'o \<Rightarrow> 'd rest_result \<Rightarrow>
     'o \<times> go_error option" where
  "Result_Into md dec obj res =
     (if rs_err res \<noteq> None then (obj, Result_Error md res)
      else case rs_decoder res of
        None \<Rightarrow> (obj, Some (ErrorString (''serializer for '' @ rs_contentType res @ '' doesn'' @ CHR 0x27 # ''t exist'')))
      | Some decoder \<Rightarrow>
          if rs_body res = [] then (obj, Some (ErrorString ''0-length response''))
          else (case dec decoder (rs_body res) of
              (obj', _, Some err) \<Rightarrow> (obj', Some err)
            | (obj', SameObject, None) \<Rightarrow> (obj', None)
            | (obj', DecodedStatus st, None) \<Rightarrow>
                (obj', if st_status st \<noteq> ''Success'' then Some (FromObject st) else None)
            | (obj', DecodedOther, None) \<Rightarrow> (obj', None)))"

section \<open>Watches\<close>

datatype watch_start = EmptyWatch | StreamWatch http_response

text \<open>
  A watch is not throttled and not repeated. The text of the last error has the path where the code
  prints the whole address.
\<close>

definition Request_Watch ::
    "('d, 'z) media_scheme \<Rightarrow> 'e transport \<Rightarrow> bool \<Rightarrow> rest_request \<Rightarrow> 'e wire \<Rightarrow> (watch_start + go_error) \<times> 'e wire" where
  "Request_Watch md t framed r w =
     (case rq_err r of
        Some err \<Rightarrow> (Inr err, w)
      | None \<Rightarrow>
          if \<not> framed then
            (Inr (ErrorString (''watching resources is not possible with this client (content-type: '' @
               rq_contentType r @ '')'')), w)
          else case HTTPRequestError t (rq_verb r) (Request_URL r) of
            Some err \<Rightarrow> (Inr err, w)
          | None \<Rightarrow>
              (case client_Do t (call_of r) (wire_log (Slept 0) w) of
                 (Inr err, w') \<Rightarrow> if IsProbableEOF t err then (Inl EmptyWatch, w') else (Inr err, w')
               | (Inl resp, w') \<Rightarrow>
                   if r_status resp \<noteq> 200 then
                     (case rs_err (transformResponse md r resp) of
                        Some (err, _) \<Rightarrow> (Inr err, w')
                      | None \<Rightarrow> (Inr (ErrorString (''for request '' @ CHR 0x27 # u_path (Request_URL r) @ CHR 0x27 #
                         '', got status: '' @ fmt_d (r_status resp))), w'))
                   else (Inl (StreamWatch resp), w')))"

end
