(* ===== verification/Api_Requests.thy ===== *)
theory Api_Requests
  imports Api_Types
begin

text \<open>
  What clients, fakes and listers of virtual machines exchange beside the objects themselves: lists
  of machines, the options of the requests (the fields of \<open>apimachinery/pkg/apis/meta/v1\<close> that the
  code sets or passes on), the zero value of a machine, and the errors \<open>NotFound\<close> and
  \<open>AlreadyExists\<close>.
\<close>

record list_meta =
  lm_selfLink :: string
  lm_resourceVersion :: string
  lm_continue :: string

record vm_list =
  vl_metadata :: list_meta
  vl_items :: "virtual_machine list"

definition empty_list :: vm_list where
  "empty_list = \<lparr>vl_metadata = \<lparr>lm_selfLink = [], lm_resourceVersion = [], lm_continue = []\<rparr>, vl_items = []\<rparr>"

record get_options =
  go_resourceVersion :: string
  go_includeUninitialized :: bool

record list_options =
  lo_labelSelector :: string
  lo_fieldSelector :: string
  lo_includeUninitialized :: bool
  lo_watch :: bool
  lo_resourceVersion :: string
  lo_timeoutSeconds :: "int64 option"

record delete_options =
  do_gracePeriodSeconds :: "int64 option"
  do_preconditionUID :: "string option"
  do_orphanDependents :: "bool option"
  do_propagationPolicy :: "string option"

definition no_list_options :: list_options where
  "no_list_options = \<lparr>lo_labelSelector = [], lo_fieldSelector = [], lo_includeUninitialized = False,
     lo_watch = False, lo_resourceVersion = [], lo_timeoutSeconds = None\<rparr>"

definition no_get_options :: get_options where
  "no_get_options = \<lparr>go_resourceVersion = [], go_includeUninitialized = False\<rparr>"

text \<open>\<open>&VirtualMachine{}\<close>.\<close>

definition empty_vm :: virtual_machine where
  "empty_vm = \<lparr>type_meta = \<lparr>kind = [], apiVersion = []\<rparr>,
     metadata = \<lparr>om_name = [], om_namespace = [], om_uid = [], om_resourceVersion = [], om_generation = 0,
       om_creationTimestamp = 0, om_deletionTimestamp = None, om_labels = NilSlice, om_annotations = NilSlice,
       om_ownerReferences = NilSlice, om_finalizers = NilSlice\<rparr>,
     spec = \<lparr>machineType = [], bootDisk = \<lparr>sizeGb = 0, disk_type = [], imageFamily = []\<rparr>, disks = NilSlice\<rparr>,
     status = \<lparr>state = \<lparr>processingPhase = [], message = []\<rparr>, selfLink = [],
       secretRef = \<lparr>ref_kind = [], ref_namespace = [], ref_name = [], ref_uid = []\<rparr>\<rparr>\<rparr>"

definition GroupName :: string where
  "GroupName = ''ci.openshift.io''"

text \<open>The errors of a group resource that is missing or there already.\<close>

definition NewNotFound :: "string \<Rightarrow> string \<Rightarrow> go_error" where
  "NewNotFound resource name =
     StatusError ''NotFound'' (resource @ '' '' @ fmt_q name @ '' not found'')"

definition NewAlreadyExists :: "string \<Rightarrow> string \<Rightarrow> go_error" where
  "NewAlreadyExists resource name =
     StatusError ''AlreadyExists'' (resource @ '' '' @ fmt_q name @ '' already exists'')"

lemma IsNotFound_NewNotFound [simp]: "IsNotFound (Some (NewNotFound resource name))"
  by (simp add: IsNotFound_def NewNotFound_def)

lemma IsNotFound_NewAlreadyExists [simp]: "\<not> IsNotFound (Some (NewAlreadyExists resource name))"
  by (simp add: IsNotFound_def NewAlreadyExists_def)

end
