(* ===== verification/Typed_Client.thy ===== *)
theory Typed_Client
  imports Rest_Response Api_Requests Reconciler Sample_World
begin

text \<open>
  The client of the operator for its own resource: \<open>NewForConfig\<close> and the interface of
  \<open>pkg/client/clientset/versioned/typed/virtualmachines/v1alpha1\<close>, the client set of
  \<open>pkg/client/clientset/versioned\<close>, and the part of \<open>client-go/rest\<close> that makes a client of a
  configuration. \<open>over_rest\<close> puts this client under the reconciler.
\<close>

section \<open>Clients\<close>

record group_version =
  gv_Group :: string
  gv_Version :: string

definition SchemeGroupVersion :: group_version where
  "SchemeGroupVersion = \<lparr>gv_Group = GroupName, gv_Version = ''v1alpha1''\<rparr>"

text \<open>
  A configuration of the connection, with the numbers of its rate in thousandths per second, and
  its rate limiter by a name.
\<close>

record rest_config =
  cfg_Host :: string
  cfg_APIPath :: string
  cfg_GroupVersion :: "group_version option"
  cfg_hasSerializer :: bool
  cfg_AcceptContentTypes :: string
  cfg_ContentType :: string
  cfg_UserAgent :: string
  cfg_QPS :: int
  cfg_Burst :: int
  cfg_RateLimiter :: "string option"
  cfg_Timeout :: int
  cfg_tls :: bool

record rest_client =
  cl_base :: string
  cl_versionedAPIPath :: string
  cl_GroupVersion :: group_version
  cl_AcceptContentTypes :: string
  cl_ContentType :: string
  cl_Throttle :: "string option"
  cl_Timeout :: int

text \<open>
  What the client asks of libraries: \<open>url.Parse\<close> (scheme, host and path of an address), the
  transport of a configuration, which is the default one or not, and the serializers of a content type.
\<close>

record rest_tools =
  url_Parse :: "string \<Rightarrow> (string \<times> string \<times> string) \<times> go_error option"
  TransportFor :: "rest_config \<Rightarrow> bool \<times> go_error option"
  createSerializers :: "string \<Rightarrow> go_error option"
  NewTokenBucket :: "int \<Rightarrow> int \<Rightarrow> string"
  UserAgentDefault :: string
  NewDiscovery :: "rest_config \<Rightarrow> go_error option"

definition DefaultVersionedAPIPath :: "string \<Rightarrow> group_version \<Rightarrow> string" where
  "DefaultVersionedAPIPath apiPath gv =
     (let versionedAPIPath = path_Join [''/'', apiPath] in
      if gv_Group gv \<noteq> [] then path_Join [versionedAPIPath, gv_Group gv, gv_Version gv]
      else path_Join [versionedAPIPath, gv_Version gv])"

text \<open>The path of the base address and the path of the API, or an error.\<close>

definition DefaultServerURL ::
    "rest_tools \<Rightarrow> string \<Rightarrow> string \<Rightarrow> group_version \<Rightarrow> bool \<Rightarrow> (string \<times> string) + go_error" where
  "DefaultServerURL tools host apiPath gv defaultTLS =
     (if host = [] then Inr (ErrorString ''host must be a URL or a host:port pair'')
      else case url_Parse tools host of
        ((scheme, h, p), err) \<Rightarrow>
          if err \<noteq> None \<or> scheme = [] \<or> h = [] then
            (case url_Parse tools ((if defaultTLS then ''https://'' else ''http://'') @ host) of
               (_, Some err) \<Rightarrow> Inr err
             | ((_, _, p'), None) \<Rightarrow>
                 if p' \<noteq> [] \<and> p' \<noteq> ''/'' then
                   Inr (ErrorString (''host must be a URL or a host:port pair: '' @ fmt_q host))
                 else Inl (p', DefaultVersionedAPIPath apiPath gv))
          else Inl (p, DefaultVersionedAPIPath apiPath gv))"

definition NewRESTClient ::
    "rest_tools \<Rightarrow> string \<Rightarrow> string \<Rightarrow> rest_config \<Rightarrow> group_version \<Rightarrow> int \<Rightarrow> int \<Rightarrow> int \<Rightarrow> rest_client + go_error" where
  "NewRESTClient tools basePath versionedAPIPath config gv maxQPS maxBurst timeout =
     (let base = (if suffix ''/'' basePath then basePath else basePath @ ''/'');
          contentType = (if cfg_ContentType config = [] then ''application/json'' else cfg_ContentType config)
      in case createSerializers tools contentType of
           Some err \<Rightarrow> Inr err
         | None \<Rightarrow>
             Inl \<lparr>cl_base = base, cl_versionedAPIPath = versionedAPIPath, cl_GroupVersion = gv,
               cl_AcceptContentTypes = cfg_AcceptContentTypes config, cl_ContentType = contentType,
               cl_Throttle = (if maxQPS > 0 \<and> cfg_RateLimiter config = None
                 then Some (NewTokenBucket tools maxQPS maxBurst) else cfg_RateLimiter config),
               cl_Timeout = timeout\<rparr>)"

definition RESTClientFor :: "rest_tools \<Rightarrow> rest_config \<Rightarrow> rest_client + go_error" where
  "RESTClientFor tools config =
     (case cfg_GroupVersion config of
        None \<Rightarrow> Inr (ErrorString ''GroupVersion is required when initializing a RESTClient'')
      | Some gv \<Rightarrow>
          if \<not> cfg_hasSerializer config then
            Inr (ErrorString ''NegotiatedSerializer is required when initializing a RESTClient'')
          else
            let qps = (if cfg_QPS config = 0 then 5000 else cfg_QPS config);
                burst = (if cfg_Burst config = 0 then 10 else cfg_Burst config);
                host = (if cfg_Host config = [] then ''localhost'' else cfg_Host config)
            in case DefaultServerURL tools host (cfg_APIPath config) gv (cfg_tls config) of
                 Inr err \<Rightarrow> Inr err
               | Inl (basePath, versionedAPIPath) \<Rightarrow>
                   (case TransportFor tools config of
                      (_, Some err) \<Rightarrow> Inr err
                    | (is_default, None) \<Rightarrow>
                        NewRESTClient tools basePath versionedAPIPath config gv qps burst
                          (if \<not> is_default \<and> cfg_Timeout config > 0 then cfg_Timeout config else 0)))"

text \<open>\<open>Verb\<close> and the methods named after HTTP's, which begin a request.\<close>

definition client_Verb :: "string \<Rightarrow> rest_client \<Rightarrow> rest_request" where
  "client_Verb verb c =
     NewRequest verb (cl_base c) (cl_versionedAPIPath c) (gv_Group (cl_GroupVersion c))
       (cl_AcceptContentTypes c) (cl_ContentType c) (cl_Throttle c \<noteq> None) (cl_Timeout c)"

definition client_Get :: "rest_client \<Rightarrow> rest_request" where "client_Get = client_Verb ''GET''"
definition client_Post :: "rest_client \<Rightarrow> rest_request" where "client_Post = client_Verb ''POST''"
definition client_Put :: "rest_client \<Rightarrow> rest_request" where "client_Put = client_Verb ''PUT''"
definition client_Delete :: "rest_client \<Rightarrow> rest_request" where "client_Delete = client_Verb ''DELETE''"
definition client_Patch :: "string \<Rightarrow> rest_client \<Rightarrow> rest_request" where
  "client_Patch pt c = SetHeader ''Content-Type'' [pt] (client_Verb ''PATCH'' c)"

section \<open>The group's client and the client set\<close>

definition setConfigDefaults :: "rest_tools \<Rightarrow> rest_config \<Rightarrow> rest_config" where
  "setConfigDefaults tools config =
     (let config = config\<lparr>cfg_GroupVersion := Some SchemeGroupVersion, cfg_APIPath := ''/apis'',
          cfg_hasSerializer := True\<rparr>
      in if cfg_UserAgent config = [] then config\<lparr>cfg_UserAgent := UserAgentDefault tools\<rparr> else config)"

record group_client =
  restClient :: rest_client

definition group_NewForConfig :: "rest_tools \<Rightarrow> rest_config \<Rightarrow> group_client + go_error" where
  "group_NewForConfig tools c =
     (case RESTClientFor tools (setConfigDefaults tools c) of
        Inr err \<Rightarrow> Inr err
      | Inl client \<Rightarrow> Inl \<lparr>restClient = client\<rparr>)"

definition group_NewForConfigOrDie :: "rest_tools \<Rightarrow> rest_config \<Rightarrow> group_client panicky" where
  "group_NewForConfigOrDie tools c =
     (case group_NewForConfig tools c of Inr err \<Rightarrow> Panics (Error err) | Inl client \<Rightarrow> Returns client)"

definition group_New :: "rest_client \<Rightarrow> group_client" where
  "group_New c = \<lparr>restClient = c\<rparr>"

fun group_RESTClient :: "group_client option \<Rightarrow> rest_client option" where
  "group_RESTClient None = None"
| "group_RESTClient (Some c) = Some (restClient c)"

text \<open>The discovery client, by what it was made of.\<close>

datatype discovery_client = DiscoveryForConfig rest_config | DiscoveryOf rest_client

record clientset =
  ciV1alpha1 :: group_client
  discovery :: discovery_client

definition CiV1alpha1 :: "clientset \<Rightarrow> group_client" where "CiV1alpha1 c = ciV1alpha1 c"
definition Ci :: "clientset \<Rightarrow> group_client" where "Ci c = ciV1alpha1 c"

fun Discovery :: "clientset option \<Rightarrow> discovery_client option" where
  "Discovery None = None"
| "Discovery (Some c) = Some (discovery c)"

definition clientset_NewForConfig :: "rest_tools \<Rightarrow> rest_config \<Rightarrow> clientset + go_error" where
  "clientset_NewForConfig tools c =
     (let c' = (if cfg_RateLimiter c = None \<and> cfg_QPS c > 0
          then c\<lparr>cfg_RateLimiter := Some (NewTokenBucket tools (cfg_QPS c) (cfg_Burst c))\<rparr> else c)
      in case group_NewForConfig tools c' of
           Inr err \<Rightarrow> Inr err
         | Inl client \<Rightarrow>
             (case NewDiscovery tools c' of
                Some err \<Rightarrow> Inr err
              | None \<Rightarrow> Inl \<lparr>ciV1alpha1 = client, discovery = DiscoveryForConfig c'\<rparr>))"

definition clientset_NewForConfigOrDie :: "rest_tools \<Rightarrow> rest_config \<Rightarrow> clientset panicky" where
  "clientset_NewForConfigOrDie tools c =
     (case group_NewForConfigOrDie tools c of
        Panics m \<Rightarrow> Panics m
      | Returns client \<Rightarrow>
          (case NewDiscovery tools c of
             Some err \<Rightarrow> Panics (Error err)
           | None \<Rightarrow> Returns \<lparr>ciV1alpha1 = client, discovery = DiscoveryForConfig c\<rparr>))"

definition clientset_New :: "rest_client \<Rightarrow> clientset" where
  "clientset_New c = \<lparr>ciV1alpha1 = group_New c, discovery = DiscoveryOf c\<rparr>"

section \<open>The operations on virtual machines\<close>

record 'd vm_codec = "'d media" +
  EncodeVM :: "virtual_machine \<Rightarrow> string \<times> go_error option"
  EncodeDeleteOptions :: "delete_options \<Rightarrow> string \<times> go_error option"
  EncodeGetParameters :: "get_options \<Rightarrow> (string \<rightharpoonup> string list) \<times> go_error option"
  EncodeListParameters :: "list_options \<Rightarrow> (string \<rightharpoonup> string list) \<times> go_error option"
  DecodeVM :: "'d \<Rightarrow> string \<Rightarrow> virtual_machine \<times> decoded \<times> go_error option"
  DecodeVMList :: "'d \<Rightarrow> string \<Rightarrow> vm_list \<times> decoded \<times> go_error option"
  hasFramer :: bool

record virtualMachines =
  vc_client :: rest_client
  vc_ns :: string

definition newVirtualMachines :: "group_client \<Rightarrow> string \<Rightarrow> virtualMachines" where
  "newVirtualMachines c namespace = \<lparr>vc_client = restClient c, vc_ns = namespace\<rparr>"

definition VirtualMachines :: "group_client \<Rightarrow> string \<Rightarrow> virtualMachines" where
  "VirtualMachines c namespace = newVirtualMachines c namespace"

text \<open>Running a request and reading a machine from its result.\<close>

definition do_into ::
    "'d vm_codec \<Rightarrow> 'e transport \<Rightarrow> rest_request \<Rightarrow> 'e wire \<Rightarrow> (virtual_machine \<times> go_error option) \<times> 'e wire" where
  "do_into md t r w =
     (case Request_Do md t r w of (res, w') \<Rightarrow> (Result_Into md (DecodeVM md) empty_vm res, w'))"

definition vmc_Get_request :: "'d vm_codec \<Rightarrow> virtualMachines \<Rightarrow> string \<Rightarrow> get_options \<Rightarrow> rest_request" where
  "vmc_Get_request md c name options =
     Request_VersionedParams (EncodeGetParameters md options)
       (Request_Name name (Request_Resource ''virtualmachines'' (Request_Namespace (vc_ns c) (client_Get (vc_client c)))))"

definition vmc_Get ::
    "'d vm_codec \<Rightarrow> 'e transport \<Rightarrow> virtualMachines \<Rightarrow> string \<Rightarrow> get_options \<Rightarrow> 'e wire \<Rightarrow>
     (virtual_machine \<times> go_error option) \<times> 'e wire" where
  "vmc_Get md t c name options = do_into md t (vmc_Get_request md c name options)"

definition vmc_List_request :: "'d vm_codec \<Rightarrow> virtualMachines \<Rightarrow> list_options \<Rightarrow> rest_request" where
  "vmc_List_request md c opts =
     Request_VersionedParams (EncodeListParameters md opts)
       (Request_Resource ''virtualmachines'' (Request_Namespace (vc_ns c) (client_Get (vc_client c))))"

definition vmc_List ::
    "'d vm_codec \<Rightarrow> 'e transport \<Rightarrow> virtualMachines \<Rightarrow> list_options \<Rightarrow> 'e wire \<Rightarrow> (vm_list \<times> go_error option) \<times> 'e wire" where
  "vmc_List md t c opts w =
     (case Request_Do md t (vmc_List_request md c opts) w of
        (res, w') \<Rightarrow> (Result_Into md (DecodeVMList md) empty_list res, w'))"

definition vmc_Watch ::
    "'d vm_codec \<Rightarrow> 'e transport \<Rightarrow> virtualMachines \<Rightarrow> list_options \<Rightarrow> 'e wire \<Rightarrow> (watch_start + go_error) \<times> 'e wire" where
  "vmc_Watch md t c opts =
     Request_Watch md t (hasFramer md) (vmc_List_request md c (opts\<lparr>lo_watch := True\<rparr>))"

definition vmc_Create_request :: "'d vm_codec \<Rightarrow> virtualMachines \<Rightarrow> virtual_machine \<Rightarrow> rest_request" where
  "vmc_Create_request md c vm =
     Request_Body (EncodeVM md) (ObjectBody (Some vm))
       (Request_Resource ''virtualmachines'' (Request_Namespace (vc_ns c) (client_Post (vc_client c))))"

definition vmc_Create ::
    "'d vm_codec \<Rightarrow> 'e transport \<Rightarrow> virtualMachines \<Rightarrow> virtual_machine \<Rightarrow> 'e wire \<Rightarrow>
     (virtual_machine \<times> go_error option) \<times> 'e wire" where
  "vmc_Create md t c vm = do_into md t (vmc_Create_request md c vm)"

definition vmc_Update_request :: "'d vm_codec \<Rightarrow> virtualMachines \<Rightarrow> virtual_machine \<Rightarrow> rest_request" where
  "vmc_Update_request md c vm =
     Request_Body (EncodeVM md) (ObjectBody (Some vm))
       (Request_Name (vm_name vm)
         (Request_Resource ''virtualmachines'' (Request_Namespace (vc_ns c) (client_Put (vc_client c)))))"

definition vmc_Update ::
    "'d vm_codec \<Rightarrow> 'e transport \<Rightarrow> virtualMachines \<Rightarrow> virtual_machine \<Rightarrow> 'e wire \<Rightarrow>
     (virtual_machine \<times> go_error option) \<times> 'e wire" where
  "vmc_Update md t c vm = do_into md t (vmc_Update_request md c vm)"

definition vmc_UpdateStatus_request :: "'d vm_codec \<Rightarrow> virtualMachines \<Rightarrow> virtual_machine \<Rightarrow> rest_request" where
  "vmc_UpdateStatus_request md c vm =
     Request_Body (EncodeVM md) (ObjectBody (Some vm))
       (Request_SubResource [''status''] (Request_Name (vm_name vm)
         (Request_Resource ''virtualmachines'' (Request_Namespace (vc_ns c) (client_Put (vc_client c))))))"

definition vmc_UpdateStatus ::
    "'d vm_codec \<Rightarrow> 'e transport \<Rightarrow> virtualMachines \<Rightarrow> virtual_machine \<Rightarrow> 'e wire \<Rightarrow>
     (virtual_machine \<times> go_error option) \<times> 'e wire" where
  "vmc_UpdateStatus md t c vm = do_into md t (vmc_UpdateStatus_request md c vm)"

definition vmc_Delete_request ::
    "'d vm_codec \<Rightarrow> virtualMachines \<Rightarrow> string \<Rightarrow> delete_options option \<Rightarrow> rest_request" where
  "vmc_Delete_request md c name options =
     Request_Body (EncodeDeleteOptions md) (ObjectBody options)
       (Request_Name name
         (Request_Resource ''virtualmachines'' (Request_Namespace (vc_ns c) (client_Delete (vc_client c)))))"

definition vmc_Delete ::
    "'d vm_codec \<Rightarrow> 'e transport \<Rightarrow> virtualMachines \<Rightarrow> string \<Rightarrow> delete_options option \<Rightarrow> 'e wire \<Rightarrow>
     go_error option \<times> 'e wire" where
  "vmc_Delete md t c name options w =
     (case Request_Do md t (vmc_Delete_request md c name options) w of (res, w') \<Rightarrow> (Result_Error md res, w'))"

definition vmc_DeleteCollection_request ::
    "'d vm_codec \<Rightarrow> virtualMachines \<Rightarrow> delete_options option \<Rightarrow> list_options \<Rightarrow> rest_request" where
  "vmc_DeleteCollection_request md c options listOptions =
     Request_Body (EncodeDeleteOptions md) (ObjectBody options)
       (Request_VersionedParams (EncodeListParameters md listOptions)
         (Request_Resource ''virtualmachines'' (Request_Namespace (vc_ns c) (client_Delete (vc_client c)))))"

definition vmc_DeleteCollection ::
    "'d vm_codec \<Rightarrow> 'e transport \<Rightarrow> virtualMachines \<Rightarrow> delete_options option \<Rightarrow> list_options \<Rightarrow> 'e wire \<Rightarrow>
     go_error option \<times> 'e wire" where
  "vmc_DeleteCollection md t c options listOptions w =
     (case Request_Do md t (vmc_DeleteCollection_request md c options listOptions) w of
        (res, w') \<Rightarrow> (Result_Error md res, w'))"

definition vmc_Patch_request ::
    "'d vm_codec \<Rightarrow> virtualMachines \<Rightarrow> string \<Rightarrow> string \<Rightarrow> string \<Rightarrow> string list \<Rightarrow> rest_request" where
  "vmc_Patch_request md c name pt data subresources =
     Request_Body (EncodeVM md) (BytesBody data)
       (Request_Name name (Request_SubResource subresources
         (Request_Resource ''virtualmachines'' (Request_Namespace (vc_ns c) (client_Patch pt (vc_client c))))))"

definition vmc_Patch ::
    "'d vm_codec \<Rightarrow> 'e transport \<Rightarrow> virtualMachines \<Rightarrow> string \<Rightarrow> string \<Rightarrow> string \<Rightarrow> string list \<Rightarrow> 'e wire \<Rightarrow>
     (virtual_machine \<times> go_error option) \<times> 'e wire" where
  "vmc_Patch md t c name pt data subresources = do_into md t (vmc_Patch_request md c name pt data subresources)"

end
