(* ===== verification/Sample_Client.thy ===== *)
theory Sample_Client
  imports Typed_Client
begin

text \<open>
  Concrete inputs for the witnesses of the client: a configured client, serializers that always
  succeed, a server that answers every call with the status code 404, and one whose connections
  are reset.
\<close>

definition sample_rest_tools :: rest_tools where
  "sample_rest_tools = \<lparr>url_Parse = (\<lambda>_. ((''https'', ''10.0.0.1'', ''/proxy''), None)),
     TransportFor = (\<lambda>_. (True, None)), createSerializers = (\<lambda>_. None), NewTokenBucket = (\<lambda>_ _. ''bucket''),
     UserAgentDefault = ''agent'', NewDiscovery = (\<lambda>_. None)\<rparr>"

definition sample_rest_config :: rest_config where
  "sample_rest_config = \<lparr>cfg_Host = ''https://10.0.0.1/proxy'', cfg_APIPath = [], cfg_GroupVersion = None,
     cfg_hasSerializer = False, cfg_AcceptContentTypes = [], cfg_ContentType = [], cfg_UserAgent = [],
     cfg_QPS = 0, cfg_Burst = 0, cfg_RateLimiter = None, cfg_Timeout = 0, cfg_tls = True\<rparr>"

definition sample_rest_client :: rest_client where
  "sample_rest_client = \<lparr>cl_base = ''/proxy/'', cl_versionedAPIPath = ''/apis/ci.openshift.io/v1alpha1'',
     cl_GroupVersion = SchemeGroupVersion, cl_AcceptContentTypes = [], cl_ContentType = ''application/json'',
     cl_Throttle = Some ''bucket'', cl_Timeout = 0\<rparr>"

definition sample_group :: group_client where
  "sample_group = \<lparr>restClient = sample_rest_client\<rparr>"

lemma sample_NewForConfig: "group_NewForConfig sample_rest_tools sample_rest_config = Inl sample_group"
  by code_simp

definition sample_vm_codec :: "unit vm_codec" where
  "sample_vm_codec = \<lparr>ParseMediaType = (\<lambda>s. (s, None)), RenegotiatedDecoder = (\<lambda>_. ((), None)),
     DefaultDecoder = (), DecodeAny = (\<lambda>_ _. (DecodedOther, None)),
     EncodeVM = (\<lambda>vm. (vm_name vm, None)), EncodeDeleteOptions = (\<lambda>_. (''{}'', None)),
     EncodeGetParameters = (\<lambda>_. (Map.empty, None)), EncodeListParameters = (\<lambda>_. (Map.empty, None)),
     DecodeVM = (\<lambda>_ _. (sample_vm None, SameObject, None)),
     DecodeVMList = (\<lambda>_ _. (empty_list, SameObject, None)), hasFramer = True\<rparr>"

definition not_found_answer :: http_response where
  "not_found_answer = \<lparr>r_status = 404, r_retryAfter = [], r_contentType = [], r_body = Inl ''gone''\<rparr>"

definition not_found_server :: "unit transport" where
  "not_found_server = \<lparr>HTTPRequestError = (\<lambda>_ _. None), DoHTTP = (\<lambda>_ e. (Inl not_found_answer, e)),
     IsConnectionReset = (\<lambda>_. False), IsProbableEOF = (\<lambda>_. False)\<rparr>"

definition resetting_server :: "unit transport" where
  "resetting_server = not_found_server\<lparr>DoHTTP := (\<lambda>_ e. (Inr (ErrorString ''connection reset by peer''), e)),
     IsConnectionReset := (\<lambda>_. True)\<rparr>"

definition sample_wire :: "unit wire" where
  "sample_wire = \<lparr>peer = (), trace = []\<rparr>"

definition sample_path :: string where
  "sample_path = ''/proxy/apis/ci.openshift.io/v1alpha1/namespaces/ci/virtualmachines/vm''"

end
