(* ===== verification/Client_Requests.thy ===== *)
theory Client_Requests
  imports Sample_Client
begin

text \<open>
  What the typed client does to the API server: which addresses its operations name, when nothing
  is sent, how often a request is repeated, and how the reconciler behaves over this client.
\<close>

section \<open>Events of an operation\<close>

text \<open>What an operation adds to the trace.\<close>

definition emitted :: "('e wire \<Rightarrow> 'a \<times> 'e wire) \<Rightarrow> 'e wire \<Rightarrow> wire_event list" where
  "emitted m w = drop (length (trace w)) (trace (snd (m w)))"

text \<open>A request that \<open>request\<close> refuses before it connects.\<close>

definition refused :: "rest_request \<Rightarrow> bool" where
  "refused r =
     (rq_err r \<noteq> None \<or>
      rq_namespaceSet r \<and> rq_namespace r = [] \<and>
        (rq_verb r \<in> {''GET'', ''PUT'', ''DELETE''} \<and> rq_resourceName r \<noteq> [] \<or> rq_verb r = ''POST''))"

lemma request_refused:
  "refused r \<Longrightarrow> \<exists>err. request t r w = (Inr err, w)"
  by (cases "rq_err r") (auto simp: refused_def request_def)

lemma request_sent: "\<not> refused r \<Longrightarrow> request t r w = attempt t r 0 w"
  by (cases "rq_err r") (auto simp: refused_def request_def)

lemma tryThrottle_trace:
  "trace (tryThrottle r w) = trace w @ (if rq_throttled r then [Accepted] else [])"
  by (simp add: tryThrottle_def wire_log_def)

lemma Do_refused:
  assumes "refused r"
  shows "\<exists>err. Request_Do md t r w = (error_result err False, tryThrottle r w)"
  using request_refused [OF assms, of t "tryThrottle r w"] by (auto simp: Request_Do_def)

lemma Do_events:
  assumes "\<not> refused r"
  obtains evs x where "emitted (Request_Do md t r) w = (if rq_throttled r then [Accepted] else []) @ evs"
    "exchange t r 0 evs x" "fst (Request_Do md t r w) =
      (case x of Inr err \<Rightarrow> error_result err False | Inl resp \<Rightarrow> transformResponse md r resp)"
proof -
  obtain x w' where att: "attempt t r 0 (tryThrottle r w) = (x, w')" by fastforce
  with attempt_exchange [of t r 0 "tryThrottle r w"] obtain evs
    where "trace w' = trace (tryThrottle r w) @ evs" "exchange t r 0 evs x" by auto
  then show thesis
    by (intro that [of evs x])
      (simp_all add: emitted_def Request_Do_def request_sent [OF assms] att tryThrottle_trace split: sum.split)
qed

lemma emitted_refused: "refused r \<Longrightarrow> calls_sent (emitted (Request_Do md t r) w) = []"
  using Do_refused [of r md t w] by (auto simp: emitted_def tryThrottle_trace)

lemma emitted_calls: "set (calls_sent (emitted (Request_Do md t r) w)) \<subseteq> {call_of r}"
proof (cases "refused r")
  case False
  then show ?thesis
    by (rule Do_events [of r md t w]) (auto dest: exchange_calls)
qed (simp add: emitted_refused)

text \<open>Operations that run a request and read its result leave its events.\<close>

lemma emitted_op:
  "emitted (do_into md t r) w = emitted (Request_Do md t r) w"
  "emitted (vmc_List md t c opts) w = emitted (Request_Do md t (vmc_List_request md c opts)) w"
  "emitted (vmc_Delete md t c n o1) w = emitted (Request_Do md t (vmc_Delete_request md c n o1)) w"
  "emitted (vmc_DeleteCollection md t c o1 opts) w =
     emitted (Request_Do md t (vmc_DeleteCollection_request md c o1 opts)) w"
  by (simp_all add: emitted_def do_into_def vmc_List_def vmc_Delete_def vmc_DeleteCollection_def split: prod.split)

lemmas op_defs = vmc_Get_def vmc_Create_def vmc_Update_def vmc_UpdateStatus_def vmc_Patch_def emitted_op

section \<open>Addresses\<close>

text \<open>Paths below the resource in a namespace.\<close>

definition api_segments :: "rest_client \<Rightarrow> string list" where
  "api_segments c = root_segments (cl_base c) @ [''apis'', GroupName, ''v1alpha1'']"

definition vm_path :: "rest_client \<Rightarrow> string \<Rightarrow> string list \<Rightarrow> string" where
  "vm_path c ns rest = rooted (api_segments c @ [''namespaces'', ns, ''virtualmachines''] @ rest)"

definition configured :: "rest_client \<Rightarrow> bool" where
  "configured c = (cl_versionedAPIPath c = DefaultVersionedAPIPath ''/apis'' SchemeGroupVersion \<and>
     cl_GroupVersion c = SchemeGroupVersion)"

lemma DefaultServerURL_api:
  "DefaultServerURL tools host apiPath gv tls = Inl (p, v) \<Longrightarrow> v = DefaultVersionedAPIPath apiPath gv"
  by (auto simp: DefaultServerURL_def split: prod.splits option.splits if_splits)

lemma NewRESTClient_api:
  "NewRESTClient tools p v config gv qps burst timeout = Inl c \<Longrightarrow> cl_versionedAPIPath c = v \<and> cl_GroupVersion c = gv"
  by (auto simp: NewRESTClient_def Let_def split: option.splits)

lemma RESTClientFor_api:
  assumes "RESTClientFor tools config = Inl c" "cfg_GroupVersion config = Some gv"
  shows "cl_versionedAPIPath c = DefaultVersionedAPIPath (cfg_APIPath config) gv \<and> cl_GroupVersion c = gv"
  using assms
  by (auto simp: RESTClientFor_def Let_def dest!: DefaultServerURL_api NewRESTClient_api
      split: sum.splits prod.splits option.splits if_splits)

lemma NewForConfig_configured:
  assumes "group_NewForConfig tools cfg = Inl g"
  shows "configured (restClient g)"
proof -
  obtain c where "RESTClientFor tools (setConfigDefaults tools cfg) = Inl c" "restClient g = c"
    using assms by (auto simp: group_NewForConfig_def split: sum.splits)
  moreover have "cfg_GroupVersion (setConfigDefaults tools cfg) = Some SchemeGroupVersion \<and>
      cfg_APIPath (setConfigDefaults tools cfg) = ''/apis''"
    by (simp add: setConfigDefaults_def Let_def)
  ultimately show ?thesis
    using RESTClientFor_api by (fastforce simp: configured_def)
qed

lemma DefaultVersionedAPIPath_ours:
  "DefaultVersionedAPIPath ''/apis'' SchemeGroupVersion = rooted [''apis'', GroupName, ''v1alpha1'']"
  by code_simp

lemma api_plain: "list_all plain [''apis'', GroupName, ''v1alpha1'']"
  by code_simp

lemma resource_plain: "plain ''virtualmachines'' \<and> plain ''namespaces''"
  by code_simp

lemma resource_valid: "IsValidPathSegmentName ''virtualmachines'' = [] \<and> ToLower ''virtualmachines'' = ''virtualmachines''"
  by code_simp

lemma api_segments_plain: "list_all plain (api_segments c)"
  using root_segments_plain [of "cl_base c"] api_plain by (simp add: api_segments_def)

lemma prefix_configured:
  assumes "configured c"
  shows "rq_pathPrefix (client_Verb verb c) = rooted (api_segments c)"
proof -
  have "rq_pathPrefix (client_Verb verb c) = path_Join [path_Join [''/'', cl_base c], cl_versionedAPIPath c]"
    by (simp add: client_Verb_def NewRequest_def Let_def SetHeader_def del: path_Join.simps)
  also have "\<dots> = path_Join [rooted (root_segments (cl_base c)), rooted [''apis'', GroupName, ''v1alpha1'']]"
    using assms by (simp only: Join_root configured_def DefaultVersionedAPIPath_ours)
  finally show ?thesis
    by (simp only: Join_rooted_rooted [OF root_segments_plain api_plain] api_segments_def)
qed

text \<open>The structural part of a request of the typed client.\<close>

definition about :: "rest_client \<Rightarrow> string \<Rightarrow> string \<Rightarrow> string \<Rightarrow> string \<Rightarrow> rest_request \<Rightarrow> bool" where
  "about c verb ns n sub r =
     (rq_verb r = verb \<and> rq_pathPrefix r = rq_pathPrefix (client_Verb verb c) \<and> rq_subpath r = [] \<and>
      rq_namespaceSet r \<and> rq_namespace r = ns \<and> rq_resource r = ''virtualmachines'' \<and>
      rq_resourceName r = n \<and> rq_subresource r = sub)"

lemma about_path:
  assumes "about c verb ns n (join_with ''/'' ss) r" "configured c"
    "valid_segment ns" "ns \<noteq> []" "plain n \<or> n = []" "list_all plain ss"
  shows "u_path (Request_URL r) = vm_path c ns ((if n = [] then [] else [n]) @ ss)"
proof -
  have ns: "list_all (\<lambda>q. plain q \<or> q = []) [''namespaces'', ns]"
    using resource_plain valid_plain [OF assms(3,4)] by simp
  have vms: "list_all (\<lambda>q. plain q \<or> q = []) [''virtualmachines'']"
    using resource_plain by simp
  let ?base = "api_segments c @ [''namespaces'', ns]"
  let ?ps = "?base @ [''virtualmachines'']"
  have base: "list_all plain ?base"
    using api_segments_plain [of c] resource_plain valid_plain [OF assms(3,4)] by simp
  have ps: "list_all plain ?ps" using base resource_plain by simp
  have p1: "path_Join [rooted (api_segments c), ''namespaces'', ns] = rooted ?base"
    using Join_rooted [OF api_segments_plain ns, of c] assms(4) by simp
  have p2: "path_Join [rooted ?base, ''virtualmachines''] = rooted ?ps"
    using Join_rooted [OF base vms] by simp
  have sub: "join_with ''/'' ss = [] \<longleftrightarrow> ss = []"
    using assms(6) by (cases ss) (simp_all add: join_with_tails plain_def del: join_with.simps(2,3))
  have "u_path (Request_URL r) =
      (if n \<noteq> [] \<or> ss \<noteq> [] then path_Join [rooted ?ps, n, join_with ''/'' ss, []] else rooted ?ps)"
    using assms(1,4) sub
    by (simp add: Request_URL_def Let_def about_def prefix_configured [OF assms(2)] p1 p2 resource_valid
        del: path_Join.simps)
  also have "\<dots> = rooted (?ps @ (if n = [] then [] else [n]) @ ss)"
  proof (cases "n \<noteq> [] \<or> ss \<noteq> []")
    case True
    then show ?thesis by (simp only: Join_below [OF ps assms(5,6)] if_True simp_thms)
  qed simp
  finally show ?thesis by (simp add: vm_path_def)
qed

lemma about_options [simp]:
  "about c verb ns n sub (Request_VersionedParams enc r) = about c verb ns n sub r"
  "about c verb ns n sub (Request_Body encode obj r) = about c verb ns n sub r"
  by (auto simp: about_def Request_VersionedParams_def Request_Body_def SetHeader_def
      split: option.split prod.split body_arg.split)

text \<open>The first steps of every operation, with valid and with invalid arguments.\<close>

abbreviation resource_of :: "string \<Rightarrow> rest_request \<Rightarrow> rest_request" where
  "resource_of ns r \<equiv> Request_Resource ''virtualmachines'' (Request_Namespace ns r)"

definition fresh :: "rest_client \<Rightarrow> string \<Rightarrow> rest_request \<Rightarrow> bool" where
  "fresh c verb r =
     (rq_err r = None \<and> \<not> rq_namespaceSet r \<and> rq_resource r = [] \<and> rq_resourceName r = [] \<and>
      rq_subresource r = [] \<and> rq_subpath r = [] \<and> rq_verb r = verb \<and> rq_namespace r = [] \<and>
      rq_pathPrefix r = rq_pathPrefix (client_Verb verb c))"

lemma fresh_Verb: "fresh c verb (client_Verb verb c)"
  by (simp add: fresh_def client_Verb_def NewRequest_def Let_def SetHeader_def)

lemma fresh_verbs [simp]:
  "fresh c ''GET'' (client_Get c)" "fresh c ''POST'' (client_Post c)" "fresh c ''PUT'' (client_Put c)"
  "fresh c ''DELETE'' (client_Delete c)" "fresh c ''PATCH'' (client_Patch pt c)"
  using fresh_Verb [of c]
  by (simp_all add: client_Get_def client_Post_def client_Put_def client_Delete_def client_Patch_def,
      simp add: fresh_def SetHeader_def)

lemma about_resource:
  "fresh c verb r \<Longrightarrow> valid_segment ns \<Longrightarrow> about c verb ns [] [] (resource_of ns r) \<and> rq_err (resource_of ns r) = None"
  by (simp add: fresh_def about_def Request_Resource_def Request_Namespace_def Let_def IsValidPathSegmentName_iff resource_valid)

lemma about_name:
  "about c verb ns [] sub r \<Longrightarrow> rq_err r = None \<Longrightarrow> valid_segment n \<Longrightarrow> n \<noteq> [] \<Longrightarrow>
   about c verb ns n sub (Request_Name n r) \<and> rq_err (Request_Name n r) = None"
  by (simp add: about_def Request_Name_def Let_def IsValidPathSegmentName_iff)

lemma about_sub:
  assumes "about c verb ns n [] r" "rq_err r = None" "list_all valid_segment ss"
  shows "about c verb ns n (path_Join ss) (Request_SubResource ss r) \<and> rq_err (Request_SubResource ss r) = None"
proof -
  have "invalid_subresource ss = None"
    using assms(3) by (induction ss) (simp_all add: Let_def IsValidPathSegmentName_iff)
  then show ?thesis
    using assms(1,2) by (simp add: about_def Request_SubResource_def Let_def)
qed

lemma status_valid: "list_all valid_segment [''status''] \<and> list_all plain [''status''] \<and> path_Join [''status''] = ''status''"
  by code_simp

section \<open>The operations\<close>

text \<open>What the requests of the operations are about when their arguments are valid names.\<close>

abbreviation client_in :: "group_client \<Rightarrow> string \<Rightarrow> virtualMachines" where
  "client_in g ns \<equiv> VirtualMachines g ns"

lemma client_in_sel [simp]: "vc_client (client_in g ns) = restClient g" "vc_ns (client_in g ns) = ns"
  by (simp_all add: VirtualMachines_def newVirtualMachines_def)

lemma about_item_requests:
  assumes "valid_segment ns" "valid_segment n" "n \<noteq> []"
  shows "about (restClient g) ''GET'' ns n [] (vmc_Get_request md (client_in g ns) n o1)"
    "vm_name vm = n \<Longrightarrow> about (restClient g) ''PUT'' ns n [] (vmc_Update_request md (client_in g ns) vm)"
    "vm_name vm = n \<Longrightarrow> about (restClient g) ''PUT'' ns n ''status'' (vmc_UpdateStatus_request md (client_in g ns) vm)"
    "about (restClient g) ''DELETE'' ns n [] (vmc_Delete_request md (client_in g ns) n o2)"
    "list_all valid_segment ss \<Longrightarrow>
       about (restClient g) ''PATCH'' ns n (path_Join ss) (vmc_Patch_request md (client_in g ns) n pt data ss)"
proof -
  have start: "about (restClient g) verb ns n [] (Request_Name n (resource_of ns r)) \<and>
      rq_err (Request_Name n (resource_of ns r)) = None" if "fresh (restClient g) verb r" for verb r
    using about_resource [OF that assms(1)] about_name assms by blast
  show "about (restClient g) ''GET'' ns n [] (vmc_Get_request md (client_in g ns) n o1)"
    using start by (simp add: vmc_Get_request_def)
  show "about (restClient g) ''DELETE'' ns n [] (vmc_Delete_request md (client_in g ns) n o2)"
    using start by (simp add: vmc_Delete_request_def)
  show "about (restClient g) ''PUT'' ns n [] (vmc_Update_request md (client_in g ns) vm)" if "vm_name vm = n"
    using start that by (simp add: vmc_Update_request_def)
  show "about (restClient g) ''PUT'' ns n ''status'' (vmc_UpdateStatus_request md (client_in g ns) vm)"
    if "vm_name vm = n"
    using about_sub [of "restClient g" "''PUT''" ns n _ "[''status'']"] start [of "''PUT''"] status_valid that
    by (simp add: vmc_UpdateStatus_request_def)
  show "about (restClient g) ''PATCH'' ns n (path_Join ss) (vmc_Patch_request md (client_in g ns) n pt data ss)"
    if "list_all valid_segment ss"
  proof -
    have "about (restClient g) ''PATCH'' ns [] [] (resource_of ns (client_Patch pt (restClient g))) \<and>
        rq_err (resource_of ns (client_Patch pt (restClient g))) = None"
      by (rule about_resource [OF _ assms(1)]) simp
    with about_sub [OF _ _ that] have "about (restClient g) ''PATCH'' ns [] (path_Join ss)
          (Request_SubResource ss (resource_of ns (client_Patch pt (restClient g)))) \<and>
        rq_err (Request_SubResource ss (resource_of ns (client_Patch pt (restClient g)))) = None" by blast
    with about_name assms(2,3) show ?thesis by (simp add: vmc_Patch_request_def)
  qed
qed

lemma about_collection_requests:
  assumes "valid_segment ns"
  shows "about (restClient g) ''GET'' ns [] [] (vmc_List_request md (client_in g ns) opts)"
    "about (restClient g) ''POST'' ns [] [] (vmc_Create_request md (client_in g ns) vm)"
    "about (restClient g) ''DELETE'' ns [] [] (vmc_DeleteCollection_request md (client_in g ns) o2 opts)"
  using about_resource assms
  by (simp_all add: vmc_List_request_def vmc_Create_request_def vmc_DeleteCollection_request_def)

definition addressed :: "string \<Rightarrow> string \<Rightarrow> wire_event list \<Rightarrow> bool" where
  "addressed verb path evs = list_all (\<lambda>c. hc_verb c = verb \<and> u_path (hc_url c) = path) (calls_sent evs)"

lemma addressed_Do:
  assumes "about c verb ns n (join_with ''/'' ss) r" "configured c"
    "valid_segment ns" "ns \<noteq> []" "plain n \<or> n = []" "list_all plain ss"
  shows "addressed verb (vm_path c ns ((if n = [] then [] else [n]) @ ss)) (emitted (Request_Do md t r) w)"
proof -
  have "hc_verb (call_of r) = verb"
    using assms(1) by (simp add: call_of_def about_def)
  moreover have "u_path (hc_url (call_of r)) = vm_path c ns ((if n = [] then [] else [n]) @ ss)"
    using about_path [OF assms] by (simp add: call_of_def)
  ultimately show ?thesis
    using emitted_calls [of md t r w] by (auto simp: addressed_def list_all_iff)
qed

lemma item_addressed:
  assumes "configured c" "valid_segment ns" "ns \<noteq> []" "valid_segment n" "n \<noteq> []"
  shows "about c verb ns n [] r \<Longrightarrow> addressed verb (vm_path c ns [n]) (emitted (Request_Do md t r) w)"
    "about c verb ns n ''status'' r \<Longrightarrow> addressed verb (vm_path c ns [n, ''status'']) (emitted (Request_Do md t r) w)"
  using addressed_Do [OF _ assms(1-3) disjI1 [OF valid_plain [OF assms(4,5)]], of verb "[]"]
    addressed_Do [OF _ assms(1-3) disjI1 [OF valid_plain [OF assms(4,5)]], of verb "[''status'']"] assms(5) status_valid
  by simp_all


section \<open>Refused requests\<close>

lemma err_steps:
  assumes "rq_err r \<noteq> None"
  shows "Request_Resource x r = r" "Request_SubResource ss r = r" "Request_Name x r = r"
    "Request_VersionedParams enc r = r" "Request_Body encode obj r = r"
  using assms by (simp_all add: Request_Resource_def Request_SubResource_def Request_Name_def
      Request_VersionedParams_def Request_Body_def)

lemma err_namespace: "rq_err r = None \<Longrightarrow> \<not> valid_segment ns \<Longrightarrow> rq_err (Request_Namespace ns r) \<noteq> None"
  using IsValidPathSegmentName_iff [of ns] by (simp add: Request_Namespace_def failed_def Let_def)

lemma err_name:
  assumes "\<not> valid_segment n \<or> n = []"
  shows "rq_err (Request_Name n r) \<noteq> None"
proof (cases "rq_err r = None")
  case True
  then show ?thesis
    using assms IsValidPathSegmentName_iff [of n] by (auto simp: Request_Name_def failed_def Let_def)
next
  case False
  then show ?thesis by (simp add: err_steps)
qed

lemma fresh_err: "fresh c verb r \<Longrightarrow> rq_err r = None"
  by (simp add: fresh_def)

lemma item_err:
  assumes "\<not> valid_segment ns \<or> \<not> valid_segment n \<or> n = []" "rq_err r = None"
  shows "rq_err (Request_Name n (resource_of ns r)) \<noteq> None"
proof (cases "valid_segment ns")
  case True
  with assms show ?thesis by (intro err_name) simp
next
  case False
  with err_namespace [OF assms(2)] have "rq_err (Request_Namespace ns r) \<noteq> None" by simp
  then show ?thesis by (simp add: err_steps)
qed

lemma about_refused:
  "about c verb [] n sub r \<Longrightarrow> n \<noteq> [] \<Longrightarrow> verb \<in> {''GET'', ''PUT'', ''DELETE''} \<Longrightarrow> refused r"
  by (simp add: about_def refused_def)

lemma item_requests_refused:
  assumes "\<not> valid_segment ns \<or> ns = [] \<or> \<not> valid_segment n \<or> n = []" "vm_name vm = n"
  shows "refused (vmc_Get_request md (client_in g ns) n o1)"
    "refused (vmc_Update_request md (client_in g ns) vm)"
    "refused (vmc_UpdateStatus_request md (client_in g ns) vm)"
    "refused (vmc_Delete_request md (client_in g ns) n o2)"
proof -
  have "refused (vmc_Get_request md (client_in g ns) n o1) \<and> refused (vmc_Update_request md (client_in g ns) vm) \<and>
    refused (vmc_UpdateStatus_request md (client_in g ns) vm) \<and> refused (vmc_Delete_request md (client_in g ns) n o2)"
  proof (cases "valid_segment ns \<and> valid_segment n \<and> n \<noteq> []")
    case True
    then have "valid_segment []" "ns = []" using assms(1) by auto
    note ab = about_item_requests [OF this(1) True [THEN conjunct2, THEN conjunct1] True [THEN conjunct2, THEN conjunct2]]
    show ?thesis
      using True about_refused ab(1,4) ab(2,3) [OF assms(2)] \<open>ns = []\<close> by blast
  next
    case False
    then have "rq_err (Request_Name n (resource_of ns r)) \<noteq> None" if "rq_err r = None" for r
      using item_err that by blast
    then have name: "rq_err (Request_Name n (resource_of ns r)) \<noteq> None" if "fresh c verb r" for c verb r
      using that fresh_err by blast
    show ?thesis
      using assms(2) name [OF fresh_verbs(1)] name [OF fresh_verbs(3)] name [OF fresh_verbs(4)]
      by (simp add: refused_def vmc_Get_request_def vmc_Update_request_def vmc_UpdateStatus_request_def
          vmc_Delete_request_def err_steps)
  qed
  then show "refused (vmc_Get_request md (client_in g ns) n o1)" "refused (vmc_Update_request md (client_in g ns) vm)"
    "refused (vmc_UpdateStatus_request md (client_in g ns) vm)" "refused (vmc_Delete_request md (client_in g ns) n o2)"
    by simp_all
qed

lemma Into_error_result [simp]:
  "Result_Into md dec obj (error_result err u) = (obj, Some err)"
  "Result_Error md (error_result err u) = Some err"
  by (cases u; simp add: Result_Into_def Result_Error_def error_result_def)+

lemma do_into_refused: "refused r \<Longrightarrow> \<exists>err. do_into md t r w = ((empty_vm, Some err), tryThrottle r w)"
  using Do_refused [of r md t w] by (auto simp: do_into_def)


text \<open>
  Different objects have different addresses: from the path of a request of a client the
  namespace, the name and the subresource can be read back.
\<close>

theorem object_addresses_distinct:
  assumes "list_all plain [ns, n]" "list_all plain [ns', n']" "list_all plain sub" "list_all plain sub'"
  shows "vm_path c ns (n # sub) = vm_path c ns' (n' # sub') \<longleftrightarrow> ns = ns' \<and> n = n' \<and> sub = sub'"
proof
  assume eq: "vm_path c ns (n # sub) = vm_path c ns' (n' # sub')"
  have "list_all plain (api_segments c @ [''namespaces'', a, ''virtualmachines''] @ b # s)"
    if "list_all plain [a, b]" "list_all plain s" for a b s
    using api_segments_plain resource_plain that by simp
  from rooted_inj [OF this [OF assms(1,3)] this [OF assms(2,4)]] eq
  show "ns = ns' \<and> n = n' \<and> sub = sub'" by (simp add: vm_path_def)
qed simp

text \<open>
  C13. A request is sent at most ten times, always as the same call, and only repeated after an
  answer that asks for it, or a reset connection when it reads; each time a token of the rate
  limiter is taken, if there is one.
\<close>

theorem request_repeats_bounded:
  "length (calls_sent (emitted (Request_Do md t r) w)) \<le> 10 \<and>
   set (calls_sent (emitted (Request_Do md t r) w)) \<subseteq> {call_of r} \<and>
   list_all (asks_again t r) (butlast (answers (emitted (Request_Do md t r) w))) \<and>
   (if rq_throttled r then length (calls_sent (emitted (Request_Do md t r) w)) \<le> tokens (emitted (Request_Do md t r) w)
    else tokens (emitted (Request_Do md t r) w) = 0)"
proof (cases "refused r")
  case True
  then show ?thesis
    using Do_refused [OF True, of md t w] emitted_refused [OF True, of md t w] length_calls_sent [of "emitted (Request_Do md t r) w"]
    by (auto simp: emitted_def tryThrottle_trace)
next
  case False
  then obtain evs x where em: "emitted (Request_Do md t r) w = (if rq_throttled r then [Accepted] else []) @ evs"
      "exchange t r 0 evs x"
    by (rule Do_events)
  have "tokens evs = 0" if "\<not> rq_throttled r"
    using exchange_no_tokens [OF em(2) that] .
  then show ?thesis
    using em exchange_calls [OF em(2)] exchange_bounded [OF em(2)] exchange_repeats [OF em(2)] exchange_tokens [OF em(2)]
    by (auto simp: length_calls_sent request_maxRetries_def)
qed

section \<open>Witnesses\<close>



theorem object_addresses_distinct_witness:
  "vm_path sample_rest_client ''ci'' [''vm''] \<noteq> vm_path sample_rest_client ''ci'' [''vm'', ''status'']"
proof -
  have "list_all plain [''ci'', ''vm'']" "list_all plain []" "list_all plain [''status'']" by code_simp+
  then show ?thesis
    using object_addresses_distinct [of "''ci''" "''vm''" "''ci''" "''vm''" "[]" "[''status'']" sample_rest_client] by simp
qed

end
