(* ===== verification/World_Invariants.thy ===== *)
theory World_Invariants
  imports Effects
begin

text \<open>
  Invariants of the services during a pass. \<open>world_invariant\<close> is the interface between a property
  of the world (its hidden state and the history) and the reconciler: whoever shows that every
  single call keeps the property gets that a whole pass keeps it.
\<close>

section \<open>Code that keeps an invariant\<close>

definition kept :: "('e \<Rightarrow> call list \<Rightarrow> bool) \<Rightarrow> 'e world \<Rightarrow> bool" where
  "kept J w = J (ext w) (hist w)"

definition keeps :: "('e \<Rightarrow> call list \<Rightarrow> bool) \<Rightarrow> ('e world, 'a) go \<Rightarrow> bool" where
  "keeps J m = (\<forall>w. kept J w \<longrightarrow> kept J (snd (m w)))"

named_theorems keeps_intros \<open>code that keeps an invariant\<close>

lemma keeps_ret [keeps_intros]: "keeps J (ret x)"
  by (simp add: keeps_def ret_def)

lemma keeps_panic [keeps_intros]: "keeps J (panic m)"
  by (simp add: keeps_def panic_def)

lemma keeps_lift [keeps_intros]: "keeps J (lift_panicky r)"
  by (simp add: keeps_def lift_panicky_def)

lemma keeps_andthen [keeps_intros]: "keeps J m \<Longrightarrow> (\<And>x. keeps J (f x)) \<Longrightarrow> keeps J (andthen m f)"
  unfolding keeps_def andthen_def by (auto split: prod.splits panicky.splits; metis snd_conv)

lemma keeps_if [keeps_intros]: "(b \<Longrightarrow> keeps J m) \<Longrightarrow> (\<not> b \<Longrightarrow> keeps J m') \<Longrightarrow> keeps J (if b then m else m')"
  by simp

lemma keeps_option [keeps_intros]:
  "(x = None \<Longrightarrow> keeps J m) \<Longrightarrow> (\<And>y. x = Some y \<Longrightarrow> keeps J (f y)) \<Longrightarrow> keeps J (case x of None \<Rightarrow> m | Some y \<Rightarrow> f y)"
  by (cases x) auto

lemma keeps_prod [keeps_intros]: "(\<And>a b. x = (a, b) \<Longrightarrow> keeps J (f a b)) \<Longrightarrow> keeps J (case x of (a, b) \<Rightarrow> f a b)"
  by (cases x) auto

lemma keeps_call_ext:
  assumes "\<And>e cs r e'. J e cs \<Longrightarrow> f e = (r, e') \<Longrightarrow> J e' (cs @ [ev r])"
  shows "keeps J (call_ext env f ev)"
  using assms by (auto simp: keeps_def kept_def call_ext_def split: prod.split)

lemma keepsD: "keeps J m \<Longrightarrow> m w = (r, w') \<Longrightarrow> kept J w \<Longrightarrow> kept J w'"
  unfolding keeps_def by (metis snd_conv)

section \<open>The interface\<close>

locale world_invariant =
  fixes env :: "'e env" and J :: "'e \<Rightarrow> call list \<Rightarrow> bool"
  assumes InstancesDelete: "keeps J (gce_InstancesDelete env p z n)"
    and InstancesGet: "keeps J (gce_InstancesGet env p z n)"
    and InstancesInsert: "keeps J (gce_InstancesInsert env p z inst)"
    and SetMetadata: "keeps J (gce_SetMetadata env p z n md)"
    and ZoneOperationsGet: "keeps J (gce_ZoneOperationsGet env p z n)"
    and VMGet: "keeps J (vms_Get env ns n)"
    and VMUpdate: "keeps J (vms_Update env ns vm)"
    and VMUpdateStatus: "keeps J (vms_UpdateStatus env ns vm)"
    and SecretGet: "keeps J (secrets_Get env ns n)"
    and SecretCreate: "keeps J (secrets_Create env ns s)"
    and GenerateKey: "keeps J (rsa_GenerateKey env bits)"
    and Dial: "keeps J (net_DialTimeout env nw a timeout)"
    and Conn: "keeps J (ssh_NewClientConn env c a u signer)"
    and Close: "keeps J (ssh_Close env c)"
    and Sleep: "keeps J (time_Sleep env d)"
begin

lemmas calls_keep = InstancesDelete InstancesGet InstancesInsert SetMetadata ZoneOperationsGet VMGet
  VMUpdate VMUpdateStatus SecretGet SecretCreate GenerateKey Dial Conn Close Sleep

lemma select_keeps: "select_timeout env d w = (b, w') \<Longrightarrow> kept J w \<Longrightarrow> kept J w'"
  by (auto simp: select_timeout_def kept_def Let_def split: if_splits)


lemma wait_loop_keeps: "kept J w \<Longrightarrow> kept J (snd (wait_loop env cfg start deadline op err w))"
proof (induction "nat (deadline - clock w)" arbitrary: op err w rule: less_induct)
  case less
  show ?case
  proof (cases "checkOp op err")
    case (Panics m)
    then show ?thesis using less(2) by (simp add: wait_loop.simps [of env])
  next
    case (Returns res)
    show ?thesis
    proof (cases "res = None \<and> (\<exists>o'. op = Some o' \<and> op_Status o' \<noteq> ''DONE'')")
      case False
      then show ?thesis
        using less(2) Returns by (cases res; cases op) (simp_all add: wait_loop.simps [of env])
    next
      case True
      then obtain o' where op: "res = None" "op = Some o'" "op_Status o' \<noteq> ''DONE''" by blast
      obtain late w1 where sel: "select_timeout env deadline w = (late, w1)" by fastforce
      then have w1: "kept J w1" using select_keeps less(2) by blast
      show ?thesis
      proof (cases late)
        case True
        with w1 sel op Returns show ?thesis by (simp add: wait_loop.simps [of env])
      next
        case late: False
        obtain op' err' w2 where get: "gce_ZoneOperationsGet env (Project cfg) (path_base (op_Zone o')) (op_Name o') w1 =
            (Returns (op', err'), w2)"
          by (rule gce_ZoneOperationsGet_returns)
        have "kept J w2" by (rule keepsD [OF ZoneOperationsGet get w1])
        moreover have "nat (deadline - clock w2) < nat (deadline - clock w)"
          using wait_turn_clock [OF _ get [symmetric], of deadline w] sel late by simp
        ultimately show ?thesis
          using less(1) sel late get op Returns by (simp add: wait_loop.simps [of env])
      qed
    qed
  qed
qed

lemma waitForOperation_keeps: "keeps J (waitForOperation env cfg op)"
  by (cases op) (auto simp: waitForOperation_def keeps_def panic_def wait_loop_keeps)

lemma poll_loop_keeps: "keeps J (poll_loop env cfg h u s i)"
proof (induction "nat (sint (Retries cfg) - sint i)" arbitrary: i rule: less_induct)
  case less
  show ?case
    by (subst poll_loop.simps)
      (intro keeps_intros calls_keep less, simp add: sint_plus1_int64)
qed

lemma poll_keeps: "keeps J (pollForSSHConnection env cfg h u pem)"
  unfolding pollForSSHConnection_def by (intro keeps_intros poll_loop_keeps)

lemma keypair_keeps: "keeps J (newSSHKeypair env)"
  unfolding newSSHKeypair_def by (intro keeps_intros calls_keep)

lemma handleError_keeps: "keeps J (handleError env vm err)"
  unfolding handleError_eq by (rule VMUpdateStatus)

lemma run_keeps: "(\<And>k. keeps J (action k)) \<Longrightarrow> keeps J (runVMOpPollSSH env cfg vm action)"
  unfolding runVMOpPollSSH_def locate_and_publish_def
  by (intro keeps_intros calls_keep keypair_keeps waitForOperation_keeps handleError_keeps poll_keeps)

lemma ensureVM_keeps: "keeps J (ensureVM env cfg vm)"
  unfolding ensureVM_def createNewVM_def refreshSSHKey_def
  by (intro keeps_intros calls_keep run_keeps)

lemma deleteVM_keeps: "keeps J (deleteVM env cfg vm)"
  unfolding deleteVM_def by (intro keeps_intros calls_keep waitForOperation_keeps handleError_keeps)

lemma reconcile_keeps: "keeps J (reconcile env cfg key)"
  unfolding reconcile_def by (intro keeps_intros calls_keep deleteVM_keeps ensureVM_keeps)

end

text \<open>The trivial invariant, for the cases in which a conditional one promises nothing.\<close>

lemma world_invariant_True: "world_invariant env (\<lambda>_ _. True)"
  by unfold_locales (simp_all add: keeps_def kept_def)

end
