(* ===== verification/Client_Passes.thy ===== *)
theory Client_Passes
  imports Client_Requests World_Invariants
begin

text \<open>
  The reconciler over the typed client. \<open>over_rest\<close> answers the reconciler's reads and updates of
  virtual machines by requests to the API server, as \<open>pkg/controller\<close> does with the client of the
  generated client set. The other services of the world do not use this connection (\<open>elsewhere\<close>).
\<close>

definition over_rest ::
    "'d vm_codec \<Rightarrow> 'p transport \<Rightarrow> group_client \<Rightarrow> 'p wire env \<Rightarrow> 'p wire env" where
  "over_rest md t g env = env\<lparr>
     VMGet := (\<lambda>ns n w. vmc_Get md t (client_in g ns) n no_get_options w),
     VMUpdate := (\<lambda>ns vm w. case vmc_Update md t (client_in g ns) vm w of ((_, err), w') \<Rightarrow> (err, w')),
     VMUpdateStatus := (\<lambda>ns vm w. case vmc_UpdateStatus md t (client_in g ns) vm w of ((_, err), w') \<Rightarrow> (err, w'))\<rparr>"

definition elsewhere :: "'p wire env \<Rightarrow> bool" where
  "elsewhere env =
     ((\<forall>p z n e. trace (snd (InstancesDelete env p z n e)) = trace e) \<and>
      (\<forall>p z n e. trace (snd (InstancesGet env p z n e)) = trace e) \<and>
      (\<forall>p z i e. trace (snd (InstancesInsert env p z i e)) = trace e) \<and>
      (\<forall>p z n m e. trace (snd (SetMetadata env p z n m e)) = trace e) \<and>
      (\<forall>p z n e. trace (snd (ZoneOperationsGet env p z n e)) = trace e) \<and>
      (\<forall>ns n e. trace (snd (SecretGet env ns n e)) = trace e) \<and>
      (\<forall>ns s e. trace (snd (SecretCreate env ns s e)) = trace e) \<and>
      (\<forall>b e. trace (snd (GenerateKey env b e)) = trace e) \<and>
      (\<forall>nw a d e. trace (snd (DialTimeout env nw a d e)) = trace e) \<and>
      (\<forall>c a u s e. trace (snd (NewClientConn env c a u s e)) = trace e) \<and>
      (\<forall>c e. trace (snd (CloseConn env c e)) = trace e))"

section \<open>Requests are accounted for by the calls of the pass\<close>

text \<open>The call of the pass that stands behind a request.\<close>

fun accounts_for :: "group_client \<Rightarrow> call \<Rightarrow> http_call \<Rightarrow> bool" where
  "accounts_for g (CVMGet ns n vm err) c =
     (hc_verb c = ''GET'' \<and> u_path (hc_url c) = vm_path (restClient g) ns [n])"
| "accounts_for g (CVMUpdate ns vm err) c =
     (hc_verb c = ''PUT'' \<and> u_path (hc_url c) = vm_path (restClient g) ns [vm_name vm])"
| "accounts_for g (CVMUpdateStatus ns vm err) c =
     (hc_verb c = ''PUT'' \<and> u_path (hc_url c) = vm_path (restClient g) ns [vm_name vm, ''status''])"
| "accounts_for g _ c = False"

definition accounted :: "group_client \<Rightarrow> wire_event list \<Rightarrow> call list \<Rightarrow> 'p wire \<Rightarrow> call list \<Rightarrow> bool" where
  "accounted g tr0 hs0 e hs =
     (\<exists>evs cs. trace e = tr0 @ evs \<and> hs = hs0 @ cs \<and>
        list_all (\<lambda>c. list_ex (\<lambda>h. accounts_for g h c) cs) (calls_sent evs))"

lemma accounted_step:
  assumes "accounted g tr0 hs0 e hs" "trace e' = trace e @ evs" "list_all (accounts_for g h) (calls_sent evs)"
  shows "accounted g tr0 hs0 e' (hs @ [h])"
proof -
  from assms(1) obtain evs0 cs0 where "trace e = tr0 @ evs0" "hs = hs0 @ cs0"
      "list_all (\<lambda>c. list_ex (\<lambda>h. accounts_for g h c) cs0) (calls_sent evs0)"
    by (auto simp: accounted_def)
  with assms(2,3) show ?thesis
    unfolding accounted_def
    by (intro exI [of _ "evs0 @ evs"] exI [of _ "cs0 @ [h]"]) (auto simp: list_all_iff list_ex_iff)
qed

lemma accounted_elsewhere: "accounted g tr0 hs0 e hs \<Longrightarrow> trace e' = trace e \<Longrightarrow> accounted g tr0 hs0 e' (hs @ [h])"
  using accounted_step [of g tr0 hs0 e hs e' "[]"] by simp

text \<open>The operations, with valid and with invalid names.\<close>

lemma trace_emitted:
  assumes "\<exists>evs. trace (snd (m w)) = trace w @ evs"
  shows "trace (snd (m w)) = trace w @ emitted m w"
  using assms by (auto simp: emitted_def)

lemma Do_extends: "\<exists>evs. trace (snd (Request_Do md t r w)) = trace w @ evs"
proof (cases "refused r")
  case True
  from Do_refused [OF this, of md t w] show ?thesis by (auto simp: tryThrottle_trace)
next
  case False
  obtain evs where "trace (snd (attempt t r 0 (tryThrottle r w))) = trace (tryThrottle r w) @ evs"
    using attempt_exchange by blast
  then show ?thesis
    by (auto simp: Request_Do_def request_sent [OF False] tryThrottle_trace split: prod.split sum.split)
qed

lemma do_into_trace: "trace (snd (do_into md t r w)) = trace w @ emitted (do_into md t r) w"
proof (rule trace_emitted)
  show "\<exists>evs. trace (snd (do_into md t r w)) = trace w @ evs"
    using Do_extends [of md t r w] by (auto simp: do_into_def split: prod.split)
qed

lemma op_traces:
  "trace (snd (vmc_Get md t c n o1 w)) = trace w @ emitted (vmc_Get md t c n o1) w"
  "trace (snd (vmc_Update md t c vm w)) = trace w @ emitted (vmc_Update md t c vm) w"
  "trace (snd (vmc_UpdateStatus md t c vm w)) = trace w @ emitted (vmc_UpdateStatus md t c vm) w"
  by (simp_all add: vmc_Get_def vmc_Update_def vmc_UpdateStatus_def do_into_trace)

lemma item_ops_addressed:
  assumes "configured (restClient g)" "vm_name vm = n"
  shows "addressed ''GET'' (vm_path (restClient g) ns [n]) (emitted (vmc_Get md t (client_in g ns) n o1) w)"
    "addressed ''PUT'' (vm_path (restClient g) ns [n]) (emitted (vmc_Update md t (client_in g ns) vm) w)"
    "addressed ''PUT'' (vm_path (restClient g) ns [n, ''status'']) (emitted (vmc_UpdateStatus md t (client_in g ns) vm) w)"
proof -
  have "addressed ''GET'' (vm_path (restClient g) ns [n]) (emitted (vmc_Get md t (client_in g ns) n o1) w) \<and>
    addressed ''PUT'' (vm_path (restClient g) ns [n]) (emitted (vmc_Update md t (client_in g ns) vm) w) \<and>
    addressed ''PUT'' (vm_path (restClient g) ns [n, ''status'']) (emitted (vmc_UpdateStatus md t (client_in g ns) vm) w)"
  proof (cases "valid_segment ns \<and> ns \<noteq> [] \<and> valid_segment n \<and> n \<noteq> []")
    case True
    then have v: "valid_segment ns" "ns \<noteq> []" "valid_segment n" "n \<noteq> []" by simp_all
    show ?thesis
      unfolding op_defs
      by (intro conjI item_addressed [OF assms(1) v] about_item_requests [OF v(1,3,4)] assms(2))
  next
    case False
    then have "calls_sent (emitted (Request_Do md t (vmc_Get_request md (client_in g ns) n o1)) w) = []"
        "calls_sent (emitted (Request_Do md t (vmc_Update_request md (client_in g ns) vm)) w) = []"
        "calls_sent (emitted (Request_Do md t (vmc_UpdateStatus_request md (client_in g ns) vm)) w) = []"
      using item_requests_refused [of ns n vm] assms(2) by (blast intro: emitted_refused)+
    then show ?thesis unfolding op_defs by (simp add: addressed_def)
  qed
  then show "addressed ''GET'' (vm_path (restClient g) ns [n]) (emitted (vmc_Get md t (client_in g ns) n o1) w)"
    "addressed ''PUT'' (vm_path (restClient g) ns [n]) (emitted (vmc_Update md t (client_in g ns) vm) w)"
    "addressed ''PUT'' (vm_path (restClient g) ns [n, ''status'']) (emitted (vmc_UpdateStatus md t (client_in g ns) vm) w)"
    by simp_all
qed

section \<open>A pass over the client\<close>

lemma keeps_elsewhere:
  assumes "\<And>e. trace (snd (f e)) = trace e"
  shows "keeps (accounted g tr0 hs0) (call_ext env f ev)"
  by (rule keeps_call_ext) (metis accounted_elsewhere assms snd_conv)

lemma keeps_accounted:
  assumes "\<And>e. trace (snd (f e)) = trace e @ emitted f e"
    "\<And>e r e'. f e = (r, e') \<Longrightarrow> list_all (accounts_for g (ev r)) (calls_sent (emitted f e))"
  shows "keeps (accounted g tr0 hs0) (call_ext env f ev)"
  by (rule keeps_call_ext) (metis accounted_step assms snd_conv)

lemma over_rest_sel [simp]:
  "VMGet (over_rest md t g env) ns n = vmc_Get md t (client_in g ns) n no_get_options"
  "VMUpdate (over_rest md t g env) ns vm =
     (\<lambda>w. case vmc_Update md t (client_in g ns) vm w of ((_, err), w') \<Rightarrow> (err, w'))"
  "VMUpdateStatus (over_rest md t g env) ns vm =
     (\<lambda>w. case vmc_UpdateStatus md t (client_in g ns) vm w of ((_, err), w') \<Rightarrow> (err, w'))"
  "InstancesDelete (over_rest md t g env) = InstancesDelete env"
  "InstancesGet (over_rest md t g env) = InstancesGet env"
  "InstancesInsert (over_rest md t g env) = InstancesInsert env"
  "SetMetadata (over_rest md t g env) = SetMetadata env"
  "ZoneOperationsGet (over_rest md t g env) = ZoneOperationsGet env"
  "SecretGet (over_rest md t g env) = SecretGet env"
  "SecretCreate (over_rest md t g env) = SecretCreate env"
  "GenerateKey (over_rest md t g env) = GenerateKey env"
  "DialTimeout (over_rest md t g env) = DialTimeout env"
  "NewClientConn (over_rest md t g env) = NewClientConn env"
  "CloseConn (over_rest md t g env) = CloseConn env"
  "lag (over_rest md t g env) = lag env"
  by (simp_all add: over_rest_def fun_eq_iff)

lemma emitted_snd:
  "emitted (\<lambda>w. case m w of ((_, err), w') \<Rightarrow> (err, w')) w = emitted m w"
  "snd ((\<lambda>w. case m w of ((_, err), w') \<Rightarrow> (err, w')) w) = snd (m w)"
  by (simp_all add: emitted_def split: prod.split)

lemma keeps_vms:
  assumes "configured (restClient g)"
  shows "keeps (accounted g tr0 hs0) (vms_Get (over_rest md t g env) ns n)"
    "keeps (accounted g tr0 hs0) (vms_Update (over_rest md t g env) ns vm)"
    "keeps (accounted g tr0 hs0) (vms_UpdateStatus (over_rest md t g env) ns vm)"
proof -
  have named: "vm_name (empty_vm\<lparr>metadata := (metadata empty_vm)\<lparr>om_name := n\<rparr>\<rparr>) = n" by simp
  note get = item_ops_addressed(1) [OF assms named]
  show "keeps (accounted g tr0 hs0) (vms_Get (over_rest md t g env) ns n)"
    unfolding vms_Get_def over_rest_sel
    using get by (intro keeps_accounted op_traces) (simp add: addressed_def list_all_iff split: prod.split)
  show "keeps (accounted g tr0 hs0) (vms_Update (over_rest md t g env) ns vm)"
    unfolding vms_Update_def over_rest_sel
    using item_ops_addressed(2) [OF assms refl] op_traces(2)
    by (intro keeps_accounted) (simp_all add: emitted_snd addressed_def list_all_iff)
  show "keeps (accounted g tr0 hs0) (vms_UpdateStatus (over_rest md t g env) ns vm)"
    unfolding vms_UpdateStatus_def over_rest_sel
    using item_ops_addressed(3) [OF assms refl] op_traces(3)
    by (intro keeps_accounted) (simp_all add: emitted_snd addressed_def list_all_iff)
qed

lemma over_rest_invariant:
  assumes "elsewhere env" "configured (restClient g)"
  shows "world_invariant (over_rest md t g env) (accounted g tr0 hs0)"
proof
  show "keeps (accounted g tr0 hs0) (time_Sleep (over_rest md t g env) d)" for d
    by (auto simp: keeps_def kept_def time_Sleep_def intro: accounted_elsewhere)
  show "keeps (accounted g tr0 hs0) (vms_Get (over_rest md t g env) ns n)"
    "keeps (accounted g tr0 hs0) (vms_Update (over_rest md t g env) ns vm)"
    "keeps (accounted g tr0 hs0) (vms_UpdateStatus (over_rest md t g env) ns vm)" for ns n vm
    by (rule keeps_vms [OF assms(2)])+
qed (use assms(1) in \<open>auto simp: elsewhere_def client_defs intro!: keeps_elsewhere\<close>)

definition requests_accounted ::
    "'p wire env \<Rightarrow> group_client \<Rightarrow> wire_event list \<Rightarrow> call list \<Rightarrow> 'p wire \<Rightarrow> call list \<Rightarrow> bool" where
  "requests_accounted env g tr0 hs0 e hs =
     (elsewhere env \<and> configured (restClient g) \<longrightarrow> accounted g tr0 hs0 e hs)"

interpretation own_requests: world_invariant "over_rest md t g env" "requests_accounted env g tr0 hs0"
  for md t g env tr0 hs0
proof (cases "elsewhere env \<and> configured (restClient g)")
  case True
  then have "requests_accounted env g tr0 hs0 = accounted g tr0 hs0"
    by (simp add: fun_eq_iff requests_accounted_def)
  with True over_rest_invariant [of env g md t tr0 hs0]
  show "world_invariant (over_rest md t g env) (requests_accounted env g tr0 hs0)" by simp
next
  case False
  then have "requests_accounted env g tr0 hs0 = (\<lambda>_ _. True)"
    by (auto simp: fun_eq_iff requests_accounted_def)
  with world_invariant_True [of "over_rest md t g env"]
  show "world_invariant (over_rest md t g env) (requests_accounted env g tr0 hs0)" by simp
qed

definition own_request :: "group_client \<Rightarrow> string \<Rightarrow> call list \<Rightarrow> http_call \<Rightarrow> bool" where
  "own_request g key cs c =
     (\<exists>ns n. SplitMetaNamespaceKey key = (ns, n, None) \<and>
       (hc_verb c = ''GET'' \<and> u_path (hc_url c) = vm_path (restClient g) ns [n] \<or>
        (\<exists>vm rest. cs = CVMGet ns n vm None # rest \<and> hc_verb c = ''PUT'' \<and>
          (u_path (hc_url c) = vm_path (restClient g) ns [vm_name vm] \<or>
           u_path (hc_url c) = vm_path (restClient g) (vm_namespace vm) [vm_name vm, ''status'']))))"

lemma accounted_own:
  assumes "reconcile_run env cfg key cs r" "h \<in> set cs" "accounts_for g h c"
  shows "own_request g key cs c"
proof (cases h)
  case (CVMGet ns n vm err)
  with assms pass_reads [of env cfg key cs r ns n vm err] show ?thesis by (simp add: own_request_def)
next
  case (CVMUpdate ns v err)
  then have "h \<in> set (effects cs)" using assms(2) by (simp add: set_effects)
  then obtain ns' n vm rest where "cs = CVMGet ns' n vm None # rest"
      "SplitMetaNamespaceKey key = (ns', n, None)" "concerns cfg ns' vm h"
    using reconcile_run_concerns [OF assms(1)] by blast
  with CVMUpdate assms(3) show ?thesis by (simp add: own_request_def drop_finalizer_rest)
next
  case (CVMUpdateStatus ns v err)
  then have "h \<in> set (effects cs)" using assms(2) by (simp add: set_effects)
  then obtain ns' n vm rest where "cs = CVMGet ns' n vm None # rest"
      "SplitMetaNamespaceKey key = (ns', n, None)" "concerns cfg ns' vm h"
    using reconcile_run_concerns [OF assms(1)] by blast
  with CVMUpdateStatus assms(3) show ?thesis by (auto simp add: own_request_def mark_failed_def)
qed (use assms(3) in simp_all)

text \<open>
  C8. Over the typed client, every request of a pass is about the object of its key: it reads the
  object at the address of the key, or updates the object it read, or the status of that object.
\<close>

theorem pass_requests_own_object:
  assumes "elsewhere env" "group_NewForConfig tools conf = Inl g"
    "reconcile (over_rest md t g env) cfg key w = (r, w')"
  shows "list_all (own_request g key (pass_calls (over_rest md t g env) cfg key w))
    (calls_sent (drop (length (trace (ext w))) (trace (ext w'))))"
proof -
  have "kept (requests_accounted env g (trace (ext w)) (hist w)) w'"
    by (rule keepsD [OF own_requests.reconcile_keeps assms(3)])
      (simp add: kept_def accounted_def requests_accounted_def)
  then have "accounted g (trace (ext w)) (hist w) (ext w') (hist w')"
    using assms(1) NewForConfig_configured [OF assms(2)] by (simp add: kept_def requests_accounted_def)
  then obtain evs cs where acc: "trace (ext w') = trace (ext w) @ evs" "hist w' = hist w @ cs"
      "list_all (\<lambda>c. list_ex (\<lambda>h. accounts_for g h c) cs) (calls_sent evs)"
    by (auto simp: accounted_def)
  have run: "reconcile_run (over_rest md t g env) cfg key (pass_calls (over_rest md t g env) cfg key w) r"
    using reconcile_obeys [of "over_rest md t g env" cfg key w] assms(3) by simp
  have "pass_calls (over_rest md t g env) cfg key w = cs"
    using acc(2) assms(3) by (simp add: calls_of_def)
  with accounted_own [OF run] acc show ?thesis by (auto simp: list_all_iff list_ex_iff)
qed

section \<open>Errors of the client in a pass\<close>

lemma attempt_once:
  assumes "HTTPRequestError t (rq_verb r) (Request_URL r) = None"
    "DoHTTP t (call_of r) (peer w) = (Inl resp, p)" "\<not> snd (checkWait resp)"
  shows "attempt t r 0 w =
    (Inl resp, w\<lparr>trace := trace w @ [Slept 0, Sent (call_of r) (Inl resp)], peer := p\<rparr>)"
  using assms
  by (cases "checkWait resp", subst attempt.simps) (simp add: Let_def client_Do_def wire_log_def answer_of_def)

lemma not_found_response:
  assumes "r_status resp = 404" "r_body resp = Inl body" "r_contentType resp \<in> {[], rq_contentType r}"
    "\<And>st. DecodeAny md (DefaultDecoder md) body = (DecodedStatus st, None) \<Longrightarrow> st_reason st = ''NotFound''"
  shows "IsNotFound (snd (Result_Into md dec obj (transformResponse md r resp)))"
proof -
  let ?err = "newUnstructuredResponseError r body (isTextResponse md resp) 404 (rq_verb r)"
  have res: "transformResponse md r resp = \<lparr>rs_body = body, rs_contentType = r_contentType resp,
      rs_err = Some (?err, True), rs_statusCode = 404, rs_decoder = Some (DefaultDecoder md)\<rparr>"
    using assms(1-3) by (auto simp: transformResponse_def structured_result_def error_status_def)
  have "IsNotFound (Some ?err)"
    by (simp add: newUnstructuredResponseError_def NewGenericServerResponse_def Let_def reason_of_code_def IsNotFound_def)
  moreover obtain d e where any: "DecodeAny md (DefaultDecoder md) body = (d, e)" by fastforce
  ultimately show ?thesis
    using assms(4) unfolding res
    by (cases d; cases e) (auto simp: Result_Into_def Result_Error_def FromObject_def IsNotFound_def)
qed

lemma vms_Get_over_rest:
  assumes "vmc_Get md t (client_in g ns) n no_get_options (ext w) = ((vm, err), p)"
  obtains w' where "vms_Get (over_rest md t g env) ns n w = (Returns (vm, err), w')"
    "ext w' = p" "hist w' = hist w @ [CVMGet ns n vm err]"
  using assms by (auto simp: vms_Get_def call_ext_def)

lemma valid_slash_free: "valid_segment s \<Longrightarrow> slash_free s"
  by (simp add: valid_segment_def slash_free_def)

lemma get_request_ok:
  assumes "valid_segment ns" "valid_segment n" "n \<noteq> []" "snd (EncodeGetParameters md no_get_options) = None"
  shows "rq_err (vmc_Get_request md (client_in g ns) n no_get_options) = None"
proof -
  have "rq_err (Request_Name n (resource_of ns (client_Get (restClient g)))) = None"
    using about_resource [OF fresh_verbs(1) assms(1)] about_name assms(2,3) by blast
  with assms(4) show ?thesis
    by (auto simp: vmc_Get_request_def Request_VersionedParams_def split: prod.split)
qed

lemma read_missing:
  assumes "valid_segment ns" "ns \<noteq> []" "valid_segment n" "n \<noteq> []"
    "snd (EncodeGetParameters md no_get_options) = None"
    "r = vmc_Get_request md (client_in g ns) n no_get_options"
    "HTTPRequestError t (rq_verb r) (Request_URL r) = None"
    "DoHTTP t (call_of r) (peer (ext w)) = (Inl resp, p)"
    "r_status resp = 404" "r_body resp = Inl body" "r_contentType resp \<in> {[], rq_contentType r}"
    "\<And>st. DecodeAny md (DefaultDecoder md) body = (DecodedStatus st, None) \<Longrightarrow> st_reason st = ''NotFound''"
  obtains w' where "reconcile (over_rest md t g env) cfg (key_of ns n) w = (Returns None, w')"
    "trace (ext w') = trace (tryThrottle r (ext w)) @ [Slept 0, Sent (call_of r) (Inl resp)]"
proof -
  have about: "about (restClient g) ''GET'' ns n [] r"
    unfolding assms(6) by (rule about_item_requests(1) [OF assms(1,3,4)])
  have "rq_err r = None"
    unfolding assms(6) by (rule get_request_ok [OF assms(1,3,4,5)])
  with about assms(2) have sendable: "\<not> refused r" by (simp add: refused_def about_def)
  let ?w = "tryThrottle r (ext w)"
  have peer: "DoHTTP t (call_of r) (peer ?w) = (Inl resp, p)"
    using assms(8) by (simp add: tryThrottle_def wire_log_def)
  have wait: "\<not> snd (checkWait resp)" by (simp add: checkWait_def assms(9))
  obtain vm err where got: "Result_Into md (DecodeVM md) empty_vm (transformResponse md r resp) = (vm, err)"
    by fastforce
  let ?p = "?w\<lparr>trace := trace ?w @ [Slept 0, Sent (call_of r) (Inl resp)], peer := p\<rparr>"
  have "vmc_Get md t (client_in g ns) n no_get_options (ext w) = ((vm, err), ?p)"
    using got unfolding vmc_Get_def do_into_def Request_Do_def assms(6) [symmetric] request_sent [OF sendable]
      attempt_once [OF assms(7) peer wait] by simp
  then obtain w1 where get: "vms_Get (over_rest md t g env) ns n w = (Returns (vm, err), w1)" "ext w1 = ?p"
    by (rule vms_Get_over_rest) blast
  have "IsNotFound err"
    using not_found_response [where md = md and dec = "DecodeVM md" and obj = empty_vm, OF assms(9-12)] got by simp
  then have "reconcile (over_rest md t g env) cfg (key_of ns n) w = (Returns None, w1)"
    using get(1) split_key_of [OF valid_slash_free [OF assms(1)] valid_slash_free [OF assms(3)]]
    by (simp add: reconcile_def go_simps)
  moreover have "trace (ext w1) = trace ?w @ [Slept 0, Sent (call_of r) (Inl resp)]"
    unfolding get(2) by simp
  ultimately show thesis by (rule that)
qed

text \<open>
  When the API server answers the read with the status code 404, the pass ends without an error
  after this one request: an object that is gone is not worked on and not retried.
\<close>

theorem missing_object_ends_pass:
  assumes "valid_segment ns" "ns \<noteq> []" "valid_segment n" "n \<noteq> []"
    "snd (EncodeGetParameters md no_get_options) = None"
    "r = vmc_Get_request md (client_in g ns) n no_get_options"
    "HTTPRequestError t (rq_verb r) (Request_URL r) = None"
    "DoHTTP t (call_of r) (peer (ext w)) = (Inl resp, p)"
    "r_status resp = 404" "r_body resp = Inl body" "r_contentType resp \<in> {[], rq_contentType r}"
    "\<And>st. DecodeAny md (DefaultDecoder md) body = (DecodedStatus st, None) \<Longrightarrow> st_reason st = ''NotFound''"
  shows "\<exists>w'. reconcile (over_rest md t g env) cfg (key_of ns n) w = (Returns None, w') \<and>
    calls_sent (trace (ext w')) = calls_sent (trace (ext w)) @ [call_of r]"
proof -
  obtain w' where "reconcile (over_rest md t g env) cfg (key_of ns n) w = (Returns None, w')"
      "trace (ext w') = trace (tryThrottle r (ext w)) @ [Slept 0, Sent (call_of r) (Inl resp)]"
    by (rule read_missing [OF assms])
  then show ?thesis by (auto simp: tryThrottle_trace)
qed

lemma name_error_text:
  assumes "rq_err r = None" "rq_resourceName r = []" "\<not> (valid_segment n \<and> n \<noteq> [])"
  shows "\<exists>msg. rq_err (Request_Name n r) = Some (ErrorString msg)"
  using assms IsValidPathSegmentName_iff [of n] by (auto simp: Request_Name_def failed_def Let_def)

text \<open>
  A key without a namespace, as a cluster-scoped object would have, is never asked for: the read
  fails without a request, and so does the pass.
\<close>

theorem key_without_namespace_fails:
  assumes "slash_free key" "snd (EncodeGetParameters md no_get_options) = None"
  shows "\<exists>msg w'. reconcile (over_rest md t g env) cfg key w = (Returns (Some (ErrorString msg)), w') \<and>
    calls_sent (trace (ext w')) = calls_sent (trace (ext w))"
proof -
  let ?r = "vmc_Get_request md (client_in g []) key no_get_options"
  have split: "SplitMetaNamespaceKey key = ([], key, None)"
    using split_key_of [of "[]" key] assms(1) by (simp add: key_of_def slash_free_def)
  have valid: "valid_segment []" by (simp add: valid_segment_def)
  obtain msg where req: "\<And>w'. request t ?r w' = (Inr (ErrorString msg), w')"
  proof (cases "valid_segment key \<and> key \<noteq> []")
    case True
    then have ok: "valid_segment key" "key \<noteq> []" by simp_all
    have "rq_err ?r = None" by (rule get_request_ok [OF valid ok assms(2)])
    moreover have "about (restClient g) ''GET'' [] key [] ?r" by (rule about_item_requests(1) [OF valid ok])
    ultimately show ?thesis using ok(2) by (intro that) (simp add: request_def about_def)
  next
    case False
    have res: "rq_err (resource_of [] (client_Get (restClient g))) = None \<and>
        rq_resourceName (resource_of [] (client_Get (restClient g))) = []"
      using about_resource [OF fresh_verbs(1) valid, of "restClient g"] by (simp add: about_def)
    obtain msg where "rq_err (Request_Name key (resource_of [] (client_Get (restClient g)))) = Some (ErrorString msg)"
      using name_error_text [OF res [THEN conjunct1] res [THEN conjunct2]] False by blast
    then have "rq_err ?r = Some (ErrorString msg)"
      by (simp add: vmc_Get_request_def err_steps)
    then show ?thesis by (intro that) (simp add: request_def)
  qed
  have "vmc_Get md t (client_in g []) key no_get_options (ext w) =
      ((empty_vm, Some (ErrorString msg)), tryThrottle ?r (ext w))"
    by (simp add: vmc_Get_def do_into_def Request_Do_def req)
  then obtain w1 where get: "vms_Get (over_rest md t g env) [] key w = (Returns (empty_vm, Some (ErrorString msg)), w1)"
      "ext w1 = tryThrottle ?r (ext w)"
    by (rule vms_Get_over_rest) blast
  then have "reconcile (over_rest md t g env) cfg key w = (Returns (Some (ErrorString msg)), w1)"
    using split by (simp add: reconcile_def go_simps IsNotFound_def)
  with get(2) show ?thesis by (auto simp: tryThrottle_trace)
qed

section \<open>Witnesses\<close>

definition sample_rest_env :: "unit wire env" where
  "sample_rest_env =
     \<lparr>InstancesDelete = (\<lambda>p z n e. ((Some (an_operation ''RUNNING''), None), e)),
      InstancesGet = (\<lambda>p z n e. ((Some an_instance, None), e)),
      InstancesInsert = (\<lambda>p z i e. ((Some (an_operation ''RUNNING''), None), e)),
      SetMetadata = (\<lambda>p z i m e. ((Some (an_operation ''RUNNING''), None), e)),
      ZoneOperationsGet = (\<lambda>p z n e. ((Some (an_operation ''DONE''), None), e)),
      VMGet = (\<lambda>ns n e. ((empty_vm, None), e)),
      VMUpdate = (\<lambda>ns v e. (None, e)),
      VMUpdateStatus = (\<lambda>ns v e. (None, e)),
      SecretGet = (\<lambda>ns n e. (None, e)),
      SecretCreate = (\<lambda>ns s e. (None, e)),
      GenerateKey = (\<lambda>b e. ((''key'', None), e)),
      PEMEncode = (\<lambda>k. (''pem'', None)),
      NewPublicKey = (\<lambda>k. (''pub'', None)),
      MarshalAuthorizedKey = (\<lambda>k. ''ssh-rsa AAAA''),
      ParsePrivateKey = (\<lambda>k. (''signer'', None)),
      DialTimeout = (\<lambda>nw a t e. ((''conn'', None), e)),
      NewClientConn = (\<lambda>c a u s e. ((''client'', None), e)),
      CloseConn = (\<lambda>c e. (None, e)),
      pick_done = (\<lambda>e. True),
      lag = (\<lambda>e. 1)\<rparr>"

lemma sample_elsewhere: "elsewhere sample_rest_env"
  by (simp add: elsewhere_def sample_rest_env_def)

definition sample_rest_world :: "unit wire world" where
  "sample_rest_world = \<lparr>ext = sample_wire, clock = 0, hist = []\<rparr>"

text \<open>The read of the sample key.\<close>

abbreviation sample_get :: rest_request where
  "sample_get \<equiv> vmc_Get_request sample_vm_codec (client_in sample_group ''ci'') ''vm'' no_get_options"

lemma sample_names: "valid_segment ''ci''" "''ci'' \<noteq> ([] :: string)" "valid_segment ''vm''" "''vm'' \<noteq> ([] :: string)"
  by code_simp+

lemma sample_key_of: "sample_key = key_of ''ci'' ''vm''"
  by code_simp

lemma sample_get_call: "hc_verb (call_of sample_get) = ''GET'' \<and> u_path (hc_url (call_of sample_get)) = sample_path"
  by code_simp

theorem pass_requests_own_object_witness:
  "\<exists>cs. own_request sample_group sample_key cs (call_of sample_get) \<and>
     hc_verb (call_of sample_get) = ''GET'' \<and> u_path (hc_url (call_of sample_get)) = sample_path"
proof -
  obtain w' where pass: "reconcile (over_rest sample_vm_codec not_found_server sample_group sample_rest_env) sample_cfg
        sample_key sample_rest_world = (Returns None, w')"
      "trace (ext w') = trace (tryThrottle sample_get (ext sample_rest_world)) @
        [Slept 0, Sent (call_of sample_get) (Inl not_found_answer)]"
    unfolding sample_key_of
    by (rule read_missing [OF sample_names _ refl, of sample_vm_codec not_found_server sample_group
          sample_rest_world not_found_answer "()" "''gone''" sample_rest_env sample_cfg])
      (auto simp: sample_vm_codec_def not_found_server_def not_found_answer_def)
  have "calls_sent (trace (ext w')) = [call_of sample_get]"
    unfolding pass(2) by (simp add: tryThrottle_trace sample_rest_world_def sample_wire_def)
  with pass_requests_own_object [OF sample_elsewhere sample_NewForConfig pass(1)] sample_get_call show ?thesis
    by (auto simp: sample_rest_world_def sample_wire_def)
qed

theorem missing_object_ends_pass_witness:
  "\<exists>w'. reconcile (over_rest sample_vm_codec not_found_server sample_group sample_rest_env) sample_cfg sample_key
      sample_rest_world = (Returns None, w') \<and> calls_sent (trace (ext w')) = [call_of sample_get]"
  unfolding sample_key_of
  using missing_object_ends_pass [OF sample_names _ refl, of sample_vm_codec not_found_server sample_group
      sample_rest_world not_found_answer "()" "''gone''" sample_rest_env sample_cfg]
  by (auto simp: sample_vm_codec_def not_found_server_def not_found_answer_def sample_rest_world_def sample_wire_def)

theorem key_without_namespace_fails_witness:
  "\<exists>msg w'. reconcile (over_rest sample_vm_codec not_found_server sample_group sample_rest_env) sample_cfg ''vm''
      sample_rest_world = (Returns (Some (ErrorString msg)), w') \<and> calls_sent (trace (ext w')) = []"
proof -
  have "slash_free ''vm''" by code_simp
  then show ?thesis
    using key_without_namespace_fails [of "''vm''" sample_vm_codec not_found_server sample_group sample_rest_env sample_cfg
        sample_rest_world]
    by (auto simp: sample_vm_codec_def sample_rest_world_def sample_wire_def)
qed

end
