(* ===== verification/Fake_Client.thy ===== *)
theory Fake_Client
  imports Api_Requests Url_Paths
begin

text \<open>
  The fake client set of \<open>pkg/client/clientset/versioned/fake\<close> and the fake of
  \<open>typed/virtualmachines/v1alpha1/fake\<close>, over the object tracker and the reaction chain of
  \<open>client-go/testing\<close>. The tracker holds the virtual machines of the group resource; a watcher is
  a number, and what it was sent is a log (a watcher whose channel is full would block the tracker;
  its readers are taken to keep up). The selectors of list options are parameters.
\<close>

section \<open>The tracker\<close>

datatype watch_event = WAdded virtual_machine | WModified virtual_machine | WDeleted virtual_machine

record tracker =
  tk_objects :: "virtual_machine list"
  tk_watchers :: "string \<Rightarrow> nat list"
  tk_sent :: "(nat \<times> watch_event) list"
  tk_next :: nat

definition NewObjectTracker :: tracker where
  "NewObjectTracker = \<lparr>tk_objects = [], tk_watchers = (\<lambda>_. []), tk_sent = [], tk_next = 0\<rparr>"

definition virtualmachinesResource :: string where
  "virtualmachinesResource = ''virtualmachines.ci.openshift.io''"

definition NewBadRequest :: "string \<Rightarrow> go_error" where
  "NewBadRequest reason = StatusError ''BadRequest'' reason"

definition filterByNamespaceAndName :: "virtual_machine list \<Rightarrow> string \<Rightarrow> string \<Rightarrow> virtual_machine list" where
  "filterByNamespaceAndName objs ns name =
     filter (\<lambda>obj. \<not> (ns \<noteq> [] \<and> vm_namespace obj \<noteq> ns) \<and> \<not> (name \<noteq> [] \<and> vm_name obj \<noteq> name)) objs"

definition tracker_List :: "tracker \<Rightarrow> string \<Rightarrow> vm_list" where
  "tracker_List t ns = empty_list\<lparr>vl_items := filterByNamespaceAndName (tk_objects t) ns []\<rparr>"

definition tracker_Get :: "tracker \<Rightarrow> string \<Rightarrow> string \<Rightarrow> virtual_machine option \<times> go_error option" where
  "tracker_Get t ns name =
     (case filterByNamespaceAndName (tk_objects t) ns name of
        [] \<Rightarrow> (None, Some (NewNotFound virtualmachinesResource name))
      | [obj] \<Rightarrow> (Some obj, None)
      | _ \<Rightarrow> (None, Some (ErrorString (''more than one object matched gvr '' @
               ''ci.openshift.io/v1alpha1, Resource=virtualmachines, ns: '' @ fmt_q ns @ '' name: '' @ fmt_q name))))"

definition tracker_Watch :: "string \<Rightarrow> tracker \<Rightarrow> nat \<times> tracker" where
  "tracker_Watch ns t =
     (tk_next t, t\<lparr>tk_watchers := (tk_watchers t)(ns := tk_watchers t ns @ [tk_next t]), tk_next := Suc (tk_next t)\<rparr>)"

definition getWatches :: "tracker \<Rightarrow> string \<Rightarrow> nat list" where
  "getWatches t ns = tk_watchers t ns @ tk_watchers t []"

definition tell :: "string \<Rightarrow> watch_event \<Rightarrow> tracker \<Rightarrow> tracker" where
  "tell ns ev t = t\<lparr>tk_sent := tk_sent t @ map (\<lambda>w. (w, ev)) (getWatches t ns)\<rparr>"

definition same_object :: "virtual_machine \<Rightarrow> virtual_machine \<Rightarrow> bool" where
  "same_object old new = (vm_namespace old = vm_namespace new \<and> vm_name old = vm_name new)"

fun replace_first :: "virtual_machine \<Rightarrow> virtual_machine list \<Rightarrow> virtual_machine list" where
  "replace_first obj [] = []"
| "replace_first obj (old # rest) = (if same_object old obj then obj # rest else old # replace_first obj rest)"

definition with_namespace :: "string \<Rightarrow> virtual_machine \<Rightarrow> virtual_machine" where
  "with_namespace ns obj =
     (if vm_namespace obj = [] then obj\<lparr>metadata := (metadata obj)\<lparr>om_namespace := ns\<rparr>\<rparr> else obj)"

definition tracker_add :: "virtual_machine \<Rightarrow> string \<Rightarrow> bool \<Rightarrow> tracker \<Rightarrow> go_error option \<times> tracker" where
  "tracker_add obj ns replaceExisting t =
     (let obj = with_namespace ns obj in
      if ns \<noteq> vm_namespace obj then
        (Some (NewBadRequest (''request namespace does not match object namespace, request: '' @ fmt_q ns @
           '' object: '' @ fmt_q (vm_namespace obj))), t)
      else if list_ex (\<lambda>old. same_object old obj) (tk_objects t) then
        (if replaceExisting then
           (None, (tell ns (WModified obj) t)\<lparr>tk_objects := replace_first obj (tk_objects t)\<rparr>)
         else (Some (NewAlreadyExists virtualmachinesResource (vm_name obj)), t))
      else if replaceExisting then (Some (NewNotFound virtualmachinesResource (vm_name obj)), t)
      else (None, tell ns (WAdded obj) (t\<lparr>tk_objects := tk_objects t @ [obj]\<rparr>)))"

definition tracker_Create :: "virtual_machine \<Rightarrow> string \<Rightarrow> tracker \<Rightarrow> go_error option \<times> tracker" where
  "tracker_Create obj ns = tracker_add obj ns False"

definition tracker_Update :: "virtual_machine \<Rightarrow> string \<Rightarrow> tracker \<Rightarrow> go_error option \<times> tracker" where
  "tracker_Update obj ns = tracker_add obj ns True"

fun remove_first :: "string \<Rightarrow> string \<Rightarrow> virtual_machine list \<Rightarrow> virtual_machine option \<times> virtual_machine list" where
  "remove_first ns name [] = (None, [])"
| "remove_first ns name (obj # rest) =
     (if vm_namespace obj = ns \<and> vm_name obj = name then (Some obj, rest)
      else case remove_first ns name rest of (found, rest') \<Rightarrow> (found, obj # rest'))"

definition tracker_Delete :: "string \<Rightarrow> string \<Rightarrow> tracker \<Rightarrow> go_error option \<times> tracker" where
  "tracker_Delete ns name t =
     (case remove_first ns name (tk_objects t) of
        (Some obj, rest) \<Rightarrow> (None, tell ns (WDeleted obj) (t\<lparr>tk_objects := rest\<rparr>))
      | (None, _) \<Rightarrow> (Some (NewNotFound virtualmachinesResource name), t))"

text \<open>\<open>Add\<close> of the objects the fake starts with: machines, and lists item by item.\<close>

datatype api_object = FVM virtual_machine | FList vm_list

fun add_items :: "virtual_machine list \<Rightarrow> tracker \<Rightarrow> go_error option \<times> tracker" where
  "add_items [] t = (None, t)"
| "add_items (obj # objs) t =
     (case tracker_add obj (vm_namespace obj) False t of
        (Some err, t') \<Rightarrow> (Some err, t')
      | (None, t') \<Rightarrow> add_items objs t')"

fun tracker_Add :: "api_object \<Rightarrow> tracker \<Rightarrow> go_error option \<times> tracker" where
  "tracker_Add (FVM vm) t = tracker_add vm (vm_namespace vm) False t"
| "tracker_Add (FList l) t = add_items (vl_items l) t"

section \<open>Actions and reactions\<close>

datatype action =
    GetAction string string
  | ListAction string string
  | CreateAction string string virtual_machine
  | UpdateAction string string virtual_machine
  | DeleteAction string string
  | DeleteCollectionAction string string
  | PatchAction string string string string
  | WatchAction string string
  | DiscoveryAction string

fun GetVerb :: "action \<Rightarrow> string" where
  "GetVerb (GetAction ns n) = ''get''"
| "GetVerb (ListAction ns l) = ''list''"
| "GetVerb (CreateAction ns sub obj) = ''create''"
| "GetVerb (UpdateAction ns sub obj) = ''update''"
| "GetVerb (DeleteAction ns n) = ''delete''"
| "GetVerb (DeleteCollectionAction ns l) = ''delete-collection''"
| "GetVerb (PatchAction ns n sub p) = ''patch''"
| "GetVerb (WatchAction ns l) = ''watch''"
| "GetVerb (DiscoveryAction resource) = ''get''"

fun GetResource :: "action \<Rightarrow> string" where
  "GetResource (DiscoveryAction resource) = resource"
| "GetResource a = ''virtualmachines''"

text \<open>Whether the reaction handled the action, what it returns, and the tracker it leaves.\<close>

fun ObjectReaction :: "action \<Rightarrow> tracker \<Rightarrow> (bool \<times> api_object option \<times> go_error option) \<times> tracker" where
  "ObjectReaction (ListAction ns l) t = ((True, Some (FList (tracker_List t ns)), None), t)"
| "ObjectReaction (GetAction ns name) t =
     (case tracker_Get t ns name of (obj, err) \<Rightarrow> ((True, map_option FVM obj, err), t))"
| "ObjectReaction (CreateAction ns sub obj) t =
     (case (if sub = [] then tracker_Create obj ns t else tracker_Update obj ns t) of
        (Some err, t') \<Rightarrow> ((True, None, Some err), t')
      | (None, t') \<Rightarrow> (case tracker_Get t' ns (vm_name obj) of (o', err) \<Rightarrow> ((True, map_option FVM o', err), t')))"
| "ObjectReaction (UpdateAction ns sub obj) t =
     (case tracker_Update obj ns t of
        (Some err, t') \<Rightarrow> ((True, None, Some err), t')
      | (None, t') \<Rightarrow> (case tracker_Get t' ns (vm_name obj) of (o', err) \<Rightarrow> ((True, map_option FVM o', err), t')))"
| "ObjectReaction (DeleteAction ns name) t =
     (case tracker_Delete ns name t of (err, t') \<Rightarrow> ((True, None, err), t'))"
| "ObjectReaction a t = ((False, None, Some (ErrorString (''no reaction implemented for '' @ GetVerb a))), t)"

record reactor =
  re_Verb :: string
  re_Resource :: string
  re_Reaction :: "action \<Rightarrow> tracker \<Rightarrow> (bool \<times> api_object option \<times> go_error option) \<times> tracker"

definition Handles :: "reactor \<Rightarrow> action \<Rightarrow> bool" where
  "Handles r a =
     ((re_Verb r = ''*'' \<or> re_Verb r = GetVerb a) \<and> (re_Resource r = ''*'' \<or> re_Resource r = GetResource a))"

record fake =
  fk_actions :: "action list"
  fk_ReactionChain :: "reactor list"
  fk_watchable :: bool
  fk_tracker :: tracker

definition AddReactor :: "string \<Rightarrow> string \<Rightarrow>
    (action \<Rightarrow> tracker \<Rightarrow> (bool \<times> api_object option \<times> go_error option) \<times> tracker) \<Rightarrow> fake \<Rightarrow> fake" where
  "AddReactor verb resource reaction c =
     c\<lparr>fk_ReactionChain := fk_ReactionChain c @ [\<lparr>re_Verb = verb, re_Resource = resource, re_Reaction = reaction\<rparr>]\<rparr>"

fun react :: "reactor list \<Rightarrow> action \<Rightarrow> api_object \<Rightarrow> tracker \<Rightarrow> (api_object option \<times> go_error option) \<times> tracker" where
  "react [] a dflt t = ((Some dflt, None), t)"
| "react (r # rs) a dflt t =
     (if \<not> Handles r a then react rs a dflt t
      else case re_Reaction r a t of
        ((handled, result, err), t') \<Rightarrow> if \<not> handled then react rs a dflt t' else ((result, err), t'))"

definition Invokes :: "action \<Rightarrow> api_object \<Rightarrow> fake \<Rightarrow> (api_object option \<times> go_error option) \<times> fake" where
  "Invokes a dflt c =
     (case react (fk_ReactionChain c) a dflt (fk_tracker c) of
        (res, t') \<Rightarrow> (res, c\<lparr>fk_actions := fk_actions c @ [a], fk_tracker := t'\<rparr>))"

text \<open>The watch reaction of the fake client set hands out a watcher of the tracker.\<close>

definition InvokesWatch :: "string \<Rightarrow> string \<Rightarrow> fake \<Rightarrow> (nat + go_error) \<times> fake" where
  "InvokesWatch ns l c =
     (let c' = c\<lparr>fk_actions := fk_actions c @ [WatchAction ns l]\<rparr> in
      if fk_watchable c then
        (case tracker_Watch ns (fk_tracker c) of (w, t') \<Rightarrow> (Inl w, c'\<lparr>fk_tracker := t'\<rparr>))
      else (Inr (ErrorString ''unhandled watch''), c'))"

section \<open>The fake client\<close>

text \<open>
  Reading the dynamic type of what a reaction returned; a nil interface is returned as it is.
\<close>

fun as_vm :: "api_object option \<times> go_error option \<Rightarrow> (virtual_machine option \<times> go_error option) panicky" where
  "as_vm (None, err) = Returns (None, err)"
| "as_vm (Some (FVM vm), err) = Returns (Some vm, err)"
| "as_vm (Some (FList l), err) = Panics ''interface conversion: runtime.Object is *v1alpha1.VirtualMachineList''"

definition invoke_vm :: "action \<Rightarrow> (fake, virtual_machine option \<times> go_error option) go" where
  "invoke_vm a = (\<lambda>c. case Invokes a (FVM empty_vm) c of (res, c') \<Rightarrow> (as_vm res, c'))"

definition fake_Get :: "string \<Rightarrow> string \<Rightarrow> (fake, virtual_machine option \<times> go_error option) go" where
  "fake_Get ns name = invoke_vm (GetAction ns name)"

record selectors =
  ParseLabels :: "string \<Rightarrow> ((string \<times> string) list \<Rightarrow> bool) + string"
  ParseFields :: "string \<Rightarrow> string option"

definition ExtractFromListOptions :: "selectors \<Rightarrow> list_options \<Rightarrow> ((string \<times> string) list \<Rightarrow> bool) panicky" where
  "ExtractFromListOptions s opts =
     (case ParseLabels s (lo_labelSelector opts) of
        Inr e \<Rightarrow> Panics (''invalid selector '' @ fmt_q (lo_labelSelector opts) @ '': '' @ e)
      | Inl label \<Rightarrow>
          (case ParseFields s (lo_fieldSelector opts) of
             Some e \<Rightarrow> Panics (''invalid selector '' @ fmt_q (lo_fieldSelector opts) @ '': '' @ e)
           | None \<Rightarrow> Returns label))"

definition fake_List :: "selectors \<Rightarrow> string \<Rightarrow> list_options \<Rightarrow> (fake, vm_list option \<times> go_error option) go" where
  "fake_List s ns opts =
     andthen (lift_panicky (ExtractFromListOptions s opts)) (\<lambda>label c.
       case Invokes (ListAction ns (lo_labelSelector opts)) (FList empty_list) c of
         ((None, err), c') \<Rightarrow> (Returns (None, err), c')
       | ((Some (FVM vm), err), c') \<Rightarrow> (Panics ''interface conversion: runtime.Object is *v1alpha1.VirtualMachine'', c')
       | ((Some (FList l), err), c') \<Rightarrow>
           (Returns (Some (empty_list\<lparr>vl_items := filter (\<lambda>item. label (elems (om_labels (metadata item)))) (vl_items l)\<rparr>),
              err), c'))"

definition fake_Watch :: "selectors \<Rightarrow> string \<Rightarrow> list_options \<Rightarrow> (fake, nat + go_error) go" where
  "fake_Watch s ns opts =
     andthen (lift_panicky (ExtractFromListOptions s opts)) (\<lambda>_ c.
       case InvokesWatch ns (lo_labelSelector opts) c of (res, c') \<Rightarrow> (Returns res, c'))"

definition fake_Create :: "string \<Rightarrow> virtual_machine \<Rightarrow> (fake, virtual_machine option \<times> go_error option) go" where
  "fake_Create ns vm = invoke_vm (CreateAction ns [] vm)"

definition fake_Update :: "string \<Rightarrow> virtual_machine \<Rightarrow> (fake, virtual_machine option \<times> go_error option) go" where
  "fake_Update ns vm = invoke_vm (UpdateAction ns [] vm)"

definition fake_UpdateStatus :: "string \<Rightarrow> virtual_machine \<Rightarrow> (fake, virtual_machine option \<times> go_error option) go" where
  "fake_UpdateStatus ns vm = invoke_vm (UpdateAction ns ''status'' vm)"

definition fake_Delete :: "string \<Rightarrow> string \<Rightarrow> (fake, go_error option) go" where
  "fake_Delete ns name = (\<lambda>c. case Invokes (DeleteAction ns name) (FVM empty_vm) c of ((_, err), c') \<Rightarrow> (Returns err, c'))"

definition fake_DeleteCollection :: "selectors \<Rightarrow> string \<Rightarrow> list_options \<Rightarrow> (fake, go_error option) go" where
  "fake_DeleteCollection s ns opts =
     andthen (lift_panicky (ExtractFromListOptions s opts)) (\<lambda>_ c.
       case Invokes (DeleteCollectionAction ns (lo_labelSelector opts)) (FList empty_list) c of
         ((_, err), c') \<Rightarrow> (Returns err, c'))"

definition fake_Patch :: "string \<Rightarrow> string \<Rightarrow> string \<Rightarrow> string list \<Rightarrow> (fake, virtual_machine option \<times> go_error option) go" where
  "fake_Patch ns name data subresources = invoke_vm (PatchAction ns name (path_Join subresources) data)"

section \<open>The fake client set\<close>

fun add_all :: "api_object list \<Rightarrow> tracker \<Rightarrow> go_error option \<times> tracker" where
  "add_all [] t = (None, t)"
| "add_all (obj # objs) t =
     (case tracker_Add obj t of (Some err, t') \<Rightarrow> (Some err, t') | (None, t') \<Rightarrow> add_all objs t')"

text \<open>
  The client set holds a copy of the \<open>Fake\<close> that the discovery fake points to, so that each
  records its own actions.
\<close>

record fake_clientset =
  cs_Fake :: fake
  cs_discovery :: fake

definition NewSimpleClientset :: "api_object list \<Rightarrow> fake_clientset panicky" where
  "NewSimpleClientset objects =
     (case add_all objects NewObjectTracker of
        (Some err, _) \<Rightarrow> Panics (Error err)
      | (None, o') \<Rightarrow>
          let fakePtr = \<lparr>fk_actions = [], fk_ReactionChain = [], fk_watchable = False, fk_tracker = o'\<rparr>;
              fakePtr = AddReactor ''*'' ''*'' ObjectReaction fakePtr;
              fakePtr = fakePtr\<lparr>fk_watchable := True\<rparr>
          in Returns \<lparr>cs_Fake = fakePtr, cs_discovery = fakePtr\<rparr>)"

definition fake_CiV1alpha1 :: "fake_clientset \<Rightarrow> fake" where
  "fake_CiV1alpha1 c = cs_Fake c"

definition fake_Ci :: "fake_clientset \<Rightarrow> fake" where
  "fake_Ci c = cs_Fake c"

definition fake_Discovery :: "fake_clientset \<Rightarrow> fake" where
  "fake_Discovery c = cs_discovery c"

text \<open>\<open>ServerResourcesForGroupVersion\<close> records an action in the fake of the discovery client.\<close>

definition discovery_ServerResources :: "fake_clientset \<Rightarrow> fake_clientset" where
  "discovery_ServerResources c =
     c\<lparr>cs_discovery := snd (Invokes (DiscoveryAction ''resource'') (FVM empty_vm) (cs_discovery c))\<rparr>"

end
