(* ===== verification/Fake_Client_Correct.thy ===== *)
theory Fake_Client_Correct
  imports Fake_Client Sample_World
begin

text \<open>
  The fake client set as a store of machines. \<open>vm_store\<close> is what a test relies on: an abstract map
  from namespace and name to machines, and operations that act on it like the API server would; the
  object tracker provides it. What the fake does not do is stated as well: patches and deletions of
  collections succeed without effect.
\<close>

section \<open>The abstract store\<close>

type_synonym store_map = "string \<times> string \<Rightarrow> virtual_machine option"

definition map_put :: "bool \<Rightarrow> virtual_machine \<Rightarrow> string \<Rightarrow> store_map \<Rightarrow> go_error option \<times> store_map" where
  "map_put replaceExisting vm ns m =
     (let obj = with_namespace ns vm; k = (ns, vm_name vm) in
      if ns \<noteq> vm_namespace obj then
        (Some (NewBadRequest (''request namespace does not match object namespace, request: '' @ fmt_q ns @
           '' object: '' @ fmt_q (vm_namespace obj))), m)
      else if (m k \<noteq> None) \<noteq> replaceExisting then
        (Some (if replaceExisting then NewNotFound virtualmachinesResource (vm_name vm)
               else NewAlreadyExists virtualmachinesResource (vm_name vm)), m)
      else (None, m(k \<mapsto> obj)))"

definition map_delete :: "string \<Rightarrow> string \<Rightarrow> store_map \<Rightarrow> go_error option \<times> store_map" where
  "map_delete ns name m =
     (if m (ns, name) = None then (Some (NewNotFound virtualmachinesResource name), m)
      else (None, m((ns, name) := None)))"

definition map_get :: "string \<Rightarrow> string \<Rightarrow> store_map \<Rightarrow> virtual_machine option \<times> go_error option" where
  "map_get ns name m =
     (case m (ns, name) of
        None \<Rightarrow> (None, Some (NewNotFound virtualmachinesResource name))
      | Some vm \<Rightarrow> (Some vm, None))"

lemma map_putD:
  "map_put b vm ns m = (None, m') \<Longrightarrow> vm_namespace (with_namespace ns vm) = ns \<and>
     (m (ns, vm_name vm) \<noteq> None) = b \<and> m' = m((ns, vm_name vm) \<mapsto> with_namespace ns vm)"
  by (simp add: map_put_def Let_def split: if_splits)

lemma map_deleteD:
  "map_delete ns n m = (None, m') \<Longrightarrow> m (ns, n) \<noteq> None \<and> m' = m((ns, n) := None)"
  by (auto simp: map_delete_def split: if_splits)

datatype store_op = OCreate string virtual_machine | OUpdate string virtual_machine | ODelete string string

locale vm_store =
  fixes valid :: "'s \<Rightarrow> bool"
    and contents :: "'s \<Rightarrow> store_map"
    and create update :: "virtual_machine \<Rightarrow> string \<Rightarrow> 's \<Rightarrow> go_error option \<times> 's"
    and delete :: "string \<Rightarrow> string \<Rightarrow> 's \<Rightarrow> go_error option \<times> 's"
    and get :: "'s \<Rightarrow> string \<Rightarrow> string \<Rightarrow> virtual_machine option \<times> go_error option"
  assumes create_spec: "valid s \<Longrightarrow> create vm ns s = (err, s') \<Longrightarrow>
      valid s' \<and> map_put False vm ns (contents s) = (err, contents s')"
    and update_spec: "valid s \<Longrightarrow> update vm ns s = (err, s') \<Longrightarrow>
      valid s' \<and> map_put True vm ns (contents s) = (err, contents s')"
    and delete_spec: "valid s \<Longrightarrow> delete ns n s = (err, s') \<Longrightarrow>
      valid s' \<and> map_delete ns n (contents s) = (err, contents s')"
    and get_spec: "valid s \<Longrightarrow> ns \<noteq> [] \<Longrightarrow> n \<noteq> [] \<Longrightarrow> get s ns n = map_get ns n (contents s)"
begin

text \<open>What was created or updated is read back; what was deleted is not.\<close>

lemma put_get:
  assumes "valid s" "create vm ns s = (None, s') \<or> update vm ns s = (None, s')" "ns \<noteq> []" "vm_name vm \<noteq> []"
  shows "get s' ns (vm_name vm) = (Some (with_namespace ns vm), None)"
proof -
  obtain b where put: "valid s'" "map_put b vm ns (contents s) = (None, contents s')"
    using assms(1,2) create_spec update_spec by blast
  from map_putD [OF put(2)] have "contents s' (ns, vm_name vm) = Some (with_namespace ns vm)" by simp
  with assms(3,4) show ?thesis by (simp add: get_spec [OF put(1)] map_get_def)
qed

lemma create_again:
  assumes "valid s" "create vm ns s = (None, s')"
  shows "\<exists>err s''. create vm ns s' = (Some err, s'') \<and> contents s'' = contents s' \<and>
    err = NewAlreadyExists virtualmachinesResource (vm_name vm)"
proof -
  obtain err s'' where again: "create vm ns s' = (err, s'')" by fastforce
  have first: "valid s'" "map_put False vm ns (contents s) = (None, contents s')"
    using create_spec [OF assms] by blast+
  note put = map_putD [OF first(2)]
  then have "contents s' (ns, vm_name vm) \<noteq> None" by simp
  with create_spec [OF first(1) again] put have "(err, contents s'') =
      (Some (NewAlreadyExists virtualmachinesResource (vm_name vm)), contents s')"
    by (simp add: map_put_def Let_def)
  with again show ?thesis by blast
qed

lemma delete_get:
  assumes "valid s" "delete ns n s = (None, s')" "ns \<noteq> []" "n \<noteq> []"
  shows "get s' ns n = (None, Some (NewNotFound virtualmachinesResource n))"
proof -
  have del: "valid s'" "map_delete ns n (contents s) = (None, contents s')"
    using delete_spec [OF assms(1,2)] by blast+
  from map_deleteD [OF del(2)] have "contents s' (ns, n) = None" by simp
  with assms(3,4) show ?thesis by (simp add: get_spec [OF del(1)] map_get_def)
qed

lemma create_delete:
  assumes "valid s" "create vm ns s = (None, s')" "delete ns (vm_name vm) s' = (err, s'')"
  shows "err = None \<and> contents s'' = contents s"
proof -
  have c: "valid s'" "map_put False vm ns (contents s) = (None, contents s')"
    using create_spec [OF assms(1,2)] by blast+
  note put = map_putD [OF c(2)]
  have "map_delete ns (vm_name vm) (contents s') = (err, contents s'')"
    using delete_spec [OF c(1) assms(3)] by simp
  then have "err = None" "contents s'' = (contents s')((ns, vm_name vm) := None)"
    using put by (simp_all add: map_delete_def)
  moreover have "(contents s')((ns, vm_name vm) := None) = contents s"
    using put by (simp add: fun_upd_idem)
  ultimately show ?thesis by simp
qed

primrec step_op :: "store_op \<Rightarrow> 's \<Rightarrow> go_error option \<times> 's" where
  "step_op (OCreate ns vm) = create vm ns"
| "step_op (OUpdate ns vm) = update vm ns"
| "step_op (ODelete ns n) = delete ns n"

end

primrec map_op :: "store_op \<Rightarrow> store_map \<Rightarrow> go_error option \<times> store_map" where
  "map_op (OCreate ns vm) = map_put False vm ns"
| "map_op (OUpdate ns vm) = map_put True vm ns"
| "map_op (ODelete ns n) = map_delete ns n"

fun run_ops :: "(store_op \<Rightarrow> 's \<Rightarrow> go_error option \<times> 's) \<Rightarrow> store_op list \<Rightarrow> 's \<Rightarrow> go_error option list \<times> 's" where
  "run_ops f [] s = ([], s)"
| "run_ops f (x # xs) s = (case f x s of (err, s') \<Rightarrow> (case run_ops f xs s' of (errs, s'') \<Rightarrow> (err # errs, s'')))"

context vm_store begin

lemma step_refines:
  "valid s \<Longrightarrow> step_op x s = (err, s') \<Longrightarrow> valid s' \<and> map_op x (contents s) = (err, contents s')"
  by (cases x) (auto dest: create_spec update_spec delete_spec)

lemma run_refines:
  "valid s \<Longrightarrow> run_ops step_op xs s = (errs, s') \<Longrightarrow>
   valid s' \<and> run_ops map_op xs (contents s) = (errs, contents s')"
proof (induction xs arbitrary: s errs)
  case (Cons x xs)
  obtain err s1 where st: "step_op x s = (err, s1)" by fastforce
  obtain errs' s2 where rest: "run_ops step_op xs s1 = (errs', s2)" by fastforce
  from step_refines [OF Cons.prems(1) st] Cons.IH [of s1 errs'] Cons.prems(2) st rest
  show ?case by auto
qed simp

end

section \<open>The tracker as a store\<close>

definition object_key :: "virtual_machine \<Rightarrow> string \<times> string" where
  "object_key obj = (vm_namespace obj, vm_name obj)"

definition tracker_ok :: "tracker \<Rightarrow> bool" where
  "tracker_ok t = distinct (map object_key (tk_objects t))"

definition tracked :: "tracker \<Rightarrow> store_map" where
  "tracked t k = find (\<lambda>obj. object_key obj = k) (tk_objects t)"

lemma tell_objects [simp]: "tk_objects (tell ns ev t) = tk_objects t"
  by (simp add: tell_def)

lemma same_object_key: "same_object a b \<longleftrightarrow> object_key a = object_key b"
  by (auto simp: same_object_def object_key_def)

lemma find_none: "find (\<lambda>obj. object_key obj = k) xs = None \<longleftrightarrow> k \<notin> object_key ` set xs"
  by (auto simp: find_None_iff)

lemma find_append: "find P (xs @ ys) = (case find P xs of None \<Rightarrow> find P ys | Some x \<Rightarrow> Some x)"
  by (induction xs) auto

lemma replace_first_keys: "map object_key (replace_first obj xs) = map object_key xs"
  by (induction xs) (auto simp: same_object_key)

lemma find_replace_first:
  "object_key obj \<in> object_key ` set xs \<Longrightarrow>
   find (\<lambda>x. object_key x = k) (replace_first obj xs) =
     (if k = object_key obj then Some obj else find (\<lambda>x. object_key x = k) xs)"
  by (induction xs) (auto simp: same_object_key)

lemma remove_first_found:
  "remove_first ns n xs = (Some obj, rest) \<Longrightarrow>
   object_key obj = (ns, n) \<and> (\<exists>ys zs. xs = ys @ obj # zs \<and> rest = ys @ zs \<and> (ns, n) \<notin> object_key ` set ys)"
proof (induction xs arbitrary: rest)
  case (Cons x xs)
  show ?case
  proof (cases "vm_namespace x = ns \<and> vm_name x = n")
    case True
    with Cons.prems have "xs = rest" "x = obj" by simp_all
    with True show ?thesis by (intro conjI exI [of _ "[]"] exI [of _ rest]) (simp_all add: object_key_def)
  next
    case False
    with Cons.prems obtain rest' where "remove_first ns n xs = (Some obj, rest')" "rest = x # rest'"
      by (auto split: prod.splits)
    with Cons.IH [of rest'] obtain ys zs where "object_key obj = (ns, n)" "xs = ys @ obj # zs" "rest = (x # ys) @ zs"
        "(ns, n) \<notin> object_key ` set ys" by auto
    with False show ?thesis by (intro conjI exI [of _ "x # ys"] exI [of _ zs]) (auto simp: object_key_def)
  qed
qed simp

lemma remove_first_missing: "fst (remove_first ns n xs) = None \<longleftrightarrow> (ns, n) \<notin> object_key ` set xs"
  by (induction xs) (auto simp: object_key_def split: prod.split)

lemma with_namespace_name [simp]: "vm_name (with_namespace ns vm) = vm_name vm"
  by (simp add: with_namespace_def)

lemma tracker_add_refines:
  assumes "tracker_ok t" "tracker_add vm ns b t = (err, t')"
  shows "tracker_ok t' \<and> map_put b vm ns (tracked t) = (err, tracked t')"
proof -
  let ?obj = "with_namespace ns vm"
  consider (bad) "ns \<noteq> vm_namespace ?obj"
    | (there) "ns = vm_namespace ?obj" "object_key ?obj \<in> object_key ` set (tk_objects t)"
    | (new) "ns = vm_namespace ?obj" "object_key ?obj \<notin> object_key ` set (tk_objects t)" by blast
  then show ?thesis
  proof cases
    case bad
    with assms show ?thesis by (auto simp: tracker_add_def map_put_def Let_def)
  next
    case there
    then have key: "object_key ?obj = (ns, vm_name vm)" by (simp add: object_key_def)
    have ex: "list_ex (\<lambda>old. same_object old ?obj) (tk_objects t)"
      using there(2) by (auto simp: list_ex_iff same_object_key)
    have look: "tracked t (ns, vm_name vm) \<noteq> None"
      using there(2) by (simp add: tracked_def find_none key del: not_None_eq)
    show ?thesis
    proof (cases b)
      case True
      let ?t = "(tell ns (WModified ?obj) t)\<lparr>tk_objects := replace_first ?obj (tk_objects t)\<rparr>"
      have "err = None" "t' = ?t"
        using assms(2) there(1) ex True by (simp_all add: tracker_add_def Let_def)
      moreover have "tracker_ok ?t"
        using assms(1) by (simp add: tracker_ok_def replace_first_keys)
      moreover have "tracked ?t = (tracked t)((ns, vm_name vm) \<mapsto> ?obj)"
        using find_replace_first [OF there(2)] by (auto simp: fun_eq_iff tracked_def key)
      ultimately show ?thesis using there(1) look True by (simp add: map_put_def Let_def)
    next
      case False
      with assms there(1) ex look show ?thesis by (auto simp: tracker_add_def map_put_def Let_def)
    qed
  next
    case new
    then have key: "object_key ?obj = (ns, vm_name vm)" by (simp add: object_key_def)
    have ex: "\<not> list_ex (\<lambda>old. same_object old ?obj) (tk_objects t)"
      using new(2) by (auto simp: list_ex_iff same_object_key image_iff)
    have look: "tracked t (ns, vm_name vm) = None"
      using new(2) by (simp add: tracked_def find_none key)
    show ?thesis
    proof (cases b)
      case True
      with assms new(1) ex look show ?thesis by (auto simp: tracker_add_def map_put_def Let_def)
    next
      case False
      let ?t = "tell ns (WAdded ?obj) (t\<lparr>tk_objects := tk_objects t @ [?obj]\<rparr>)"
      have "err = None" "t' = ?t"
        using assms(2) new(1) ex False by (simp_all add: tracker_add_def Let_def)
      moreover have "tracker_ok ?t"
        using assms(1) new(2) by (simp add: tracker_ok_def)
      moreover have "tracked ?t = (tracked t)((ns, vm_name vm) \<mapsto> ?obj)"
        using look by (auto simp: fun_eq_iff tracked_def find_append key split: option.split)
      ultimately show ?thesis using new(1) look False by (simp add: map_put_def Let_def)
    qed
  qed
qed

lemma tracker_Delete_refines:
  assumes "tracker_ok t" "tracker_Delete ns n t = (err, t')"
  shows "tracker_ok t' \<and> map_delete ns n (tracked t) = (err, tracked t')"
proof (cases "remove_first ns n (tk_objects t)")
  case (Pair found rest)
  show ?thesis
  proof (cases found)
    case None
    then have "tracked t (ns, n) = None"
      using remove_first_missing [of ns n "tk_objects t"] Pair by (simp add: tracked_def find_none)
    with assms Pair None show ?thesis by (simp add: tracker_Delete_def map_delete_def)
  next
    case (Some obj)
    with Pair obtain ys zs where split: "object_key obj = (ns, n)" "tk_objects t = ys @ obj # zs" "rest = ys @ zs"
        "(ns, n) \<notin> object_key ` set ys"
      using remove_first_found by blast
    then have last: "(ns, n) \<notin> object_key ` set zs"
      using assms(1) by (auto simp: tracker_ok_def)
    let ?t = "tell ns (WDeleted obj) (t\<lparr>tk_objects := rest\<rparr>)"
    have "err = None" "t' = ?t" using assms(2) Pair Some by (simp_all add: tracker_Delete_def)
    moreover have "tracker_ok ?t" using assms(1) split by (simp add: tracker_ok_def)
    moreover have "tracked ?t = (tracked t)((ns, n) := None)"
    proof
      fix k
      show "tracked ?t k = ((tracked t)((ns, n) := None)) k"
      proof (cases "k = (ns, n)")
        case True
        have "(ns, n) \<notin> object_key ` set (ys @ zs)" using split(4) last by auto
        with True split(3) show ?thesis by (simp add: tracked_def find_none)
      next
        case False
        with split show ?thesis by (simp add: tracked_def find_append split: option.split)
      qed
    qed
    moreover have "tracked t (ns, n) \<noteq> None"
      using split(1,2) by (simp add: tracked_def find_none del: not_None_eq)
    ultimately show ?thesis by (simp add: map_delete_def)
  qed
qed

lemma filter_key:
  assumes "distinct (map object_key xs)" "ns \<noteq> []" "n \<noteq> []"
  shows "filterByNamespaceAndName xs ns n =
    (case find (\<lambda>obj. object_key obj = (ns, n)) xs of None \<Rightarrow> [] | Some obj \<Rightarrow> [obj])"
  using assms(1)
proof (induction xs)
  case (Cons x xs)
  show ?case
  proof (cases "object_key x = (ns, n)")
    case True
    with Cons have "find (\<lambda>obj. object_key obj = (ns, n)) xs = None"
      by (simp add: find_none)
    with True Cons assms(2,3) show ?thesis
      by (simp add: filterByNamespaceAndName_def object_key_def)
  next
    case False
    with Cons assms(2,3) show ?thesis
      by (auto simp: filterByNamespaceAndName_def object_key_def)
  qed
qed (simp add: filterByNamespaceAndName_def)

lemma tracker_Get_refines:
  "tracker_ok t \<Longrightarrow> ns \<noteq> [] \<Longrightarrow> n \<noteq> [] \<Longrightarrow> tracker_Get t ns n = map_get ns n (tracked t)"
  by (simp add: tracker_Get_def tracker_ok_def filter_key map_get_def tracked_def split: option.split)

interpretation vms: vm_store tracker_ok tracked tracker_Create tracker_Update tracker_Delete tracker_Get
  unfolding tracker_Create_def tracker_Update_def
  by unfold_locales
    ((rule tracker_add_refines tracker_Delete_refines tracker_Get_refines; assumption)+)

section \<open>The fake client set\<close>

text \<open>A fake whose reactions are those of \<open>NewSimpleClientset\<close>.\<close>

definition simple_fake :: "fake \<Rightarrow> bool" where
  "simple_fake c = (fk_ReactionChain c = [\<lparr>re_Verb = ''*'', re_Resource = ''*'', re_Reaction = ObjectReaction\<rparr>] \<and>
     fk_watchable c \<and> tracker_ok (fk_tracker c))"

lemma add_items_ok: "tracker_ok t \<Longrightarrow> add_items objs t = (err, t') \<Longrightarrow> tracker_ok t'"
proof (induction objs arbitrary: t)
  case (Cons obj objs)
  obtain e t1 where step: "tracker_add obj (vm_namespace obj) False t = (e, t1)" by fastforce
  with Cons tracker_add_refines [OF Cons.prems(1) step] show ?case by (cases e) auto
qed simp

lemma tracker_Add_ok: "tracker_ok t \<Longrightarrow> tracker_Add obj t = (err, t') \<Longrightarrow> tracker_ok t'"
  by (cases obj) (auto dest: tracker_add_refines add_items_ok)

lemma add_all_ok: "tracker_ok t \<Longrightarrow> add_all objs t = (err, t') \<Longrightarrow> tracker_ok t'"
proof (induction objs arbitrary: t)
  case (Cons obj objs)
  obtain e t1 where step: "tracker_Add obj t = (e, t1)" by fastforce
  with Cons tracker_Add_ok [OF Cons.prems(1) step] show ?case by (cases e) auto
qed simp

lemma NewSimpleClientset_simple:
  assumes "NewSimpleClientset objs = Returns cs"
  shows "simple_fake (cs_Fake cs) \<and> cs_discovery cs = cs_Fake cs \<and> fk_actions (cs_Fake cs) = []"
proof -
  obtain err t where add: "add_all objs NewObjectTracker = (err, t)" by fastforce
  have "tracker_ok NewObjectTracker" by (simp add: tracker_ok_def NewObjectTracker_def)
  from add_all_ok [OF this add] add assms show ?thesis
    by (cases err) (auto simp: NewSimpleClientset_def Let_def AddReactor_def simple_fake_def)
qed

lemma simple_Handles [simp]: "Handles \<lparr>re_Verb = ''*'', re_Resource = ''*'', re_Reaction = f\<rparr> a"
  by (simp add: Handles_def)

lemma simple_Invokes:
  assumes "simple_fake c" "ObjectReaction a (fk_tracker c) = ((handled, res, err), t')"
  shows "Invokes a dflt c = (if handled then (res, err) else (Some dflt, None),
    c\<lparr>fk_actions := fk_actions c @ [a], fk_tracker := t'\<rparr>)"
  using assms by (simp add: Invokes_def simple_fake_def)

text \<open>An operation of the fake client on one object, and what it makes of the store.\<close>

fun fake_op :: "store_op \<Rightarrow> fake \<Rightarrow> (virtual_machine option \<times> go_error option) panicky \<times> fake" where
  "fake_op (OCreate ns vm) c = fake_Create ns vm c"
| "fake_op (OUpdate ns vm) c = fake_Update ns vm c"
| "fake_op (ODelete ns n) c =
     (case fake_Delete ns n c of (Returns err, c') \<Rightarrow> (Returns (None, err), c') | (Panics m, c') \<Rightarrow> (Panics m, c'))"

fun op_object :: "store_op \<Rightarrow> string \<times> string" where
  "op_object (OCreate ns vm) = (ns, vm_name vm)"
| "op_object (OUpdate ns vm) = (ns, vm_name vm)"
| "op_object (ODelete ns n) = (ns, n)"

definition op_result :: "store_op \<Rightarrow> store_map \<Rightarrow> virtual_machine option \<times> go_error option" where
  "op_result x m =
     (case map_op x m of
        (Some err, _) \<Rightarrow> (None, Some err)
      | (None, m') \<Rightarrow> (m' (op_object x), None))"

lemma put_result:
  assumes "map_put b vm ns m = (None, m')"
  shows "map_get ns (vm_name vm) m' = (m' (ns, vm_name vm), None)"
  using map_putD [OF assms] by (simp add: map_get_def)

lemma fake_put:
  assumes "simple_fake c" "ns \<noteq> []" "vm_name vm \<noteq> []" "tracker_add vm ns b (fk_tracker c) = (err, t')"
  shows "invoke_vm (if b then UpdateAction ns sub vm else CreateAction ns [] vm) c =
    (Returns (case map_put b vm ns (tracked (fk_tracker c)) of
        (Some err, _) \<Rightarrow> (None, Some err) | (None, m') \<Rightarrow> (m' (ns, vm_name vm), None)),
     c\<lparr>fk_actions := fk_actions c @ [if b then UpdateAction ns sub vm else CreateAction ns [] vm], fk_tracker := t'\<rparr>)"
proof -
  have ok: "tracker_ok (fk_tracker c)" using assms(1) by (simp add: simple_fake_def)
  have ref: "tracker_ok t'" "map_put b vm ns (tracked (fk_tracker c)) = (err, tracked t')"
    using tracker_add_refines [OF ok assms(4)] by blast+
  let ?a = "if b then UpdateAction ns sub vm else CreateAction ns [] vm"
  show ?thesis
  proof (cases err)
    case (Some e)
    then have "ObjectReaction ?a (fk_tracker c) = ((True, None, Some e), t')"
      using assms(4) by (cases b) (simp_all add: tracker_Create_def tracker_Update_def)
    from simple_Invokes [OF assms(1) this, of "FVM empty_vm"] Some ref(2) show ?thesis
      by (simp add: invoke_vm_def)
  next
    case None
    have "tracker_Get t' ns (vm_name vm) = (tracked t' (ns, vm_name vm), None)"
      using tracker_Get_refines [OF ref(1) assms(2,3)] put_result ref(2) None by simp
    then have "ObjectReaction ?a (fk_tracker c) = ((True, map_option FVM (tracked t' (ns, vm_name vm)), None), t')"
      using assms(4) None by (cases b) (simp_all add: tracker_Create_def tracker_Update_def)
    from simple_Invokes [OF assms(1) this, of "FVM empty_vm"] None ref(2) show ?thesis
      by (cases "tracked t' (ns, vm_name vm)") (simp_all add: invoke_vm_def)
  qed
qed

lemma fake_op_refines:
  assumes "simple_fake c" "fst (op_object x) \<noteq> []" "snd (op_object x) \<noteq> []"
  obtains c' where "fake_op x c = (Returns (op_result x (tracked (fk_tracker c))), c')"
    "simple_fake c'" "tracked (fk_tracker c') = snd (map_op x (tracked (fk_tracker c)))"
proof -
  let ?t = "fk_tracker c"
  note result = that
  have ok: "tracker_ok ?t" using assms(1) by (simp add: simple_fake_def)
  have put: thesis if x: "map_op x = map_put b vm ns" "op_object x = (ns, vm_name vm)"
      "fake_op x c = invoke_vm (if b then UpdateAction ns [] vm else CreateAction ns [] vm) c" for b vm ns
  proof -
    obtain err t' where add: "tracker_add vm ns b ?t = (err, t')" by fastforce
    from tracker_add_refines [OF ok add] have ref: "tracker_ok t'" "map_put b vm ns (tracked ?t) = (err, tracked t')"
      by blast+
    show thesis
    proof (rule result)
      show "fake_op x c = (Returns (op_result x (tracked ?t)),
          c\<lparr>fk_actions := fk_actions c @ [if b then UpdateAction ns [] vm else CreateAction ns [] vm], fk_tracker := t'\<rparr>)"
        using fake_put [OF assms(1) _ _ add, of "[]"] assms(2,3) unfolding x(3) op_result_def x(1,2) by simp
    qed (use assms(1) ref x(1) in \<open>simp_all add: simple_fake_def\<close>)
  qed
  show thesis
  proof (cases x)
    case (OCreate ns vm)
    then show ?thesis by (intro put [of False vm ns]) (simp_all add: fake_Create_def)
  next
    case (OUpdate ns vm)
    then show ?thesis by (intro put [of True vm ns]) (simp_all add: fake_Update_def)
  next
    case (ODelete ns n)
    obtain err t' where del: "tracker_Delete ns n ?t = (err, t')" by fastforce
    from tracker_Delete_refines [OF ok del] have ref: "tracker_ok t'" "map_delete ns n (tracked ?t) = (err, tracked t')"
      by blast+
    have "ObjectReaction (DeleteAction ns n) ?t = ((True, None, err), t')" using del by simp
    from simple_Invokes [OF assms(1) this, of "FVM empty_vm"] have res: "fake_op x c = (Returns (None, err),
        c\<lparr>fk_actions := fk_actions c @ [DeleteAction ns n], fk_tracker := t'\<rparr>)"
      by (simp add: ODelete fake_Delete_def)
    have "op_result x (tracked ?t) = (None, err)"
      using ref(2) by (cases err) (auto simp: ODelete op_result_def dest: map_deleteD)
    with res ref ODelete assms(1) show ?thesis
      by (intro that [of "c\<lparr>fk_actions := fk_actions c @ [DeleteAction ns n], fk_tracker := t'\<rparr>"]) (simp_all add: simple_fake_def)
  qed
qed

fun run_fake :: "store_op list \<Rightarrow> fake \<Rightarrow> (virtual_machine option \<times> go_error option) panicky list \<times> fake" where
  "run_fake [] c = ([], c)"
| "run_fake (x # xs) c = (case fake_op x c of (res, c') \<Rightarrow> (case run_fake xs c' of (rs, c'') \<Rightarrow> (res # rs, c'')))"

fun run_map :: "store_op list \<Rightarrow> store_map \<Rightarrow> (virtual_machine option \<times> go_error option) panicky list \<times> store_map" where
  "run_map [] m = ([], m)"
| "run_map (x # xs) m = (case run_map xs (snd (map_op x m)) of (rs, m') \<Rightarrow> (Returns (op_result x m) # rs, m'))"

lemma run_fake_refines:
  "simple_fake c \<Longrightarrow> list_all (\<lambda>x. fst (op_object x) \<noteq> [] \<and> snd (op_object x) \<noteq> []) xs \<Longrightarrow>
   run_map xs (tracked (fk_tracker c)) = (fst (run_fake xs c), tracked (fk_tracker (snd (run_fake xs c))))"
proof (induction xs arbitrary: c)
  case (Cons x xs)
  then have x: "fst (op_object x) \<noteq> []" "snd (op_object x) \<noteq> []" by simp_all
  obtain c' where c': "fake_op x c = (Returns (op_result x (tracked (fk_tracker c))), c')"
      "simple_fake c'" "tracked (fk_tracker c') = snd (map_op x (tracked (fk_tracker c)))"
    using fake_op_refines [OF Cons.prems(1) x] .
  with Cons.IH [OF c'(2)] Cons.prems(2) show ?case by (simp split: prod.split)
qed simp

text \<open>
  C22. The fake client set is a store of machines: any sequence of creations, updates and deletions,
  started on the objects it was made of, returns the results and leaves the contents that the same
  sequence has on a map from namespace and name to machines.
\<close>

theorem fake_refines_map:
  assumes "NewSimpleClientset objs = Returns cs"
    "list_all (\<lambda>x. fst (op_object x) \<noteq> [] \<and> snd (op_object x) \<noteq> []) xs"
  shows "run_map xs (tracked (fk_tracker (cs_Fake cs))) =
    (fst (run_fake xs (cs_Fake cs)), tracked (fk_tracker (snd (run_fake xs (cs_Fake cs)))))"
  using run_fake_refines NewSimpleClientset_simple [OF assms(1)] assms(2) by blast

theorem fake_refines_map_witness:
  "\<exists>cs. NewSimpleClientset [] = Returns cs \<and>
     fst (run_fake [OCreate ''ci'' (sample_vm None), ODelete ''ci'' ''vm'', ODelete ''ci'' ''vm''] (cs_Fake cs)) =
     [Returns (Some (sample_vm None), None), Returns (None, None),
      Returns (None, Some (NewNotFound virtualmachinesResource ''vm''))]"
proof -
  obtain cs where cs: "NewSimpleClientset [] = Returns cs"
    by (simp add: NewSimpleClientset_def Let_def)
  let ?ops = "[OCreate ''ci'' (sample_vm None), ODelete ''ci'' ''vm'', ODelete ''ci'' ''vm'']"
  have names: "vm_name (sample_vm None) = ''vm''" "vm_namespace (sample_vm None) = ''ci''"
    by (simp_all add: sample_vm_def)
  have "tracked (fk_tracker (cs_Fake cs)) = Map.empty"
    using cs by (auto simp: NewSimpleClientset_def Let_def AddReactor_def tracked_def NewObjectTracker_def fun_eq_iff)
  then have "fst (run_fake ?ops (cs_Fake cs)) = fst (run_map ?ops Map.empty)"
    using fake_refines_map [OF cs, of ?ops] by (simp add: names del: run_map.simps run_fake.simps)
  also have "\<dots> = [Returns (Some (sample_vm None), None), Returns (None, None),
      Returns (None, Some (NewNotFound virtualmachinesResource ''vm''))]"
    by (simp add: op_result_def map_put_def map_delete_def with_namespace_def names)
  finally show ?thesis using cs by blast
qed

text \<open>
  A patch or a deletion of a collection by the fake does nothing and reports success: the tracker
  is as it was, a patch returns an empty machine, and the only trace is the recorded action.
\<close>

theorem fake_patch_without_effect:
  assumes "NewSimpleClientset objs = Returns cs" "c = cs_Fake cs"
    "ExtractFromListOptions sel opts = Returns label"
  shows "fake_Patch ns n data subs c = (Returns (Some empty_vm, None),
      c\<lparr>fk_actions := [PatchAction ns n (path_Join subs) data]\<rparr>) \<and>
    fake_DeleteCollection sel ns opts c = (Returns None,
      c\<lparr>fk_actions := [DeleteCollectionAction ns (lo_labelSelector opts)]\<rparr>)"
proof -
  have c: "simple_fake c" "fk_actions c = []"
    using NewSimpleClientset_simple [OF assms(1)] assms(2) by simp_all
  have none: "Invokes a dflt c = ((Some dflt, None), c\<lparr>fk_actions := [a]\<rparr>)"
    if "\<exists>e. ObjectReaction a (fk_tracker c) = ((False, None, Some e), fk_tracker c)" for a dflt
  proof -
    note unhandled = that
    have "c\<lparr>fk_actions := [a], fk_tracker := fk_tracker c\<rparr> = c\<lparr>fk_actions := [a]\<rparr>" by (cases c) simp
    moreover obtain e where "ObjectReaction a (fk_tracker c) = ((False, None, Some e), fk_tracker c)"
      using unhandled by blast
    ultimately show ?thesis using simple_Invokes [OF c(1), of a False None "Some e" "fk_tracker c" dflt] c(2) by simp
  qed
  show ?thesis
    by (simp add: fake_Patch_def invoke_vm_def fake_DeleteCollection_def none assms(3) go_simps andthen_returns)
qed

definition any_selector :: selectors where
  "any_selector = \<lparr>ParseLabels = (\<lambda>_. Inl (\<lambda>_. True)), ParseFields = (\<lambda>_. None)\<rparr>"

theorem fake_patch_without_effect_witness:
  "\<exists>cs c'. NewSimpleClientset [FVM (sample_vm None)] = Returns cs \<and>
     fake_Patch ''ci'' ''vm'' ''[]'' [] (cs_Fake cs) = (Returns (Some empty_vm, None), c') \<and>
     fk_tracker c' = fk_tracker (cs_Fake cs)"
proof -
  obtain cs where cs: "NewSimpleClientset [FVM (sample_vm None)] = Returns cs"
    by (simp add: NewSimpleClientset_def Let_def tracker_add_def NewObjectTracker_def with_namespace_def sample_vm_def)
  have "ExtractFromListOptions any_selector no_list_options = Returns (\<lambda>_. True)"
    by (simp add: ExtractFromListOptions_def any_selector_def)
  from fake_patch_without_effect [OF cs refl this] cs show ?thesis by force
qed

text \<open>
  What the discovery client of a fake client set does is not recorded in the client set, which
  holds a copy of the recorder: its actions never show up among those of the client set.
\<close>

theorem fake_discovery_unrecorded:
  assumes "NewSimpleClientset objs = Returns cs"
  shows "fk_actions (fake_Ci (discovery_ServerResources cs)) = [] \<and>
    fk_actions (fake_Discovery (discovery_ServerResources cs)) = [DiscoveryAction ''resource'']"
proof -
  note new = NewSimpleClientset_simple [OF assms]
  have "fk_actions (snd (Invokes a dflt c)) = fk_actions c @ [a]" for a dflt c
    by (simp add: Invokes_def split: prod.split)
  with new show ?thesis by (simp add: discovery_ServerResources_def fake_Ci_def fake_Discovery_def)
qed

theorem fake_discovery_unrecorded_witness:
  "\<exists>cs. NewSimpleClientset [] = Returns cs \<and> fk_actions (fake_Ci (discovery_ServerResources cs)) = []"
proof -
  obtain cs where cs: "NewSimpleClientset [] = Returns cs"
    by (simp add: NewSimpleClientset_def Let_def)
  from fake_discovery_unrecorded [OF cs] cs show ?thesis by blast
qed

end
