(* ===== verification/Store_Passes.thy ===== *)
theory Store_Passes
  imports World_Invariants Fake_Client_Correct Sample_Passes
begin

text \<open>
  The reconciler over the fake client set: \<open>over_fake\<close> answers the reads and updates of machines of
  a pass from the store of \<open>Fake_Client\<close>, as a test that hands \<open>NewSimpleClientset\<close> to \<open>New\<close> does. The
  other services are as arbitrary as before, but do not touch the store (\<open>apart\<close>). This is where
  the protocol of a pass and the contents of a store meet: what a pass leaves behind.
\<close>

section \<open>The world of a pass with a store\<close>

record 'p faked =
  fd_fake :: fake
  fd_rest :: 'p

text \<open>An operation of the fake as an answer; its own panics are shown not to occur in \<open>fake_put_store\<close>.\<close>

definition ask_fake ::
    "(fake, virtual_machine option \<times> go_error option) go \<Rightarrow> 'p faked \<Rightarrow> (virtual_machine \<times> go_error option) \<times> 'p faked" where
  "ask_fake op e =
     (case op (fd_fake e) of
        (Returns (vm, err), c) \<Rightarrow> ((case vm of None \<Rightarrow> empty_vm | Some v \<Rightarrow> v, err), e\<lparr>fd_fake := c\<rparr>)
      | (Panics m, c) \<Rightarrow> ((empty_vm, Some (ErrorString m)), e\<lparr>fd_fake := c\<rparr>))"

definition over_fake :: "'p faked env \<Rightarrow> 'p faked env" where
  "over_fake env = env\<lparr>
     VMGet := (\<lambda>ns n. ask_fake (fake_Get ns n)),
     VMUpdate := (\<lambda>ns vm e. case ask_fake (fake_Update ns vm) e of ((_, err), e') \<Rightarrow> (err, e')),
     VMUpdateStatus := (\<lambda>ns vm e. case ask_fake (fake_UpdateStatus ns vm) e of ((_, err), e') \<Rightarrow> (err, e'))\<rparr>"

definition apart :: "'p faked env \<Rightarrow> bool" where
  "apart env =
     ((\<forall>p z n e. fd_fake (snd (InstancesDelete env p z n e)) = fd_fake e) \<and>
      (\<forall>p z n e. fd_fake (snd (InstancesGet env p z n e)) = fd_fake e) \<and>
      (\<forall>p z i e. fd_fake (snd (InstancesInsert env p z i e)) = fd_fake e) \<and>
      (\<forall>p z n m e. fd_fake (snd (SetMetadata env p z n m e)) = fd_fake e) \<and>
      (\<forall>p z n e. fd_fake (snd (ZoneOperationsGet env p z n e)) = fd_fake e) \<and>
      (\<forall>ns n e. fd_fake (snd (SecretGet env ns n e)) = fd_fake e) \<and>
      (\<forall>ns s e. fd_fake (snd (SecretCreate env ns s e)) = fd_fake e) \<and>
      (\<forall>b e. fd_fake (snd (GenerateKey env b e)) = fd_fake e) \<and>
      (\<forall>nw a d e. fd_fake (snd (DialTimeout env nw a d e)) = fd_fake e) \<and>
      (\<forall>c a u s e. fd_fake (snd (NewClientConn env c a u s e)) = fd_fake e) \<and>
      (\<forall>c e. fd_fake (snd (CloseConn env c e)) = fd_fake e))"

abbreviation stored :: "'p faked \<Rightarrow> store_map" where
  "stored e \<equiv> tracked (fk_tracker (fd_fake e))"

section \<open>The calls of a pass replayed on the store\<close>

text \<open>What an update makes of the store, and what all calls of a history make of it.\<close>

fun call_effect :: "call \<Rightarrow> store_map \<Rightarrow> store_map" where
  "call_effect (CVMUpdate ns vm err) m = snd (map_put True vm ns m)"
| "call_effect (CVMUpdateStatus ns vm err) m = snd (map_put True vm ns m)"
| "call_effect c m = m"

fun answered_by :: "store_map \<Rightarrow> call \<Rightarrow> bool" where
  "answered_by m (CVMGet ns n vm err) =
     (ns \<noteq> [] \<longrightarrow> n \<noteq> [] \<longrightarrow> err = snd (map_get ns n m) \<and> (err = None \<longrightarrow> m (ns, n) = Some vm))"
| "answered_by m (CVMUpdate ns vm err) =
     (ns \<noteq> [] \<longrightarrow> vm_name vm \<noteq> [] \<longrightarrow> err = fst (map_put True vm ns m))"
| "answered_by m (CVMUpdateStatus ns vm err) =
     (ns \<noteq> [] \<longrightarrow> vm_name vm \<noteq> [] \<longrightarrow> err = fst (map_put True vm ns m))"
| "answered_by m c = True"

fun replay :: "store_map \<Rightarrow> call list \<Rightarrow> store_map option" where
  "replay m [] = Some m"
| "replay m (c # cs) = (if answered_by m c then replay (call_effect c m) cs else None)"

lemma replay_append: "replay m (cs @ ds) = Option.bind (replay m cs) (\<lambda>m'. replay m' ds)"
  by (induction cs arbitrary: m) auto

definition in_step :: "store_map \<Rightarrow> call list \<Rightarrow> 'p faked \<Rightarrow> call list \<Rightarrow> bool" where
  "in_step m0 hs0 e hs =
     (simple_fake (fd_fake e) \<and> (\<exists>cs. hs = hs0 @ cs \<and> replay m0 cs = Some (stored e)))"

lemma in_step_call:
  assumes "in_step m0 hs0 e hs" "simple_fake (fd_fake e')" "answered_by (stored e) c"
    "stored e' = call_effect c (stored e)"
  shows "in_step m0 hs0 e' (hs @ [c])"
  using assms by (auto simp: in_step_def replay_append)

lemma in_step_elsewhere:
  assumes "in_step m0 hs0 e hs" "fd_fake e' = fd_fake e"
    "\<And>m. answered_by m c" "\<And>m. call_effect c m = m"
  shows "in_step m0 hs0 e' (hs @ [c])"
  by (rule in_step_call [OF assms(1)]) (use assms in \<open>auto simp: in_step_def\<close>)

section \<open>The operations of the fake on the store\<close>

lemma fake_read:
  assumes "simple_fake c" "fake_Get ns n c = (r, c')"
  obtains vm err where "r = Returns (vm, err)" "simple_fake c'" "fk_tracker c' = fk_tracker c"
    "ns \<noteq> [] \<Longrightarrow> n \<noteq> [] \<Longrightarrow> (vm, err) = map_get ns n (tracked (fk_tracker c))"
proof -
  obtain vm err where get: "tracker_Get (fk_tracker c) ns n = (vm, err)" by fastforce
  then have "ObjectReaction (GetAction ns n) (fk_tracker c) = ((True, map_option FVM vm, err), fk_tracker c)" by simp
  from simple_Invokes [OF assms(1) this, of "FVM empty_vm"] assms(2)
  have res: "r = Returns (vm, err)" "c' = c\<lparr>fk_actions := fk_actions c @ [GetAction ns n], fk_tracker := fk_tracker c\<rparr>"
    by (cases vm; simp add: fake_Get_def invoke_vm_def)+
  have ok: "tracker_ok (fk_tracker c)" using assms(1) by (simp add: simple_fake_def)
  show thesis
    by (rule that [OF res(1)])
      (use assms(1) get tracker_Get_refines [OF ok] in \<open>auto simp: res(2) simple_fake_def\<close>)
qed

lemma react_update:
  assumes "tracker_add vm ns True t = (e, t')"
  obtains res err where "ObjectReaction (UpdateAction ns sub vm) t = ((True, map_option FVM res, err), t')"
proof (cases e)
  case None
  obtain res err where "tracker_Get t' ns (vm_name vm) = (res, err)" by fastforce
  with assms None show thesis by (intro that [of res err]) (simp add: tracker_Update_def)
next
  case (Some e')
  with assms show thesis by (intro that [of None "Some e'"]) (simp add: tracker_Update_def)
qed

lemma fake_put_store:
  assumes "simple_fake c" "invoke_vm (UpdateAction ns sub vm) c = (r, c')"
  obtains res err where "r = Returns (res, err)" "simple_fake c'"
    "tracked (fk_tracker c') = snd (map_put True vm ns (tracked (fk_tracker c)))"
    "ns \<noteq> [] \<Longrightarrow> vm_name vm \<noteq> [] \<Longrightarrow> err = fst (map_put True vm ns (tracked (fk_tracker c)))"
proof -
  let ?t = "fk_tracker c" and ?a = "UpdateAction ns sub vm"
  have ok: "tracker_ok ?t" using assms(1) by (simp add: simple_fake_def)
  obtain e t' where add: "tracker_add vm ns True ?t = (e, t')" by fastforce
  from tracker_add_refines [OF ok add] have ref: "tracker_ok t'" "map_put True vm ns (tracked ?t) = (e, tracked t')"
    by blast+
  obtain res err where react: "ObjectReaction ?a ?t = ((True, map_option FVM res, err), t')"
    by (rule react_update [OF add])
  from simple_Invokes [OF assms(1) react, of "FVM empty_vm"] assms(2)
  have out: "r = Returns (res, err)" "c' = c\<lparr>fk_actions := fk_actions c @ [?a], fk_tracker := t'\<rparr>"
    by (cases res; simp add: invoke_vm_def)+
  have "err = e" if "ns \<noteq> []" "vm_name vm \<noteq> []"
    using fake_put [OF assms(1) that add, of sub] assms(2) out(1) ref(2) by (cases e) auto
  then show thesis
    using assms(1) ref by (intro that [OF out(1)]) (simp_all add: out(2) simple_fake_def)
qed

section \<open>A pass is in step with the store\<close>

lemma over_fake_sel [simp]:
  "VMGet (over_fake env) ns n = ask_fake (fake_Get ns n)"
  "VMUpdate (over_fake env) ns vm = (\<lambda>e. case ask_fake (fake_Update ns vm) e of ((_, err), e') \<Rightarrow> (err, e'))"
  "VMUpdateStatus (over_fake env) ns vm = (\<lambda>e. case ask_fake (fake_UpdateStatus ns vm) e of ((_, err), e') \<Rightarrow> (err, e'))"
  "InstancesDelete (over_fake env) = InstancesDelete env"
  "InstancesGet (over_fake env) = InstancesGet env"
  "InstancesInsert (over_fake env) = InstancesInsert env"
  "SetMetadata (over_fake env) = SetMetadata env"
  "ZoneOperationsGet (over_fake env) = ZoneOperationsGet env"
  "SecretGet (over_fake env) = SecretGet env"
  "SecretCreate (over_fake env) = SecretCreate env"
  "GenerateKey (over_fake env) = GenerateKey env"
  "DialTimeout (over_fake env) = DialTimeout env"
  "NewClientConn (over_fake env) = NewClientConn env"
  "CloseConn (over_fake env) = CloseConn env"
  "lag (over_fake env) = lag env"
  by (simp_all add: over_fake_def fun_eq_iff)

lemma keeps_get: "keeps (in_step m0 hs0) (vms_Get (over_fake env) ns n)"
  unfolding vms_Get_def over_fake_sel
proof (rule keeps_call_ext)
  fix e e' :: "'p faked" and cs r
  assume J: "in_step m0 hs0 e cs" and ask: "ask_fake (fake_Get ns n) e = (r, e')"
  have ok: "simple_fake (fd_fake e)" using J by (simp add: in_step_def)
  obtain res c' where get: "fake_Get ns n (fd_fake e) = (res, c')" by fastforce
  show "in_step m0 hs0 e' (cs @ [case r of (vm, err) \<Rightarrow> CVMGet ns n vm err])"
  proof (rule fake_read [OF ok get])
    fix vm err
    assume "res = Returns (vm, err)" "simple_fake c'" "fk_tracker c' = fk_tracker (fd_fake e)"
      "\<lbrakk>ns \<noteq> []; n \<noteq> []\<rbrakk> \<Longrightarrow> (vm, err) = map_get ns n (stored e)"
    with ask get show ?thesis
      by (intro in_step_call [OF J]) (auto simp: ask_fake_def map_get_def split: option.splits)
  qed
qed

lemma keeps_put:
  assumes "\<And>e. f e = (case ask_fake (invoke_vm (UpdateAction ns sub vm)) e of ((_, err), e') \<Rightarrow> (err, e'))"
    "ev \<in> {CVMUpdate ns vm, CVMUpdateStatus ns vm}"
  shows "keeps (in_step m0 hs0) (call_ext env f ev)"
proof (rule keeps_call_ext)
  fix e e' cs r
  assume J: "in_step m0 hs0 e cs" and f: "f e = (r, e')"
  have ok: "simple_fake (fd_fake e)" using J by (simp add: in_step_def)
  obtain res c' where put: "invoke_vm (UpdateAction ns sub vm) (fd_fake e) = (res, c')" by fastforce
  show "in_step m0 hs0 e' (cs @ [ev r])"
  proof (rule fake_put_store [OF ok put])
    fix vm' err
    assume "res = Returns (vm', err)" "simple_fake c'"
      "tracked (fk_tracker c') = snd (map_put True vm ns (stored e))"
      "\<lbrakk>ns \<noteq> []; vm_name vm \<noteq> []\<rbrakk> \<Longrightarrow> err = fst (map_put True vm ns (stored e))"
    with f put assms show ?thesis
      by (intro in_step_call [OF J]) (auto simp: ask_fake_def)
  qed
qed

lemma keeps_apart:
  assumes "\<And>e. fd_fake (snd (f e)) = fd_fake e" "\<And>r m. answered_by m (ev r)" "\<And>r m. call_effect (ev r) m = m"
  shows "keeps (in_step m0 hs0) (call_ext env f ev)"
  by (rule keeps_call_ext) (metis in_step_elsewhere assms snd_conv)

lemma over_fake_invariant:
  assumes "apart env"
  shows "world_invariant (over_fake env) (in_step m0 hs0)"
proof
  show "keeps (in_step m0 hs0) (time_Sleep (over_fake env) d)" for d
    by (auto simp: keeps_def kept_def time_Sleep_def intro: in_step_elsewhere)
  show "keeps (in_step m0 hs0) (vms_Get (over_fake env) ns n)" for ns n by (rule keeps_get)
  show "keeps (in_step m0 hs0) (vms_Update (over_fake env) ns vm)" for ns vm
    unfolding vms_Update_def over_fake_sel by (rule keeps_put [of _ ns "[]" vm]) (simp_all add: fake_Update_def)
  show "keeps (in_step m0 hs0) (vms_UpdateStatus (over_fake env) ns vm)" for ns vm
    unfolding vms_UpdateStatus_def over_fake_sel
    by (rule keeps_put [of _ ns "''status''" vm]) (simp_all add: fake_UpdateStatus_def)
qed (use assms in \<open>auto simp: apart_def client_defs intro!: keeps_apart\<close>)

definition store_in_step :: "'p faked env \<Rightarrow> store_map \<Rightarrow> call list \<Rightarrow> 'p faked \<Rightarrow> call list \<Rightarrow> bool" where
  "store_in_step env m0 hs0 e hs = (apart env \<longrightarrow> in_step m0 hs0 e hs)"

interpretation store_passes: world_invariant "over_fake env" "store_in_step env m0 hs0" for env m0 hs0
proof (cases "apart env")
  case True
  then have "store_in_step env m0 hs0 = in_step m0 hs0" by (simp add: fun_eq_iff store_in_step_def)
  with True over_fake_invariant [of env m0 hs0]
  show "world_invariant (over_fake env) (store_in_step env m0 hs0)" by simp
next
  case False
  then have "store_in_step env m0 hs0 = (\<lambda>_ _. True)" by (auto simp: fun_eq_iff store_in_step_def)
  with world_invariant_True [of "over_fake env"]
  show "world_invariant (over_fake env) (store_in_step env m0 hs0)" by simp
qed

text \<open>A pass and the store it leaves, as its calls replayed.\<close>

lemma pass_replayed:
  assumes "apart env" "simple_fake (fd_fake (ext w))" "reconcile (over_fake env) cfg key w = (r, w')"
  shows "simple_fake (fd_fake (ext w'))"
    "replay (stored (ext w)) (pass_calls (over_fake env) cfg key w) = Some (stored (ext w'))"
    "reconcile_run (over_fake env) cfg key (pass_calls (over_fake env) cfg key w) r"
proof -
  have "kept (store_in_step env (stored (ext w)) (hist w)) w'"
    by (rule keepsD [OF store_passes.reconcile_keeps assms(3)])
      (simp add: kept_def store_in_step_def in_step_def assms(2))
  then have st: "in_step (stored (ext w)) (hist w) (ext w') (hist w')"
    using assms(1) by (simp add: kept_def store_in_step_def)
  then show "simple_fake (fd_fake (ext w'))" by (simp add: in_step_def)
  from st obtain cs where cs: "hist w' = hist w @ cs" "replay (stored (ext w)) cs = Some (stored (ext w'))"
    by (auto simp: in_step_def)
  have "pass_calls (over_fake env) cfg key w = cs"
    using cs(1) assms(3) by (simp add: calls_of_def)
  with cs(2) show "replay (stored (ext w)) (pass_calls (over_fake env) cfg key w) = Some (stored (ext w'))" by simp
  show "reconcile_run (over_fake env) cfg key (pass_calls (over_fake env) cfg key w) r"
    using reconcile_obeys [of "over_fake env" cfg key w] assms(3) by simp
qed

section \<open>What a pass leaves in the store\<close>

lemma tracked_key: "tracked t (ns, n) = Some vm \<Longrightarrow> vm_namespace vm = ns \<and> vm_name vm = n"
  by (auto simp: tracked_def find_Some_iff object_key_def)

lemma mark_failed_names [simp]: "vm_name (mark_failed vm e) = vm_name vm" "vm_namespace (mark_failed vm e) = vm_namespace vm"
  by (simp_all add: mark_failed_def)

lemma put_own:
  assumes "m (ns, n) \<noteq> None" "ns \<noteq> []" "vm_namespace u = ns" "vm_name u = n"
  shows "map_put True u ns m = (None, m((ns, n) \<mapsto> u))"
  using assms by (simp add: map_put_def with_namespace_def Let_def)

text \<open>Calls that write objects of one kind only, all under one name.\<close>

fun writes :: "string \<Rightarrow> (virtual_machine \<Rightarrow> bool) \<Rightarrow> call \<Rightarrow> bool" where
  "writes ns Q (CVMUpdate ns' vm err) = (ns' = ns \<and> Q vm)"
| "writes ns Q (CVMUpdateStatus ns' vm err) = (ns' = ns \<and> Q vm)"
| "writes ns Q c = True"

lemma writes_effect:
  assumes "m (ns, n) \<noteq> None" "ns \<noteq> []" "\<And>u. Q u \<Longrightarrow> vm_namespace u = ns \<and> vm_name u = n" "writes ns Q c"
  shows "call_effect c m = m \<or> (\<exists>u. Q u \<and> call_effect c m = m((ns, n) \<mapsto> u))"
proof (cases "\<exists>u. Q u \<and> call_effect c m = snd (map_put True u ns m)")
  case True
  with put_own [of m ns n] assms show ?thesis by force
next
  case False
  with assms(4) show ?thesis by (cases c) auto
qed

lemma replay_writes:
  assumes "m (ns, n) = Some v" "Q v" "ns \<noteq> []" "\<And>u. Q u \<Longrightarrow> vm_namespace u = ns \<and> vm_name u = n"
    "list_all (writes ns Q) cs" "replay m cs = Some m'"
  shows "\<exists>v'. Q v' \<and> m' = m((ns, n) \<mapsto> v')"
  using assms(1,2,5,6)
proof (induction cs arbitrary: m v)
  case Nil
  then show ?case by (metis fun_upd_triv option.inject replay.simps(1))
next
  case (Cons c cs)
  have rest: "replay (call_effect c m) cs = Some m'" using Cons.prems(4) by (simp split: if_splits)
  have "call_effect c m = m \<or> (\<exists>u. Q u \<and> call_effect c m = m((ns, n) \<mapsto> u))"
    by (rule writes_effect) (use Cons.prems assms(3,4) in auto)
  then consider "call_effect c m = m" | u where "Q u" "call_effect c m = m((ns, n) \<mapsto> u)" by blast
  then show ?case
  proof cases
    case 1
    with rest Cons.prems show ?thesis by (intro Cons.IH) auto
  next
    case (2 u)
    have "\<exists>v'. Q v' \<and> m' = (m((ns, n) \<mapsto> u))((ns, n) \<mapsto> v')"
      by (rule Cons.IH [of "m((ns, n) \<mapsto> u)" u]) (use rest 2 Cons.prems(3) in \<open>simp_all del: fun_upd_apply, simp\<close>)
    then show ?thesis by (metis fun_upd_upd)
  qed
qed

text \<open>
  The object that a pass may leave, of the one it read: the same, one that is marked as failed, or
  the released one.
\<close>

definition kept_object :: "virtual_machine \<Rightarrow> virtual_machine \<Rightarrow> bool" where
  "kept_object vm v = (v = vm \<or> (\<exists>e. v = mark_failed vm e))"

definition left_of :: "virtual_machine \<Rightarrow> virtual_machine \<Rightarrow> bool" where
  "left_of vm v = (kept_object vm v \<or> being_deleted vm \<and> has_finalizer vm \<and> v = drop_finalizer vm)"

lemma kept_object_names: "kept_object vm v \<Longrightarrow> vm_namespace v = vm_namespace vm \<and> vm_name v = vm_name vm"
  by (auto simp: kept_object_def)

lemma left_of_names: "left_of vm v \<Longrightarrow> vm_namespace v = vm_namespace vm \<and> vm_name v = vm_name vm"
  by (auto simp: left_of_def drop_finalizer_rest kept_object_names)

lemma kept_object_finalizer: "kept_object vm v \<Longrightarrow> has_finalizer v = has_finalizer vm"
  by (auto simp: kept_object_def has_finalizer_def mark_failed_def)

lemma released_finalizer: "\<not> has_finalizer (drop_finalizer vm)"
  by (simp add: has_finalizer_def drop_finalizer_finalizers)

lemma drop_finalizer_deleted [simp]: "being_deleted (drop_finalizer vm) = being_deleted vm"
  by (simp add: being_deleted_def drop_finalizer_rest)

text \<open>What the calls of a pass write.\<close>

lemma delete_run_writes:
  assumes "delete_run cfg vm cs r" "vm_namespace vm = ns"
  shows "list_all (writes ns (kept_object vm)) cs"
proof -
  have "writes ns (kept_object vm) c" if "c \<in> set cs" for c
  proof (cases "cluster_change c")
    case True
    then have "concerns cfg ns vm c"
      using delete_run_concerns [OF assms(1), of ns] that by (simp add: list_all_iff set_effects)
    with delete_run_no_read [OF assms(1)] that assms(2) show ?thesis
      by (cases c) (auto simp: kept_object_def)
  qed (cases c; simp)
  then show ?thesis by (simp add: list_all_iff)
qed

lemma pass_writes:
  assumes "reconcile_run env cfg key cs r" "cs = CVMGet ns n vm None # rest" "vm_namespace vm = ns"
  shows "list_all (writes ns (left_of vm)) cs"
proof -
  have "writes ns (left_of vm) c" if c: "c \<in> set cs" for c
  proof (cases "cluster_change c")
    case True
    with c obtain ns' n' vm' rest' where own: "cs = CVMGet ns' n' vm' None # rest'" "concerns cfg ns' vm' c"
      using reconcile_run_concerns [OF assms(1), of c] by (auto simp: set_effects)
    with assms(2,3) pass_updates [OF assms(1)] c show ?thesis
      by (cases c) (auto simp: left_of_def kept_object_def)
  qed (cases c; simp)
  then show ?thesis by (simp add: list_all_iff)
qed

text \<open>What a pass starts from: the read of the object, answered by the store.\<close>

lemma pass_begins:
  assumes "reconcile_run env cfg key cs r" "SplitMetaNamespaceKey key = (ns, n, None)" "ns \<noteq> []" "n \<noteq> []"
    "replay m cs = Some m'"
  shows "\<exists>vm err rest. cs = CVMGet ns n vm err # rest \<and>
    (case m (ns, n) of
       None \<Rightarrow> rest = [] \<and> r = Returns None
     | Some v \<Rightarrow> vm = v \<and> err = None)"
  using assms
  by (elim reconcile_runE)
    (auto simp: map_get_def IsNotFound_def NewNotFound_def split: option.splits if_splits)

section \<open>What a pass leaves in the store\<close>

text \<open>
  Over a simple fake, a pass for the key of an object leaves every other object of the store
  as it is. If the store has no such object, nothing changes and the pass succeeds. If it has, the
  object stays in the store: unchanged, or marked as failed, or, only when it was being deleted and had
  the finalizer, without the finalizer.
\<close>

theorem pass_leaves_store:
  assumes "apart env" "simple_fake (fd_fake (ext w))" "SplitMetaNamespaceKey key = (ns, n, None)"
    "ns \<noteq> []" "n \<noteq> []" "reconcile (over_fake env) cfg key w = (r, w')"
  shows "simple_fake (fd_fake (ext w')) \<and>
    (case stored (ext w) (ns, n) of
       None \<Rightarrow> r = Returns None \<and> stored (ext w') = stored (ext w)
     | Some vm \<Rightarrow> \<exists>v. left_of vm v \<and> spec v = spec vm \<and> stored (ext w') = (stored (ext w))((ns, n) \<mapsto> v))"
proof -
  note pass = pass_replayed [OF assms(1,2,6)]
  obtain vm err rest where cs: "pass_calls (over_fake env) cfg key w = CVMGet ns n vm err # rest"
      "case stored (ext w) (ns, n) of None \<Rightarrow> rest = [] \<and> r = Returns None | Some v \<Rightarrow> vm = v \<and> err = None"
    using pass_begins [OF pass(3) assms(3-5) pass(2)] by blast
  show ?thesis
  proof (cases "stored (ext w) (ns, n)")
    case None
    with cs pass(1,2) show ?thesis by (simp split: if_splits)
  next
    case (Some v)
    with cs have read: "pass_calls (over_fake env) cfg key w = CVMGet ns n v None # rest" by simp
    note names = tracked_key [OF Some]
    have "\<exists>v'. left_of v v' \<and> stored (ext w') = (stored (ext w))((ns, n) \<mapsto> v')"
    proof (rule replay_writes [where v = v])
      show "stored (ext w) (ns, n) = Some v" by (rule Some)
      show "left_of v v" by (simp add: left_of_def kept_object_def)
      show "list_all (writes ns (left_of v)) (pass_calls (over_fake env) cfg key w)"
        by (rule pass_writes [OF pass(3) read]) (simp add: names)
      show "replay (stored (ext w)) (pass_calls (over_fake env) cfg key w) = Some (stored (ext w'))" by (rule pass(2))
    qed (use assms(4) names left_of_names [of v] in auto)
    moreover have "left_of v v' \<Longrightarrow> spec v' = spec v" for v'
      by (auto simp: left_of_def kept_object_def mark_failed_def drop_finalizer_rest)
    ultimately show ?thesis using Some pass(1) by auto
  qed
qed

section \<open>Release of a deleted object\<close>

lemma released_pass:
  assumes "reconcile_run env cfg key (CVMGet ns n vm None # rest) r" "being_deleted vm" "has_finalizer vm"
  obtains (kept) "delete_run cfg vm rest r" "r \<noteq> Returns None"
  | (updated) ds ue where "rest = ds @ [CVMUpdate ns (drop_finalizer vm) ue]" "r = Returns ue"
      "delete_run cfg vm ds (Returns None)"
  using assms by (elim reconcile_runE) auto

text \<open>A run over a stored object that is being deleted.\<close>

lemma release_iff:
  assumes run: "reconcile_run env cfg key (CVMGet ns n vm None # rest) r" and
    m: "m (ns, n) = Some vm" "vm_namespace vm = ns" "vm_name vm = n" "ns \<noteq> []" "n \<noteq> []" and
    vm: "being_deleted vm" "has_finalizer vm" and
    rep: "replay m (CVMGet ns n vm None # rest) = Some m'"
  shows "if r = Returns None then m' = m((ns, n) \<mapsto> drop_finalizer vm)
    else (\<forall>u ue. CVMUpdate ns u ue \<notin> set rest) \<and> (\<exists>v. kept_object vm v \<and> m' = m((ns, n) \<mapsto> v))"
proof -
  have still: "\<exists>v. kept_object vm v \<and> m1 = m((ns, n) \<mapsto> v)"
    if "delete_run cfg vm ds r1" "replay m ds = Some m1" for ds r1 m1
    using m(2,3) that(2)
    by (intro replay_writes [where Q = "kept_object vm" and v = vm and cs = ds] m(1,4)
        delete_run_writes [OF that(1)]) (auto simp: kept_object_def)
  have rest: "replay m rest = Some m'" using rep by (simp split: if_splits)
  from run vm show ?thesis
  proof (cases rule: released_pass)
    case kept
    with still [OF _ rest] delete_run_no_read show ?thesis by auto
  next
    case (updated ds ue)
    with rest obtain m1 where m1: "replay m ds = Some m1" "replay m1 [CVMUpdate ns (drop_finalizer vm) ue] = Some m'"
      by (auto simp: replay_append Option.bind_eq_Some_conv simp del: replay.simps)
    obtain v where v: "m1 = m((ns, n) \<mapsto> v)" using still [OF updated(3) m1(1)] by blast
    have "map_put True (drop_finalizer vm) ns m1 = (None, m1((ns, n) \<mapsto> drop_finalizer vm))"
      by (rule put_own) (use m v in \<open>simp_all add: drop_finalizer_rest\<close>)
    with m1(2) m updated(2) v show ?thesis by (simp add: drop_finalizer_rest split: if_splits)
  qed
qed

definition machine_absent :: "'e env \<Rightarrow> configuration \<Rightarrow> string \<Rightarrow> bool" where
  "machine_absent env cfg n =
     (\<forall>e. case fst (InstancesGet env (Project cfg) (Zone cfg) n e) of
        (i, None) \<Rightarrow> i = None
      | (i, Some err) \<Rightarrow> as_googleapi err = Some StatusNotFound)"

lemma deleteVM_absent:
  assumes "machine_absent env cfg (vm_name vm)"
  shows "fst (deleteVM env cfg vm w) = Returns None"
proof -
  obtain i err e where get: "InstancesGet env (Project cfg) (Zone cfg) (vm_name vm) (ext w) = ((i, err), e)"
    by (metis prod.collapse)
  with assms have "case err of None \<Rightarrow> i = None | Some e \<Rightarrow> as_googleapi e = Some StatusNotFound"
    by (auto simp: machine_absent_def dest: spec [of _ "ext w"] split: option.splits)
  with get show ?thesis
    by (cases err) (simp_all add: deleteVM_def gce_InstancesGet_def call_ext_def go_simps)
qed

lemma read_stored:
  assumes "simple_fake (fd_fake (ext w))" "stored (ext w) (ns, n) = Some vm" "ns \<noteq> []" "n \<noteq> []"
  obtains w1 where "vms_Get (over_fake env) ns n w = (Returns (vm, None), w1)" "hist w1 = hist w @ [CVMGet ns n vm None]"
proof -
  obtain r c' where get: "fake_Get ns n (fd_fake (ext w)) = (r, c')" by fastforce
  have "r = Returns (Some vm, None)"
  proof (rule fake_read [OF assms(1) get])
    fix vm' err
    assume "r = Returns (vm', err)" "\<lbrakk>ns \<noteq> []; n \<noteq> []\<rbrakk> \<Longrightarrow> (vm', err) = map_get ns n (stored (ext w))"
    with assms(2-4) show ?thesis by (simp add: map_get_def)
  qed
  with get have "ask_fake (fake_Get ns n) (ext w) = ((vm, None), (ext w)\<lparr>fd_fake := c'\<rparr>)"
    by (simp add: ask_fake_def)
  then show thesis by (intro that) (auto simp: vms_Get_def call_ext_def)
qed

lemma absent_pass_updates:
  assumes "machine_absent env cfg (vm_name vm)" "SplitMetaNamespaceKey key = (ns, n, None)"
    "vms_Get env ns n w = (Returns (vm, None), w1)" "hist w1 = hist w @ cs" "being_deleted vm" "has_finalizer vm"
  shows "\<exists>u ue. CVMUpdate ns u ue \<in> set (pass_calls env cfg key w)"
proof -
  obtain r w2 ds where del: "deleteVM env cfg vm w1 = (r, w2)" "hist w2 = hist w1 @ ds"
    using deleteVM_run [of env cfg vm w1] by blast
  then have r: "r = Returns None" using deleteVM_absent [OF assms(1), of w1] by simp
  obtain ue w3 where upd: "vms_Update env ns (drop_finalizer vm) w2 = (Returns ue, w3)"
      "hist w3 = hist w2 @ [CVMUpdate ns (drop_finalizer vm) ue]"
    by (rule vms_Update_returns)
  have "snd (reconcile env cfg key w) = w3"
    using assms(2,3,5,6) del(1) r upd(1)
    by (auto simp: reconcile_def being_deleted_def go_simps IsNotFound_def split: option.splits)
  with upd(2) del(2) assms(4) show ?thesis by (auto simp: calls_of_def)
qed

text \<open>
  C34. A pass for a stored object that is being deleted and has the finalizer succeeds exactly when
  it releases the object: on success the store holds the object without the finalizer, and the next
  pass only reads it and succeeds; otherwise the object keeps the finalizer, for the next attempt.
  When the machine is already gone, the pass succeeds.
\<close>

theorem deleted_object_released:
  assumes "apart env" "simple_fake (fd_fake (ext w))" "SplitMetaNamespaceKey key = (ns, n, None)"
    "ns \<noteq> []" "n \<noteq> []" "stored (ext w) (ns, n) = Some vm" "being_deleted vm" "has_finalizer vm"
    "reconcile (over_fake env) cfg key w = (r, w')" "reconcile (over_fake env) cfg key w' = (r2, w'')"
  shows "(if r = Returns None then
       stored (ext w') = (stored (ext w))((ns, n) \<mapsto> drop_finalizer vm) \<and> \<not> has_finalizer (drop_finalizer vm) \<and>
       pass_calls (over_fake env) cfg key w' = [CVMGet ns n (drop_finalizer vm) None] \<and>
       r2 = Returns None \<and> stored (ext w'') = stored (ext w')
     else \<exists>v. stored (ext w') = (stored (ext w))((ns, n) \<mapsto> v) \<and> has_finalizer v \<and> kept_object vm v) \<and>
    (machine_absent env cfg n \<longrightarrow> r = Returns None)"
proof -
  note first = pass_replayed [OF assms(1,2,9)] and names = tracked_key [OF assms(6)]
  obtain rest where cs: "pass_calls (over_fake env) cfg key w = CVMGet ns n vm None # rest"
    using pass_begins [OF first(3) assms(3-5) first(2)] assms(6) by auto
  have split: "if r = Returns None then stored (ext w') = (stored (ext w))((ns, n) \<mapsto> drop_finalizer vm)
    else (\<forall>u ue. CVMUpdate ns u ue \<notin> set rest) \<and>
      (\<exists>v. kept_object vm v \<and> stored (ext w') = (stored (ext w))((ns, n) \<mapsto> v))"
    using first(2,3) names assms(4-8) unfolding cs by (intro release_iff [where m = "stored (ext w)" and n = n]) auto
  have again: "pass_calls (over_fake env) cfg key w' = [CVMGet ns n (drop_finalizer vm) None] \<and>
      r2 = Returns None \<and> stored (ext w'') = stored (ext w')" if "r = Returns None"
  proof -
    note second = pass_replayed [OF assms(1) first(1) assms(10)]
    have "stored (ext w') (ns, n) = Some (drop_finalizer vm)" using split that by simp
    then obtain rest' where cs': "pass_calls (over_fake env) cfg key w' = CVMGet ns n (drop_finalizer vm) None # rest'"
      using pass_begins [OF second(3) assms(3-5) second(2)] by auto
    have "rest' = [] \<and> r2 = Returns None"
      using second(3) assms(7) unfolding cs' by (elim reconcile_runE) (auto simp: released_finalizer)
    with second(2) cs' show ?thesis by (simp split: if_splits)
  qed
  have "\<exists>u ue. CVMUpdate ns u ue \<in> set rest" if absent: "machine_absent env cfg n"
  proof -
    obtain w1 where get: "vms_Get (over_fake env) ns n w = (Returns (vm, None), w1)" "hist w1 = hist w @ [CVMGet ns n vm None]"
      by (rule read_stored [OF assms(2,6,4,5)])
    have "machine_absent (over_fake env) cfg (vm_name vm)" using absent names by (simp add: machine_absent_def)
    from absent_pass_updates [OF this assms(3) get assms(7,8)] show ?thesis unfolding cs by auto
  qed
  with split again kept_object_finalizer [of vm] assms(8) released_finalizer [of vm] show ?thesis by (auto split: if_splits)
qed

section \<open>Any number of passes\<close>

text \<open>Passes over any keys, one after the other, whatever each of them returned.\<close>

primrec passes :: "'e env \<Rightarrow> configuration \<Rightarrow> string list \<Rightarrow> 'e world \<Rightarrow> 'e world" where
  "passes env cfg [] w = w"
| "passes env cfg (key # keys) w = passes env cfg keys (snd (reconcile env cfg key w))"

definition object_keys :: "string list \<Rightarrow> bool" where
  "object_keys keys = list_all (\<lambda>key. case SplitMetaNamespaceKey key of
     (ns, n, None) \<Rightarrow> ns \<noteq> [] \<and> n \<noteq> [] | _ \<Rightarrow> True) keys"

text \<open>
  The same object as far as its owner is concerned: the reconciler may mark it as failed, and take its
  finalizer when it is being deleted.
\<close>

definition same_request :: "virtual_machine \<Rightarrow> virtual_machine \<Rightarrow> bool" where
  "same_request vm v =
     (object_key v = object_key vm \<and> spec v = spec vm \<and> being_deleted v = being_deleted vm \<and>
      (has_finalizer v = has_finalizer vm \<or> being_deleted vm \<and> \<not> has_finalizer v) \<and>
      (status v = status vm \<or> processingPhase (state (status v)) = ProcessingPhaseError))"

definition same_requests :: "store_map \<Rightarrow> store_map \<Rightarrow> bool" where
  "same_requests m m' = (\<forall>k. rel_option same_request (m k) (m' k))"

lemma same_requests_refl: "same_requests m m"
  by (auto simp: same_requests_def same_request_def intro: option.rel_refl)

lemma same_request_trans: "same_request a b \<Longrightarrow> same_request b c \<Longrightarrow> same_request a c"
  by (auto simp: same_request_def)

lemma same_requests_trans:
  assumes "same_requests m m1" "same_requests m1 m2"
  shows "same_requests m m2"
  unfolding same_requests_def
proof
  fix k
  show "rel_option same_request (m k) (m2 k)"
    using assms [unfolded same_requests_def, THEN spec, of k]
    by (cases "m k"; cases "m1 k"; cases "m2 k") (auto intro: same_request_trans)
qed

lemma left_of_same: "left_of vm v \<Longrightarrow> same_request vm v"
  by (auto simp: left_of_def kept_object_def same_request_def object_key_def drop_finalizer_rest
      released_finalizer has_finalizer_def being_deleted_def mark_failed_def)

lemma same_requests_upd:
  assumes "m k = Some vm" "left_of vm v"
  shows "same_requests m (m(k \<mapsto> v))"
  using assms left_of_same [OF assms(2)] same_requests_refl [of m] by (auto simp: same_requests_def)

lemma pass_same_requests:
  assumes "apart env" "simple_fake (fd_fake (ext w))" "object_keys [key]"
    "reconcile (over_fake env) cfg key w = (r, w')"
  shows "simple_fake (fd_fake (ext w')) \<and> same_requests (stored (ext w)) (stored (ext w')) \<and>
    (SplitMetaNamespaceKey key \<noteq> (ns, n, None) \<longrightarrow> stored (ext w') (ns, n) = stored (ext w) (ns, n))"
proof -
  note pass = pass_replayed [OF assms(1,2,4)]
  obtain ns' n' kerr where key: "SplitMetaNamespaceKey key = (ns', n', kerr)" by (metis prod_cases3)
  show ?thesis
  proof (cases kerr)
    case (Some e)
    then have "pass_calls (over_fake env) cfg key w = []"
      using pass(3) key by (elim reconcile_runE) auto
    with pass(1,2) show ?thesis by (simp add: same_requests_refl)
  next
    case None
    with key assms(3) have "ns' \<noteq> []" "n' \<noteq> []" by (auto simp: object_keys_def)
    from pass_leaves_store [OF assms(1,2) key [unfolded None] this assms(4)] key None show ?thesis
      by (auto simp: same_requests_refl intro: same_requests_upd split: option.splits)
  qed
qed

text \<open>
  C33. However often the reconciler is run, over whatever keys and with whatever answers of the other
  services, the objects of the store stay the requests that their owners made: none is created
  or deleted, no specification changes, a finalizer goes only from an object that is being deleted, a
  status only becomes a failure, and an object whose key is not among those that were run is untouched.
\<close>

theorem passes_keep_requests:
  assumes "apart env" "simple_fake (fd_fake (ext w))" "object_keys keys"
  shows "same_requests (stored (ext w)) (stored (ext (passes (over_fake env) cfg keys w))) \<and>
    ((ns, n, None) \<notin> SplitMetaNamespaceKey ` set keys \<longrightarrow>
       stored (ext (passes (over_fake env) cfg keys w)) (ns, n) = stored (ext w) (ns, n))"
  using assms(2,3)
proof (induction keys arbitrary: w)
  case (Cons key keys)
  obtain r w1 where pass: "reconcile (over_fake env) cfg key w = (r, w1)" by fastforce
  from Cons.prems(2) have ok: "object_keys [key]" "object_keys keys" by (simp_all add: object_keys_def)
  note first = pass_same_requests [OF assms(1) Cons.prems(1) ok(1) pass, of ns n]
  with Cons.IH [OF _ ok(2), of w1] pass show ?case by (auto intro: same_requests_trans)
qed (simp add: same_requests_refl)

section \<open>Witnesses\<close>

definition sample_store_env :: "unit faked env" where
  "sample_store_env =
     \<lparr>InstancesDelete = (\<lambda>p z n e. ((Some (an_operation ''RUNNING''), None), e)),
      InstancesGet = (\<lambda>p z n e. ((None, None), e)),
      InstancesInsert = (\<lambda>p z i e. ((Some (an_operation ''RUNNING''), None), e)),
      SetMetadata = (\<lambda>p z i m e. ((Some (an_operation ''RUNNING''), None), e)),
      ZoneOperationsGet = (\<lambda>p z n e. ((Some (an_operation ''DONE''), None), e)),
      VMGet = (\<lambda>ns n e. ((empty_vm, None), e)),
      VMUpdate = (\<lambda>ns v e. (None, e)),
      VMUpdateStatus = (\<lambda>ns v e. (None, e)),
      SecretGet = (\<lambda>ns n e. (None, e)),
      SecretCreate = (\<lambda>ns s e. (None, e)),
      GenerateKey = (\<lambda>b e. ((''key'', None), e)),
      PEMEncode = (\<lambda>k. (''pem'', None)),
      NewPublicKey = (\<lambda>k. (''pub'', None)),
      MarshalAuthorizedKey = (\<lambda>k. ''ssh-rsa AAAA''),
      ParsePrivateKey = (\<lambda>k. (''signer'', None)),
      DialTimeout = (\<lambda>nw a t e. ((''conn'', None), e)),
      NewClientConn = (\<lambda>c a u s e. ((''client'', None), e)),
      CloseConn = (\<lambda>c e. (None, e)),
      pick_done = (\<lambda>e. True),
      lag = (\<lambda>e. 1)\<rparr>"

lemma sample_apart: "apart sample_store_env"
  by (simp add: apart_def sample_store_env_def)

text \<open>The store with the object that is being deleted, as \<open>NewSimpleClientset\<close> makes it.\<close>

lemma sample_store:
  obtains cs where "NewSimpleClientset [FVM deleted_vm] = Returns cs"
    "simple_fake (cs_Fake cs)" "tracked (fk_tracker (cs_Fake cs)) = [(''ci'', ''vm'') \<mapsto> deleted_vm]"
proof -
  have names: "vm_name deleted_vm = ''vm''" "vm_namespace deleted_vm = ''ci''" by (simp_all add: sample_vm_def)
  obtain cs where cs: "NewSimpleClientset [FVM deleted_vm] = Returns cs" "tk_objects (fk_tracker (cs_Fake cs)) = [deleted_vm]"
    by (simp add: NewSimpleClientset_def Let_def tracker_add_def NewObjectTracker_def with_namespace_def AddReactor_def names)
  have "tracked (fk_tracker (cs_Fake cs)) = [(''ci'', ''vm'') \<mapsto> deleted_vm]"
    by (auto simp: fun_eq_iff tracked_def cs(2) object_key_def names)
  with cs(1) NewSimpleClientset_simple [OF cs(1)] show thesis by (intro that) simp_all
qed

definition store_world :: "fake \<Rightarrow> unit faked world" where
  "store_world c = \<lparr>ext = \<lparr>fd_fake = c, fd_rest = ()\<rparr>, clock = 0, hist = []\<rparr>"

lemma sample_split: "SplitMetaNamespaceKey sample_key = (''ci'', ''vm'', None)"
  by code_simp

theorem passes_keep_requests_witness:
  "\<exists>cs v. NewSimpleClientset [FVM deleted_vm] = Returns cs \<and> same_request deleted_vm v \<and>
     stored (ext (passes (over_fake sample_store_env) sample_cfg [sample_key, sample_key] (store_world (cs_Fake cs))))
       (''ci'', ''vm'') = Some v"
proof -
  obtain cs where cs: "NewSimpleClientset [FVM deleted_vm] = Returns cs" "simple_fake (cs_Fake cs)"
      "tracked (fk_tracker (cs_Fake cs)) = [(''ci'', ''vm'') \<mapsto> deleted_vm]"
    by (rule sample_store)
  have "simple_fake (fd_fake (ext (store_world (cs_Fake cs))))" "object_keys [sample_key, sample_key]"
    using cs(2) by (simp_all add: store_world_def object_keys_def sample_split)
  from passes_keep_requests [OF sample_apart this, THEN conjunct1, of sample_cfg, unfolded same_requests_def, THEN spec,
      of "(''ci'', ''vm'')"] cs(1,3)
  show ?thesis by (auto simp: store_world_def rel_option_iff split: option.splits)
qed

theorem deleted_object_released_witness:
  "\<exists>cs w' w''. NewSimpleClientset [FVM deleted_vm] = Returns cs \<and>
     reconcile (over_fake sample_store_env) sample_cfg sample_key (store_world (cs_Fake cs)) = (Returns None, w') \<and>
     reconcile (over_fake sample_store_env) sample_cfg sample_key w' = (Returns None, w'') \<and>
     stored (ext w'') = [(''ci'', ''vm'') \<mapsto> drop_finalizer deleted_vm]"
proof -
  obtain cs where cs: "NewSimpleClientset [FVM deleted_vm] = Returns cs" "simple_fake (cs_Fake cs)"
      "tracked (fk_tracker (cs_Fake cs)) = [(''ci'', ''vm'') \<mapsto> deleted_vm]"
    by (rule sample_store)
  let ?w = "store_world (cs_Fake cs)"
  obtain r w' where first: "reconcile (over_fake sample_store_env) sample_cfg sample_key ?w = (r, w')" by fastforce
  obtain r2 w'' where second: "reconcile (over_fake sample_store_env) sample_cfg sample_key w' = (r2, w'')" by fastforce
  have vm: "being_deleted deleted_vm" "has_finalizer deleted_vm" by code_simp+
  have store: "stored (ext ?w) (''ci'', ''vm'') = Some deleted_vm" "simple_fake (fd_fake (ext ?w))"
      "stored (ext ?w) = [(''ci'', ''vm'') \<mapsto> deleted_vm]"
    using cs by (simp_all add: store_world_def)
  have "machine_absent sample_store_env sample_cfg ''vm''" by (simp add: machine_absent_def sample_store_env_def)
  with deleted_object_released [OF sample_apart store(2) sample_split _ _ store(1) vm first second] first second cs(1) store(3)
  show ?thesis by auto
qed

end
