(* ===== verification/Settled_Passes.thy ===== *)
theory Settled_Passes
  imports Store_Passes
begin

text \<open>
  Secrets over many passes. The API server keeps a secret that it has accepted (\<open>secrets_stay\<close>, the
  behaviour that the operator relies on to tell a finished machine from a half-made one). Then a
  machine whose key was published is settled: no later pass renews the key.
\<close>

section \<open>Secrets that stay\<close>

text \<open>
  \<open>found ns n e\<close> says that the state \<open>e\<close> of the services has the secret: it is found by a lookup, holds
  once a creation was accepted, and no call of the operator ends it.
\<close>

definition secrets_stay :: "'e env \<Rightarrow> (string \<Rightarrow> string \<Rightarrow> 'e \<Rightarrow> bool) \<Rightarrow> bool" where
  "secrets_stay env found =
     ((\<forall>ns n e. found ns n e \<longrightarrow> fst (SecretGet env ns n e) = None) \<and>
      (\<forall>ns s e e'. SecretCreate env ns s e = (None, e') \<longrightarrow> found ns (sec_name s) e') \<and>
      (\<forall>ns n e. found ns n e \<longrightarrow>
         (\<forall>p z m. found ns n (snd (InstancesDelete env p z m e))) \<and>
         (\<forall>p z m. found ns n (snd (InstancesGet env p z m e))) \<and>
         (\<forall>p z i. found ns n (snd (InstancesInsert env p z i e))) \<and>
         (\<forall>p z m md. found ns n (snd (SetMetadata env p z m md e))) \<and>
         (\<forall>p z m. found ns n (snd (ZoneOperationsGet env p z m e))) \<and>
         (\<forall>ns' m. found ns n (snd (VMGet env ns' m e))) \<and>
         (\<forall>ns' vm. found ns n (snd (VMUpdate env ns' vm e))) \<and>
         (\<forall>ns' vm. found ns n (snd (VMUpdateStatus env ns' vm e))) \<and>
         (\<forall>ns' m. found ns n (snd (SecretGet env ns' m e))) \<and>
         (\<forall>ns' s. found ns n (snd (SecretCreate env ns' s e))) \<and>
         (\<forall>b. found ns n (snd (GenerateKey env b e))) \<and>
         (\<forall>nw a d. found ns n (snd (DialTimeout env nw a d e))) \<and>
         (\<forall>c a u s. found ns n (snd (NewClientConn env c a u s e))) \<and>
         (\<forall>c. found ns n (snd (CloseConn env c e)))))"

text \<open>
  A history in which a lookup of the secret never fails once its creation was accepted; \<open>b\<close> says
  whether it was.
\<close>

fun publishes :: "string \<Rightarrow> string \<Rightarrow> call \<Rightarrow> bool" where
  "publishes ns n (CSecretCreate ns' s None) = (ns' = ns \<and> sec_name s = n)"
| "publishes ns n c = False"

fun misses :: "string \<Rightarrow> string \<Rightarrow> call \<Rightarrow> bool" where
  "misses ns n (CSecretGet ns' m (Some e)) = (ns' = ns \<and> m = n)"
| "misses ns n c = False"

fun unmissed :: "string \<Rightarrow> string \<Rightarrow> bool \<Rightarrow> call list \<Rightarrow> bool" where
  "unmissed ns n b [] = True"
| "unmissed ns n b (c # cs) = (\<not> (b \<and> misses ns n c) \<and> unmissed ns n (b \<or> publishes ns n c) cs)"

lemma unmissed_append:
  "unmissed ns n b (cs @ ds) \<longleftrightarrow> unmissed ns n b cs \<and> unmissed ns n (b \<or> list_ex (publishes ns n) cs) ds"
  by (induction cs arbitrary: b) (auto simp: ac_simps)

lemma unmissed_hits: "unmissed ns n True cs \<Longrightarrow> CSecretGet ns n err \<in> set cs \<Longrightarrow> err = None"
  by (induction cs) (auto split: option.splits, (cases err; simp)+)

definition recorded :: "(string \<Rightarrow> string \<Rightarrow> 'e \<Rightarrow> bool) \<Rightarrow> string \<Rightarrow> string \<Rightarrow> call list \<Rightarrow> 'e \<Rightarrow> call list \<Rightarrow> bool" where
  "recorded found ns n hs0 e hs =
     (\<exists>cs. hs = hs0 @ cs \<and> unmissed ns n False cs \<and> (list_ex (publishes ns n) cs \<longrightarrow> found ns n e))"

lemma recorded_call:
  assumes "recorded found ns n hs0 e hs" "found ns n e \<Longrightarrow> \<not> misses ns n c"
    "found ns n e \<or> publishes ns n c \<Longrightarrow> found ns n e'"
  shows "recorded found ns n hs0 e' (hs @ [c])"
  using assms by (auto simp: recorded_def unmissed_append)

lemma keeps_recorded:
  assumes "\<And>e. found ns n e \<Longrightarrow> found ns n (snd (f e))"
    "\<And>r. \<not> misses ns n (ev r)" "\<And>r. \<not> publishes ns n (ev r)"
  shows "keeps (recorded found ns n hs0) (call_ext env f ev)"
  by (rule keeps_call_ext) (metis recorded_call assms snd_conv)

lemma secrets_stay_invariant:
  assumes "secrets_stay env found"
  shows "world_invariant env (recorded found ns n hs0)"
proof
  show "keeps (recorded found ns n hs0) (time_Sleep env d)" for d
    by (auto simp: keeps_def kept_def time_Sleep_def intro: recorded_call)
  show "keeps (recorded found ns n hs0) (secrets_Get env ns' m)" for ns' m
    unfolding secrets_Get_def
  proof (rule keeps_call_ext)
    fix e cs r e'
    assume J: "recorded found ns n hs0 e cs" and get: "SecretGet env ns' m e = (r, e')"
    show "recorded found ns n hs0 e' (cs @ [CSecretGet ns' m r])"
      by (rule recorded_call [OF J]) (use assms get in \<open>cases r; auto simp: secrets_stay_def; metis fst_conv snd_conv option.distinct(1)\<close>)+
  qed
  show "keeps (recorded found ns n hs0) (secrets_Create env ns' s)" for ns' s
    unfolding secrets_Create_def
  proof (rule keeps_call_ext)
    fix e cs r e'
    assume J: "recorded found ns n hs0 e cs" and new: "SecretCreate env ns' s e = (r, e')"
    show "recorded found ns n hs0 e' (cs @ [CSecretCreate ns' s r])"
      by (rule recorded_call [OF J]) (use assms new in \<open>cases r; auto simp: secrets_stay_def; metis snd_conv\<close>)+
  qed
qed (use assms in \<open>auto simp: secrets_stay_def client_defs intro!: keeps_recorded\<close>)

definition secret_recorded ::
    "'e env \<Rightarrow> (string \<Rightarrow> string \<Rightarrow> 'e \<Rightarrow> bool) \<Rightarrow> string \<Rightarrow> string \<Rightarrow> call list \<Rightarrow> 'e \<Rightarrow> call list \<Rightarrow> bool" where
  "secret_recorded env found ns n hs0 e hs = (secrets_stay env found \<longrightarrow> recorded found ns n hs0 e hs)"

interpretation secrets: world_invariant env "secret_recorded env found ns n hs0" for env found ns n hs0
proof (cases "secrets_stay env found")
  case True
  then have "secret_recorded env found ns n hs0 = recorded found ns n hs0" by (simp add: fun_eq_iff secret_recorded_def)
  with True secrets_stay_invariant [of env found ns n hs0]
  show "world_invariant env (secret_recorded env found ns n hs0)" by simp
next
  case False
  then have "secret_recorded env found ns n hs0 = (\<lambda>_ _. True)" by (auto simp: fun_eq_iff secret_recorded_def)
  with world_invariant_True [of env] show "world_invariant env (secret_recorded env found ns n hs0)" by simp
qed

text \<open>The invariant over many passes, and the history they leave.\<close>

lemma passes_keep: "(\<And>key. keeps J (reconcile env cfg key)) \<Longrightarrow> kept J w \<Longrightarrow> kept J (passes env cfg keys w)"
  by (induction keys arbitrary: w) (auto simp: keeps_def)

lemma passes_extend: "\<exists>cs. hist (passes env cfg keys w) = hist w @ cs"
proof (induction keys arbitrary: w)
  case (Cons key keys)
  obtain cs where "hist (snd (reconcile env cfg key w)) = hist w @ cs"
    using reconcile_follows_run [of env cfg key w] by force
  with Cons [of "snd (reconcile env cfg key w)"] show ?case by auto
qed simp

section \<open>A published key stays\<close>

lemma settled_run:
  assumes "ensure_run env cfg vm es r"
    "\<And>err. CSecretGet (vm_namespace vm) (vm_name vm) err \<in> set es \<Longrightarrow> err = None"
  shows "CSetMetadata p z m md op e \<notin> set es \<and>
    (\<forall>p z m i err rest. es = CInstancesGet p z m (Some i) err # rest \<longrightarrow>
       rest = [CSecretGet (vm_namespace vm) (vm_name vm) None] \<and> r = Returns None)"
  using assms(1)
proof (cases rule: ensure_run.cases)
  case (created err cs)
  with insertion_never_renews [OF created(3)] show ?thesis by auto
qed (use assms(2) in auto)

lemma history_of_secret:
  assumes "secrets_stay env found" "CSecretCreate ns s None \<in> set (pass_calls env cfg key w)"
    "w2 = passes env cfg keys (snd (reconcile env cfg key w))"
    "CSecretGet ns (sec_name s) err \<in> set (pass_calls env cfg key' w2)"
  shows "err = None"
proof -
  let ?w1 = "snd (reconcile env cfg key w)" and ?w3 = "snd (reconcile env cfg key' w2)" and ?n = "sec_name s"
  let ?J = "secret_recorded env found ns ?n (hist w)"
  have step: "kept ?J v \<Longrightarrow> kept ?J (snd (reconcile env cfg k v))" for k v
    using secrets.reconcile_keeps [of env found ns ?n "hist w" cfg k] by (simp add: keeps_def)
  have "kept ?J w" by (simp add: kept_def secret_recorded_def recorded_def)
  then have "kept ?J ?w1" by (rule step)
  then have "kept ?J w2" unfolding assms(3) by (rule passes_keep [OF secrets.reconcile_keeps])
  then have "kept ?J ?w3" by (rule step)
  then have rec: "recorded found ns ?n (hist w) (ext ?w3) (hist ?w3)"
    using assms(1) by (simp add: kept_def secret_recorded_def)
  have first: "hist ?w1 = hist w @ pass_calls env cfg key w" and third: "hist ?w3 = hist w2 @ pass_calls env cfg key' w2"
    using reconcile_follows_run [of env cfg key w] reconcile_follows_run [of env cfg key' w2]
    by (auto simp: calls_of_def)
  obtain mid where "hist w2 = hist ?w1 @ mid" using passes_extend assms(3) by blast
  with first third rec have "unmissed ns ?n False (pass_calls env cfg key w @ mid @ pass_calls env cfg key' w2)"
    by (simp add: recorded_def)
  moreover have "list_ex (publishes ns ?n) (pass_calls env cfg key w)"
    using assms(2) by (auto simp: list_ex_iff intro: bexI [of _ "CSecretCreate ns s None"])
  ultimately have "unmissed ns ?n True (pass_calls env cfg key' w2)" by (simp add: unmissed_append)
  from unmissed_hits [OF this assms(4)] show ?thesis .
qed

text \<open>
  C32. Once a pass has published the key of a machine, the key stays, if the API server keeps what it
  accepted: after any further passes over any keys, a pass for the same object never renews
  the key, and when it finds the machine it only looks at the machine and the secret and
  succeeds.
\<close>

theorem published_key_stays:
  assumes "secrets_stay env found" "CSecretCreate (vm_namespace vm) s None \<in> set (pass_calls env cfg key w)"
    "sec_name s = vm_name vm" "w2 = passes env cfg keys (snd (reconcile env cfg key w))"
    "pass_calls env cfg key' w2 = CVMGet ns n vm None # rest" "\<not> being_deleted vm"
  shows "(\<forall>p z m md op e. CSetMetadata p z m md op e \<notin> set rest) \<and>
    (\<forall>p z m i err rest'. rest = CInstancesGet p z m (Some i) err # rest' \<longrightarrow>
       rest' = [CSecretGet (vm_namespace vm) (vm_name vm) None] \<and> fst (reconcile env cfg key' w2) = Returns None)"
proof -
  have "reconcile_run env cfg key' (CVMGet ns n vm None # rest) (fst (reconcile env cfg key' w2))"
    using reconcile_obeys [of env cfg key' w2] by (simp only: assms(5))
  then have run: "ensure_run env cfg vm rest (fst (reconcile env cfg key' w2))"
    using assms(6) by (elim reconcile_runE) auto
  have hit: "err = None" if "CSecretGet (vm_namespace vm) (vm_name vm) err \<in> set rest" for err
    using that by (intro history_of_secret [OF assms(1,2,4), of err key']) (simp add: assms(3,5))
  show ?thesis using settled_run [OF run hit] by auto
qed

section \<open>Witness\<close>

text \<open>A world whose secret is stored from its tenth state on, which the creation reaches.\<close>

definition sample_secret_env :: "nat env" where
  "sample_secret_env = (sample_env live_vm)\<lparr>
     SecretGet := (\<lambda>ns n e. (if 10 \<le> e then None else Some (StatusError ''NotFound'' ''no secret''), Suc e)),
     SecretCreate := (\<lambda>ns s e. (None, e + 10))\<rparr>"

lemma sample_secrets_stay: "secrets_stay sample_secret_env (\<lambda>ns n e. 10 \<le> e)"
  by (simp add: secrets_stay_def sample_secret_env_def sample_env_def)

definition published_world :: "nat world" where
  "published_world = snd (reconcile sample_secret_env sample_cfg sample_key sample_world)"

lemma publishing_pass:
  "CSecretCreate ''ci'' (ssh_secret live_vm ''pem'' ''ssh-rsa AAAA'' an_instance ''10.0.0.1'') None
     \<in> set (pass_calls sample_secret_env sample_cfg sample_key sample_world)"
  by code_simp

lemma settled_pass:
  "pass_calls sample_secret_env sample_cfg sample_key published_world =
     CVMGet ''ci'' ''vm'' live_vm None #
       [CInstancesGet ''p'' ''z'' ''vm'' (Some an_instance) None, CSecretGet ''ci'' ''vm'' None]"
  by code_simp

theorem published_key_stays_witness:
  "fst (reconcile sample_secret_env sample_cfg sample_key published_world) = Returns None"
proof -
  have vm: "vm_namespace live_vm = ''ci''" "\<not> being_deleted live_vm" by code_simp+
  have name: "sec_name (ssh_secret live_vm ''pem'' ''ssh-rsa AAAA'' an_instance ''10.0.0.1'') = vm_name live_vm"
    by (simp add: ssh_secret_def)
  have "published_world = passes sample_secret_env sample_cfg [] (snd (reconcile sample_secret_env sample_cfg sample_key sample_world))"
    by (simp add: published_world_def)
  from published_key_stays [OF sample_secrets_stay publishing_pass [folded vm(1)] name this settled_pass vm(2)]
  show ?thesis by simp
qed

end
