(* ===== verification/Schemes.thy ===== *)
theory Schemes
  imports Typed_Client
begin

text \<open>
  The registration of the API types: \<open>pkg/apis/virtualmachines/v1alpha1/register.go\<close>, the schemes of the
  client set, of its fake and of the admission controller, and the part of
  \<open>apimachinery/pkg/runtime/scheme.go\<close> they use. A Go type is its package and name, every object is
  a pointer to a struct, and a type without kinds has the empty list; conversions and defaults are
  left out.
\<close>

section \<open>Schemes\<close>

datatype go_type = GoType (t_pkg: string) (t_name: string)

record group_version_kind =
  k_Group :: string
  k_Version :: string
  k_Kind :: string

definition WithKind :: "group_version \<Rightarrow> string \<Rightarrow> group_version_kind" where
  "WithKind gv name = \<lparr>k_Group = gv_Group gv, k_Version = gv_Version gv, k_Kind = name\<rparr>"

definition gvk_String :: "group_version_kind \<Rightarrow> string" where
  "gvk_String gvk = k_Group gvk @ ''/'' @ k_Version gvk @ '', Kind='' @ k_Kind gvk"

definition gv_String :: "group_version \<Rightarrow> string" where
  "gv_String gv =
     (if gv_Group gv = [] \<and> gv_Version gv = [] then []
      else if gv_Group gv = [] \<and> gv_Version gv = ''v1'' then gv_Version gv
      else if gv_Group gv \<noteq> [] then gv_Group gv @ ''/'' @ gv_Version gv
      else gv_Version gv)"

text \<open>A type is printed with the name of its package, which is the last element of its path.\<close>

definition type_text :: "go_type \<Rightarrow> string" where
  "type_text t = t_pkg t @ ''.'' @ t_name t"

definition type_String :: "go_type \<Rightarrow> string" where
  "type_String t = path_base (t_pkg t) @ ''.'' @ t_name t"

record scheme =
  gvkToType :: "group_version_kind \<Rightarrow> go_type option"
  typeToGVK :: "go_type \<Rightarrow> group_version_kind list"
  unversionedTypes :: "go_type \<Rightarrow> group_version_kind option"
  unversionedKinds :: "string \<Rightarrow> go_type option"

definition NewScheme :: scheme where
  "NewScheme = \<lparr>gvkToType = Map.empty, typeToGVK = (\<lambda>_. []), unversionedTypes = Map.empty,
     unversionedKinds = Map.empty\<rparr>"

type_synonym registering = "(scheme, unit) go"

definition AddKnownTypeWithName :: "group_version_kind \<Rightarrow> go_type \<Rightarrow> registering" where
  "AddKnownTypeWithName gvk t = (\<lambda>s.
     if length (k_Version gvk) = 0 then
       (Panics (''version is required on all types: '' @ gvk_String gvk @ '' *'' @ type_String t), s)
     else if gvkToType s gvk \<noteq> None \<and> gvkToType s gvk \<noteq> Some t then
       (Panics (''Double registration of different types for '' @ gvk_String gvk @ '': old='' @
          type_text (the (gvkToType s gvk)) @ '', new='' @ type_text t), s)
     else
       let s = s\<lparr>gvkToType := (gvkToType s)(gvk \<mapsto> t)\<rparr>
       in if gvk \<in> set (typeToGVK s t) then (Returns (), s)
          else (Returns (), s\<lparr>typeToGVK := (typeToGVK s)(t := typeToGVK s t @ [gvk])\<rparr>))"

fun AddKnownTypes :: "group_version \<Rightarrow> go_type list \<Rightarrow> registering" where
  "AddKnownTypes gv [] = ret ()"
| "AddKnownTypes gv (t # ts) =
     andthen (AddKnownTypeWithName (WithKind gv (t_name t)) t) (\<lambda>_. AddKnownTypes gv ts)"

definition add_unversioned :: "group_version_kind \<Rightarrow> go_type \<Rightarrow> registering" where
  "add_unversioned gvk t = (\<lambda>s.
     let s = s\<lparr>unversionedTypes := (unversionedTypes s)(t \<mapsto> gvk)\<rparr>
     in if unversionedKinds s (k_Kind gvk) \<noteq> None \<and> unversionedKinds s (k_Kind gvk) \<noteq> Some t then
          (Panics (type_text (the (unversionedKinds s (k_Kind gvk))) @
             '' has already been registered as unversioned kind '' @ fmt_q (gvk_String gvk) @
             '' - kind name must be unique''), s)
        else (Returns (), s\<lparr>unversionedKinds := (unversionedKinds s)(k_Kind gvk \<mapsto> t)\<rparr>))"

fun add_all_unversioned :: "group_version \<Rightarrow> go_type list \<Rightarrow> registering" where
  "add_all_unversioned version [] = ret ()"
| "add_all_unversioned version (t # ts) =
     andthen (add_unversioned (WithKind version (t_name t)) t) (\<lambda>_. add_all_unversioned version ts)"

definition AddUnversionedTypes :: "group_version \<Rightarrow> go_type list \<Rightarrow> registering" where
  "AddUnversionedTypes version types =
     andthen (AddKnownTypes version types) (\<lambda>_. add_all_unversioned version types)"

definition KnownTypes :: "group_version \<Rightarrow> scheme \<Rightarrow> string \<Rightarrow> go_type option" where
  "KnownTypes gv s = (\<lambda>name. gvkToType s (WithKind gv name))"

definition ObjectKinds :: "go_type \<Rightarrow> scheme \<Rightarrow> group_version_kind list \<times> bool \<times> go_error option" where
  "ObjectKinds t s =
     (if typeToGVK s t = [] then
        ([], False, Some (ErrorString (''no kind is registered for the type '' @ type_String t)))
      else (typeToGVK s t, unversionedTypes s t \<noteq> None, None))"

definition Recognizes :: "group_version_kind \<Rightarrow> scheme \<Rightarrow> bool" where
  "Recognizes gvk s = (gvkToType s gvk \<noteq> None)"

definition IsUnversioned :: "go_type \<Rightarrow> scheme \<Rightarrow> bool \<times> bool" where
  "IsUnversioned t s =
     (if typeToGVK s t = [] then (False, False) else (unversionedTypes s t \<noteq> None, True))"

text \<open>\<open>New\<close>, by the type of the new object.\<close>

definition not_registered :: "group_version_kind \<Rightarrow> string" where
  "not_registered gvk =
     (let gv = gv_String \<lparr>gv_Group = k_Group gvk, gv_Version = k_Version gvk\<rparr>
      in if k_Kind gvk = [] then ''no version '' @ fmt_q gv @ '' has been registered''
         else if k_Version gvk = ''__internal'' then
           ''no kind '' @ fmt_q (k_Kind gvk) @ '' is registered for the internal version of group '' @ fmt_q (k_Group gvk)
         else ''no kind '' @ fmt_q (k_Kind gvk) @ '' is registered for version '' @ fmt_q gv)"

definition scheme_New :: "group_version_kind \<Rightarrow> scheme \<Rightarrow> go_type option \<times> go_error option" where
  "scheme_New gvk s =
     (case gvkToType s gvk of
        Some t \<Rightarrow> (Some t, None)
      | None \<Rightarrow>
          (case unversionedKinds s (k_Kind gvk) of
             Some t \<Rightarrow> (Some t, None)
           | None \<Rightarrow> (None, Some (ErrorString (not_registered gvk)))))"

section \<open>The common types of API groups\<close>

definition meta_type :: "string \<Rightarrow> go_type" where
  "meta_type name = GoType ''k8s.io/apimachinery/pkg/apis/meta/v1'' name"

definition WatchEventKind :: string where "WatchEventKind = ''WatchEvent''"

definition Unversioned :: group_version where
  "Unversioned = \<lparr>gv_Group = [], gv_Version = ''v1''\<rparr>"

definition APIVersionInternal :: string where "APIVersionInternal = ''__internal''"

definition AddToGroupVersion :: "group_version \<Rightarrow> registering" where
  "AddToGroupVersion gv =
     andthen (AddKnownTypeWithName (WithKind gv WatchEventKind) (meta_type ''WatchEvent'')) (\<lambda>_.
     andthen (AddKnownTypeWithName
       (WithKind \<lparr>gv_Group = gv_Group gv, gv_Version = APIVersionInternal\<rparr> WatchEventKind)
       (meta_type ''InternalEvent'')) (\<lambda>_.
     andthen (AddKnownTypes gv
       (map meta_type [''ListOptions'', ''ExportOptions'', ''GetOptions'', ''DeleteOptions''])) (\<lambda>_.
     AddUnversionedTypes Unversioned
       (map meta_type [''Status'', ''APIVersions'', ''APIGroupList'', ''APIGroup'', ''APIResourceList'']))))"

section \<open>Builders\<close>

type_synonym scheme_builder = "(scheme, go_error option) go list"

fun builder_AddToScheme :: "scheme_builder \<Rightarrow> (scheme, go_error option) go" where
  "builder_AddToScheme [] = ret None"
| "builder_AddToScheme (f # fs) =
     andthen f (\<lambda>err. case err of Some e \<Rightarrow> ret (Some e) | None \<Rightarrow> builder_AddToScheme fs)"

definition builder_Register :: "scheme_builder \<Rightarrow> scheme_builder \<Rightarrow> scheme_builder" where
  "builder_Register funcs sb = sb @ funcs"

definition NewSchemeBuilder :: "scheme_builder \<Rightarrow> scheme_builder" where
  "NewSchemeBuilder funcs = builder_Register funcs []"

section \<open>The types of the operator\<close>

definition Kind :: "string \<Rightarrow> string \<times> string" where
  "Kind name = (k_Group (WithKind SchemeGroupVersion name), k_Kind (WithKind SchemeGroupVersion name))"

definition Resource :: "string \<Rightarrow> string \<times> string" where
  "Resource resource = (gv_Group SchemeGroupVersion, resource)"

definition vm_go_type :: go_type where
  "vm_go_type = GoType ''github.com/openshift/ci-vm-operator/pkg/apis/virtualmachines/v1alpha1'' ''VirtualMachine''"

definition vm_list_go_type :: go_type where
  "vm_list_go_type = GoType ''github.com/openshift/ci-vm-operator/pkg/apis/virtualmachines/v1alpha1'' ''VirtualMachineList''"

definition addKnownTypes :: "(scheme, go_error option) go" where
  "addKnownTypes =
     andthen (AddKnownTypes SchemeGroupVersion [vm_go_type, vm_list_go_type]) (\<lambda>_.
     andthen (AddToGroupVersion SchemeGroupVersion) (\<lambda>_. ret None))"

definition SchemeBuilder :: scheme_builder where
  "SchemeBuilder = NewSchemeBuilder [addKnownTypes]"

definition AddToScheme :: "(scheme, go_error option) go" where
  "AddToScheme = builder_AddToScheme SchemeBuilder"

text \<open>The schemes of the client set and of its fake; errors of \<open>AddToScheme\<close> are dropped.\<close>

definition clientset_AddToScheme :: registering where
  "clientset_AddToScheme = andthen AddToScheme (\<lambda>err. ret ())"

definition clientset_init :: registering where
  "clientset_init =
     andthen (AddToGroupVersion \<lparr>gv_Group = [], gv_Version = ''v1''\<rparr>) (\<lambda>_. clientset_AddToScheme)"

definition fake_AddToScheme :: registering where
  "fake_AddToScheme = andthen AddToScheme (\<lambda>err. ret ())"

definition fake_init :: registering where
  "fake_init =
     andthen (AddToGroupVersion \<lparr>gv_Group = [], gv_Version = ''v1''\<rparr>) (\<lambda>_. fake_AddToScheme)"

section \<open>The scheme of the admission controller\<close>

definition core_type :: "string \<Rightarrow> go_type" where
  "core_type name = GoType ''k8s.io/api/core/v1'' name"

definition core_group_version :: group_version where
  "core_group_version = \<lparr>gv_Group = [], gv_Version = ''v1''\<rparr>"

definition core_kinds :: "string list" where
  "core_kinds =
     [''Pod'', ''PodList'', ''PodStatusResult'', ''PodTemplate'', ''PodTemplateList'',
      ''ReplicationController'', ''ReplicationControllerList'', ''Service'', ''ServiceProxyOptions'',
      ''ServiceList'', ''Endpoints'', ''EndpointsList'', ''Node'', ''NodeConfigSource'', ''NodeList'',
      ''NodeProxyOptions'', ''Binding'', ''Event'', ''EventList'', ''List'', ''LimitRange'',
      ''LimitRangeList'', ''ResourceQuota'', ''ResourceQuotaList'', ''Namespace'', ''NamespaceList'',
      ''Secret'', ''SecretList'', ''ServiceAccount'', ''ServiceAccountList'', ''PersistentVolume'',
      ''PersistentVolumeList'', ''PersistentVolumeClaim'', ''PersistentVolumeClaimList'',
      ''PodAttachOptions'', ''PodLogOptions'', ''PodExecOptions'', ''PodPortForwardOptions'',
      ''PodProxyOptions'', ''ComponentStatus'', ''ComponentStatusList'', ''SerializedReference'',
      ''RangeAllocation'', ''ConfigMap'', ''ConfigMapList'']"

definition core_addKnownTypes :: "(scheme, go_error option) go" where
  "core_addKnownTypes =
     andthen (AddKnownTypes core_group_version (map core_type core_kinds)) (\<lambda>_.
     andthen (AddKnownTypes core_group_version [meta_type ''Status'']) (\<lambda>_.
     andthen (AddToGroupVersion core_group_version) (\<lambda>_. ret None)))"

definition registration_type :: "string \<Rightarrow> go_type" where
  "registration_type name = GoType ''k8s.io/api/admissionregistration/v1beta1'' name"

definition registration_group_version :: group_version where
  "registration_group_version = \<lparr>gv_Group = ''admissionregistration.k8s.io'', gv_Version = ''v1beta1''\<rparr>"

definition registration_addKnownTypes :: "(scheme, go_error option) go" where
  "registration_addKnownTypes =
     andthen (AddKnownTypes registration_group_version
       (map registration_type [''ValidatingWebhookConfiguration'', ''ValidatingWebhookConfigurationList'',
          ''MutatingWebhookConfiguration'', ''MutatingWebhookConfigurationList''])) (\<lambda>_.
     andthen (AddToGroupVersion registration_group_version) (\<lambda>_. ret None))"

definition admission_addToScheme :: registering where
  "admission_addToScheme =
     andthen (builder_AddToScheme (NewSchemeBuilder [core_addKnownTypes])) (\<lambda>err.
     andthen (builder_AddToScheme (NewSchemeBuilder [registration_addKnownTypes])) (\<lambda>err.
     andthen AddToScheme (\<lambda>err. ret ())))"

end
