(* ===== verification/Schemes_Correct.thy ===== *)
theory Schemes_Correct
  imports Schemes
begin

text \<open>
  The registrations of the operator never panic, can be repeated without effect, and leave a scheme
  whose two maps mirror each other. The interface \<open>registration\<close> is what each of them promises; it is
  closed under sequencing.
\<close>

section \<open>The invariant\<close>

text \<open>
  Each kind has one home: the kinds of the API machinery its package, and the others the package of
  their group. That no registration gives a kind another type is why none panics.
\<close>

definition meta_kinds :: "string list" where
  "meta_kinds = [''ListOptions'', ''ExportOptions'', ''GetOptions'', ''DeleteOptions'',
     ''Status'', ''APIVersions'', ''APIGroupList'', ''APIGroup'', ''APIResourceList'']"

definition home :: "group_version_kind \<Rightarrow> go_type" where
  "home gvk =
     (if k_Kind gvk = WatchEventKind then
        (if k_Version gvk = APIVersionInternal then meta_type ''InternalEvent'' else meta_type ''WatchEvent'')
      else if k_Kind gvk \<in> set meta_kinds then meta_type (k_Kind gvk)
      else if k_Group gvk = GroupName then GoType (t_pkg vm_go_type) (k_Kind gvk)
      else if k_Group gvk = [] then core_type (k_Kind gvk)
      else registration_type (k_Kind gvk))"

definition scheme_inv :: "scheme \<Rightarrow> bool" where
  "scheme_inv s =
     ((\<forall>gvk t. gvkToType s gvk = Some t \<longleftrightarrow> gvk \<in> set (typeToGVK s t)) \<and>
      (\<forall>t. distinct (typeToGVK s t)) \<and>
      (\<forall>gvk t. gvkToType s gvk = Some t \<longrightarrow> t = home gvk) \<and>
      (\<forall>name t. unversionedKinds s name = Some t \<longrightarrow> t = meta_type name) \<and>
      (\<forall>t gvk. unversionedTypes s t = Some gvk \<longrightarrow> gvk = WithKind Unversioned (t_name t)))"

definition grows_to :: "scheme \<Rightarrow> scheme \<Rightarrow> bool" where
  "grows_to s s' =
     (map_le (gvkToType s) (gvkToType s') \<and> map_le (unversionedTypes s) (unversionedTypes s') \<and>
      map_le (unversionedKinds s) (unversionedKinds s'))"

lemma scheme_inv_new: "scheme_inv NewScheme"
  by (simp add: scheme_inv_def NewScheme_def)

lemma grows_refl: "grows_to s s"
  by (simp add: grows_to_def)

lemma grows_trans: "grows_to s s' \<Longrightarrow> grows_to s' s'' \<Longrightarrow> grows_to s s''"
  by (auto simp: grows_to_def intro: map_le_trans)

lemma grows_lookup:
  "grows_to s s' \<Longrightarrow> gvkToType s gvk = Some t \<Longrightarrow> gvkToType s' gvk = Some t"
  "grows_to s s' \<Longrightarrow> unversionedTypes s u = Some gvk' \<Longrightarrow> unversionedTypes s' u = Some gvk'"
  "grows_to s s' \<Longrightarrow> unversionedKinds s name = Some t' \<Longrightarrow> unversionedKinds s' name = Some t'"
  by (auto simp: grows_to_def map_le_def dom_def)

section \<open>The interface\<close>

locale registration =
  fixes op :: "(scheme, 'a) go" and result :: 'a
  assumes registers: "scheme_inv s \<Longrightarrow> \<exists>s'. op s = (Returns result, s') \<and> scheme_inv s' \<and> grows_to s s' \<and>
    (\<forall>s''. scheme_inv s'' \<longrightarrow> grows_to s' s'' \<longrightarrow> op s'' = (Returns result, s''))"
begin

lemma returns: "scheme_inv s \<Longrightarrow> fst (op s) = Returns result"
  by (drule registers) auto

lemma keeps: "scheme_inv s \<Longrightarrow> scheme_inv (snd (op s)) \<and> grows_to s (snd (op s))"
  by (drule registers) auto

lemma again: "scheme_inv s \<Longrightarrow> op (snd (op s)) = (Returns result, snd (op s))"
  by (drule registers) (auto simp: grows_refl)

end

lemma registration_ret: "registration (ret x) x"
  by unfold_locales (simp add: go_simps grows_refl)

lemma registration_andthen:
  assumes "registration a x" "registration (b x) y"
  shows "registration (andthen a b) y"
proof
  fix s assume inv: "scheme_inv s"
  obtain s1 where a: "a s = (Returns x, s1)" "scheme_inv s1" "grows_to s s1"
    "\<forall>s''. scheme_inv s'' \<longrightarrow> grows_to s1 s'' \<longrightarrow> a s'' = (Returns x, s'')"
    using registration.registers [OF assms(1) inv] by blast
  obtain s2 where b: "b x s1 = (Returns y, s2)" "scheme_inv s2" "grows_to s1 s2"
    "\<forall>s''. scheme_inv s'' \<longrightarrow> grows_to s2 s'' \<longrightarrow> b x s'' = (Returns y, s'')"
    using registration.registers [OF assms(2) a(2)] by blast
  have "andthen a b s'' = (Returns y, s'')" if "scheme_inv s''" "grows_to s2 s''" for s''
    using a(4) b(4) that grows_trans [OF b(3) that(2)] by (simp add: andthen_returns)
  then show "\<exists>s'. andthen a b s = (Returns y, s') \<and> scheme_inv s' \<and> grows_to s s' \<and>
      (\<forall>s''. scheme_inv s'' \<longrightarrow> grows_to s' s'' \<longrightarrow> andthen a b s'' = (Returns y, s''))"
    using a b grows_trans [OF a(3) b(3)] by (intro exI [of _ s2]) (simp add: andthen_returns)
qed

section \<open>The operations of a scheme\<close>

lemma AddKnown_present:
  assumes "scheme_inv s" "gvkToType s gvk = Some t" "k_Version gvk \<noteq> []"
  shows "AddKnownTypeWithName gvk t s = (Returns (), s)"
proof -
  have "(gvkToType s)(gvk \<mapsto> t) = gvkToType s" using assms(2) by (simp add: fun_upd_idem)
  moreover have "gvk \<in> set (typeToGVK s t)" using assms(1,2) by (simp add: scheme_inv_def)
  ultimately show ?thesis using assms(2,3) by (simp add: AddKnownTypeWithName_def Let_def)
qed

lemma registration_known:
  assumes "t = home gvk" "k_Version gvk \<noteq> []"
  shows "registration (AddKnownTypeWithName gvk t) ()"
proof
  fix s assume inv: "scheme_inv s"
  show "\<exists>s'. AddKnownTypeWithName gvk t s = (Returns (), s') \<and> scheme_inv s' \<and> grows_to s s' \<and>
      (\<forall>s''. scheme_inv s'' \<longrightarrow> grows_to s' s'' \<longrightarrow> AddKnownTypeWithName gvk t s'' = (Returns (), s''))"
  proof (cases "gvkToType s gvk")
    case None
    let ?s = "s\<lparr>gvkToType := (gvkToType s)(gvk \<mapsto> t), typeToGVK := (typeToGVK s)(t := typeToGVK s t @ [gvk])\<rparr>"
    have new: "gvk \<notin> set (typeToGVK s u)" for u
      using inv None by (metis option.distinct(1) scheme_inv_def)
    have "AddKnownTypeWithName gvk t s = (Returns (), ?s)"
      using None new assms(2) by (simp add: AddKnownTypeWithName_def Let_def)
    moreover have "scheme_inv ?s"
      using inv new assms(1) by (auto simp: scheme_inv_def)
    moreover have "grows_to s ?s" using None by (auto simp: grows_to_def map_le_def)
    moreover have "AddKnownTypeWithName gvk t s'' = (Returns (), s'')" if "scheme_inv s''" "grows_to ?s s''" for s''
      by (rule AddKnown_present [OF that(1) grows_lookup(1) [OF that(2)] assms(2)]) simp
    ultimately show ?thesis by blast
  next
    case (Some u)
    then have u: "u = t" using inv assms(1) by (simp add: scheme_inv_def)
    have "AddKnownTypeWithName gvk t s'' = (Returns (), s'')" if "scheme_inv s''" "grows_to s s''" for s''
      using AddKnown_present [OF that(1) grows_lookup(1) [OF that(2)] assms(2)] Some u by simp
    then show ?thesis using inv grows_refl by blast
  qed
qed

lemma registration_known_types:
  assumes "list_all (\<lambda>t. t = home (WithKind gv (t_name t))) ts" "gv_Version gv \<noteq> []"
  shows "registration (AddKnownTypes gv ts) ()"
  using assms(1)
proof (induction ts)
  case (Cons t ts)
  have "registration (AddKnownTypeWithName (WithKind gv (t_name t)) t) ()"
    using Cons.prems assms(2) by (intro registration_known) (simp_all add: WithKind_def)
  with Cons show ?case by (auto intro: registration_andthen)
qed (simp add: registration_ret)

lemma unversioned_present:
  assumes "unversionedTypes s t = Some gvk" "unversionedKinds s (k_Kind gvk) = Some t"
  shows "add_unversioned gvk t s = (Returns (), s)"
proof -
  have "(unversionedTypes s)(t \<mapsto> gvk) = unversionedTypes s"
    "(unversionedKinds s)(k_Kind gvk \<mapsto> t) = unversionedKinds s"
    using assms by (simp_all add: fun_upd_idem)
  then show ?thesis using assms(2) by (simp add: add_unversioned_def Let_def)
qed

lemma registration_unversioned:
  "registration (add_unversioned (WithKind Unversioned name) (meta_type name)) ()"
proof
  fix s assume inv: "scheme_inv s"
  let ?gvk = "WithKind Unversioned name" and ?t = "meta_type name"
  let ?s = "s\<lparr>unversionedTypes := (unversionedTypes s)(?t \<mapsto> ?gvk), unversionedKinds := (unversionedKinds s)(name \<mapsto> ?t)\<rparr>"
  have k: "k_Kind ?gvk = name" "t_name ?t = name" by (simp_all add: WithKind_def meta_type_def)
  have old: "unversionedKinds s name \<in> {None, Some ?t}"
    using inv by (cases "unversionedKinds s name") (auto simp: scheme_inv_def)
  have oldt: "unversionedTypes s ?t \<in> {None, Some ?gvk}"
    using inv k(2) unfolding scheme_inv_def by (metis insertCI not_Some_eq)
  have "add_unversioned ?gvk ?t s = (Returns (), ?s)"
    using old by (auto simp: add_unversioned_def Let_def k(1))
  moreover have "scheme_inv ?s"
    using inv k(2) by (simp add: scheme_inv_def)
  moreover have "grows_to s ?s" using old oldt by (auto simp: grows_to_def map_le_def)
  moreover have "add_unversioned ?gvk ?t s'' = (Returns (), s'')" if "scheme_inv s''" "grows_to ?s s''" for s''
    using grows_lookup(2,3) [OF that(2)] by (intro unversioned_present) (simp_all add: k(1))
  ultimately show "\<exists>s'. add_unversioned ?gvk ?t s = (Returns (), s') \<and> scheme_inv s' \<and> grows_to s s' \<and>
      (\<forall>s''. scheme_inv s'' \<longrightarrow> grows_to s' s'' \<longrightarrow> add_unversioned ?gvk ?t s'' = (Returns (), s''))"
    by blast
qed

lemma registration_all_unversioned:
  "registration (add_all_unversioned Unversioned (map meta_type names)) ()"
proof (induction names)
  case (Cons name names)
  have "t_name (meta_type name) = name" by (simp add: meta_type_def)
  then show ?case
    using registration_andthen [OF registration_unversioned Cons.IH] by simp
qed (simp add: registration_ret)

lemma registration_group:
  assumes "gv_Version gv \<noteq> []" "gv_Version gv \<noteq> APIVersionInternal"
  shows "registration (AddToGroupVersion gv) ()"
  unfolding AddToGroupVersion_def AddUnversionedTypes_def
proof (intro registration_andthen)
  show "registration (AddKnownTypeWithName (WithKind gv WatchEventKind) (meta_type ''WatchEvent'')) ()"
    using assms by (intro registration_known) (simp_all add: home_def WithKind_def)
  show "registration (AddKnownTypeWithName (WithKind \<lparr>gv_Group = gv_Group gv, gv_Version = APIVersionInternal\<rparr> WatchEventKind)
      (meta_type ''InternalEvent'')) ()"
    by (intro registration_known) (simp_all add: home_def WithKind_def APIVersionInternal_def)
  show "registration (AddKnownTypes gv (map meta_type [''ListOptions'', ''ExportOptions'', ''GetOptions'', ''DeleteOptions''])) ()"
    using assms by (intro registration_known_types)
      (simp_all add: home_def WithKind_def meta_type_def meta_kinds_def WatchEventKind_def)
  show "registration (AddKnownTypes Unversioned
      (map meta_type [''Status'', ''APIVersions'', ''APIGroupList'', ''APIGroup'', ''APIResourceList''])) ()"
    by (intro registration_known_types)
      (simp_all add: home_def WithKind_def meta_type_def meta_kinds_def WatchEventKind_def Unversioned_def)
qed (rule registration_all_unversioned)

section \<open>The registrations of the operator\<close>

lemma registration_types: "registration addKnownTypes None"
  unfolding addKnownTypes_def
proof (intro registration_andthen registration_ret)
  show "registration (AddKnownTypes SchemeGroupVersion [vm_go_type, vm_list_go_type]) ()"
    by (intro registration_known_types) (simp_all add: home_def WithKind_def vm_go_type_def vm_list_go_type_def
        WatchEventKind_def meta_kinds_def SchemeGroupVersion_def GroupName_def)
  show "registration (AddToGroupVersion SchemeGroupVersion) ()"
    by (intro registration_group) (simp_all add: SchemeGroupVersion_def APIVersionInternal_def)
qed

lemma registration_builder:
  "registration f None \<Longrightarrow> registration (builder_AddToScheme (NewSchemeBuilder [f])) None"
  by (simp add: NewSchemeBuilder_def builder_Register_def registration_andthen registration_ret)

interpretation own_types: registration AddToScheme None
  unfolding AddToScheme_def SchemeBuilder_def by (rule registration_builder [OF registration_types])

lemma registration_v1: "registration (AddToGroupVersion \<lparr>gv_Group = [], gv_Version = ''v1''\<rparr>) ()"
  by (intro registration_group) (simp_all add: APIVersionInternal_def)

interpretation client_scheme: registration clientset_init "()"
  unfolding clientset_init_def clientset_AddToScheme_def
  by (rule registration_andthen registration_ret registration_v1 own_types.registration_axioms)+

interpretation fake_scheme: registration fake_init "()"
  unfolding fake_init_def fake_AddToScheme_def
  by (rule registration_andthen registration_ret registration_v1 own_types.registration_axioms)+

lemma core_kinds_home:
  "list_all (\<lambda>t. t = home (WithKind core_group_version (t_name t))) (map core_type core_kinds)"
  by code_simp

lemma registration_core: "registration core_addKnownTypes None"
  unfolding core_addKnownTypes_def
proof (intro registration_andthen registration_ret)
  show "registration (AddKnownTypes core_group_version (map core_type core_kinds)) ()"
    by (intro registration_known_types core_kinds_home) (simp add: core_group_version_def)
  show "registration (AddKnownTypes core_group_version [meta_type ''Status'']) ()"
    by (intro registration_known_types)
      (simp_all add: home_def WithKind_def meta_type_def meta_kinds_def WatchEventKind_def core_group_version_def)
  show "registration (AddToGroupVersion core_group_version) ()"
    by (intro registration_group) (simp_all add: core_group_version_def APIVersionInternal_def)
qed

lemma registration_webhooks: "registration registration_addKnownTypes None"
  unfolding registration_addKnownTypes_def
proof (intro registration_andthen registration_ret)
  show "registration (AddKnownTypes registration_group_version
      (map registration_type [''ValidatingWebhookConfiguration'', ''ValidatingWebhookConfigurationList'',
        ''MutatingWebhookConfiguration'', ''MutatingWebhookConfigurationList''])) ()"
    by (intro registration_known_types) (code_simp, simp add: registration_group_version_def)
  show "registration (AddToGroupVersion registration_group_version) ()"
    by (intro registration_group) (simp_all add: registration_group_version_def APIVersionInternal_def)
qed

interpretation admission_scheme: registration admission_addToScheme "()"
  unfolding admission_addToScheme_def
  by (rule registration_andthen registration_ret own_types.registration_axioms
      registration_builder [OF registration_core] registration_builder [OF registration_webhooks])+

section \<open>The properties\<close>

definition vm_gvk :: group_version_kind where
  "vm_gvk = WithKind SchemeGroupVersion ''VirtualMachine''"

definition vm_list_gvk :: group_version_kind where
  "vm_list_gvk = WithKind SchemeGroupVersion ''VirtualMachineList''"

text \<open>What is registered is known from then on, by kind and by type.\<close>

definition knows :: "group_version_kind \<Rightarrow> go_type \<Rightarrow> scheme \<Rightarrow> bool" where
  "knows gvk t s = (scheme_New gvk s = (Some t, None) \<and> gvk \<in> set (fst (ObjectKinds t s)) \<and>
     snd (snd (ObjectKinds t s)) = None \<and> Recognizes gvk s)"

lemma knows_iff: "scheme_inv s \<Longrightarrow> gvkToType s gvk = Some t \<Longrightarrow> knows gvk t s"
proof -
  assume inv: "scheme_inv s" and t: "gvkToType s gvk = Some t"
  then have "gvk \<in> set (typeToGVK s t)" by (simp add: scheme_inv_def)
  moreover from this have "typeToGVK s t \<noteq> []" by auto
  ultimately show "knows gvk t s" using t by (simp add: knows_def scheme_New_def ObjectKinds_def Recognizes_def)
qed

lemma AddKnown_types_stored:
  "list_all (\<lambda>t. t = home (WithKind gv (t_name t))) ts \<Longrightarrow> gv_Version gv \<noteq> [] \<Longrightarrow> scheme_inv s \<Longrightarrow>
     t \<in> set ts \<Longrightarrow> gvkToType (snd (AddKnownTypes gv ts s)) (WithKind gv (t_name t)) = Some t"
proof (induction ts arbitrary: s)
  case (Cons u ts)
  let ?gvk = "WithKind gv (t_name u)"
  have version: "k_Version ?gvk \<noteq> []" using Cons.prems(2) by (simp add: WithKind_def)
  have reg: "registration (AddKnownTypeWithName ?gvk u) ()"
    using Cons.prems(1) version by (intro registration_known) simp_all
  then obtain s1 where s1: "AddKnownTypeWithName ?gvk u s = (Returns (), s1)" "scheme_inv s1"
    using registration.registers [OF reg Cons.prems(3)] by blast
  have stored: "gvkToType s1 ?gvk = Some u"
    using s1(1) by (auto simp: AddKnownTypeWithName_def Let_def split: if_splits)
  have rest: "list_all (\<lambda>t. t = home (WithKind gv (t_name t))) ts" using Cons.prems(1) by simp
  have "grows_to s1 (snd (AddKnownTypes gv ts s1))"
    using registration.keeps [OF registration_known_types [OF rest Cons.prems(2)] s1(2)] by simp
  then have "gvkToType (snd (AddKnownTypes gv ts s1)) ?gvk = Some u" by (rule grows_lookup(1)) (rule stored)
  moreover have "AddKnownTypes gv (u # ts) s = AddKnownTypes gv ts s1" by (simp add: andthen_apply s1(1))
  ultimately show ?case using Cons.IH [OF rest Cons.prems(2) s1(2)] Cons.prems(4) by auto
qed simp

lemma own_types_home:
  "list_all (\<lambda>t. t = home (WithKind SchemeGroupVersion (t_name t))) [vm_go_type, vm_list_go_type]"
  by code_simp

lemma AddToScheme_stored:
  assumes "scheme_inv s"
  shows "gvkToType (snd (AddToScheme s)) vm_gvk = Some vm_go_type"
    "gvkToType (snd (AddToScheme s)) vm_list_gvk = Some vm_list_go_type"
proof -
  have version: "gv_Version SchemeGroupVersion \<noteq> []" by (simp add: SchemeGroupVersion_def)
  have reg: "registration (AddKnownTypes SchemeGroupVersion [vm_go_type, vm_list_go_type]) ()"
    by (rule registration_known_types [OF own_types_home version])
  obtain s1 where s1: "AddKnownTypes SchemeGroupVersion [vm_go_type, vm_list_go_type] s = (Returns (), s1)" "scheme_inv s1"
    using registration.registers [OF reg assms] by blast
  have grp: "registration (AddToGroupVersion SchemeGroupVersion) ()"
    by (intro registration_group) (simp_all add: SchemeGroupVersion_def APIVersionInternal_def)
  obtain s2 where s2: "AddToGroupVersion SchemeGroupVersion s1 = (Returns (), s2)" "grows_to s1 s2"
    using registration.registers [OF grp s1(2)] by blast
  have result: "snd (AddToScheme s) = s2"
    by (simp add: AddToScheme_def SchemeBuilder_def NewSchemeBuilder_def builder_Register_def addKnownTypes_def
        andthen_apply s1(1) andthen_apply s2(1) andthen_assoc go_simps
        del: AddKnownTypes.simps)
  have "gvkToType s1 (WithKind SchemeGroupVersion (t_name t)) = Some t" if "t \<in> {vm_go_type, vm_list_go_type}" for t
    using AddKnown_types_stored [OF own_types_home version assms, of t] that s1(1) by simp
  then have "gvkToType s1 vm_gvk = Some vm_go_type" "gvkToType s1 vm_list_gvk = Some vm_list_go_type"
    by (force simp: vm_gvk_def vm_list_gvk_def vm_go_type_def vm_list_go_type_def)+
  with result s2(2) show "gvkToType (snd (AddToScheme s)) vm_gvk = Some vm_go_type"
    "gvkToType (snd (AddToScheme s)) vm_list_gvk = Some vm_list_go_type"
    by (simp_all add: grows_lookup(1))
qed

lemma after_AddToScheme:
  assumes "registration first x"
  shows "gvkToType (snd (andthen first (\<lambda>_. andthen AddToScheme (\<lambda>err. ret ())) NewScheme)) vm_gvk = Some vm_go_type"
    "gvkToType (snd (andthen first (\<lambda>_. andthen AddToScheme (\<lambda>err. ret ())) NewScheme)) vm_list_gvk = Some vm_list_go_type"
proof -
  obtain s1 where s1: "first NewScheme = (Returns x, s1)" "scheme_inv s1"
    using registration.registers [OF assms scheme_inv_new] by blast
  obtain s2 where s2: "AddToScheme s1 = (Returns None, s2)" using own_types.registers [OF s1(2)] by blast
  show "gvkToType (snd (andthen first (\<lambda>_. andthen AddToScheme (\<lambda>err. ret ())) NewScheme)) vm_gvk = Some vm_go_type"
    "gvkToType (snd (andthen first (\<lambda>_. andthen AddToScheme (\<lambda>err. ret ())) NewScheme)) vm_list_gvk = Some vm_list_go_type"
    using AddToScheme_stored [OF s1(2)] by (simp_all add: andthen_apply s1(1) s2 ret_apply)
qed

text \<open>
  The schemes of the client set, of its fake and of the admission controller are set up without a
  panic, and each then knows the virtual machine and the list of virtual machines: a new object of
  either kind has its type, an object of the type has this kind, and the two maps mirror each other.
\<close>
theorem schemes_know_machines:
  "fst (clientset_init NewScheme) = Returns () \<and> fst (fake_init NewScheme) = Returns () \<and>
   fst (admission_addToScheme NewScheme) = Returns () \<and>
   list_all (\<lambda>s. scheme_inv s \<and> knows vm_gvk vm_go_type s \<and> knows vm_list_gvk vm_list_go_type s)
     [snd (clientset_init NewScheme), snd (fake_init NewScheme), snd (admission_addToScheme NewScheme)]"
proof -
  note new = scheme_inv_new
  have inv: "scheme_inv (snd (clientset_init NewScheme))" "scheme_inv (snd (fake_init NewScheme))"
    "scheme_inv (snd (admission_addToScheme NewScheme))"
    using client_scheme.keeps [OF new] fake_scheme.keeps [OF new] admission_scheme.keeps [OF new] by simp_all
  have webhooks: "registration (andthen (builder_AddToScheme (NewSchemeBuilder [core_addKnownTypes]))
      (\<lambda>_. builder_AddToScheme (NewSchemeBuilder [registration_addKnownTypes]))) None"
    by (rule registration_andthen registration_builder [OF registration_core]
        registration_builder [OF registration_webhooks])+
  have "gvkToType s vm_gvk = Some vm_go_type \<and> gvkToType s vm_list_gvk = Some vm_list_go_type"
    if "s \<in> {snd (clientset_init NewScheme), snd (fake_init NewScheme), snd (admission_addToScheme NewScheme)}" for s
    using that after_AddToScheme [OF registration_v1] after_AddToScheme [OF webhooks]
    by (auto simp: clientset_init_def clientset_AddToScheme_def fake_init_def fake_AddToScheme_def
        admission_addToScheme_def andthen_assoc)
  then show ?thesis
    using client_scheme.returns [OF new] fake_scheme.returns [OF new] admission_scheme.returns [OF new]
      inv knows_iff by simp
qed

text \<open>
  Registering the types of the client set again, as composing client sets does, changes nothing.
\<close>
theorem registration_repeatable:
  "clientset_AddToScheme (snd (clientset_init NewScheme)) = (Returns (), snd (clientset_init NewScheme))"
proof -
  obtain s where s: "AddToGroupVersion \<lparr>gv_Group = [], gv_Version = ''v1''\<rparr> NewScheme = (Returns (), s)" "scheme_inv s"
    using registration.registers [OF registration_v1 scheme_inv_new] by blast
  have reg: "registration clientset_AddToScheme ()"
    unfolding clientset_AddToScheme_def by (rule registration_andthen own_types.registration_axioms registration_ret)+
  then show ?thesis
    using registration.again [OF reg s(2)] by (simp add: clientset_init_def andthen_apply s(1))
qed

end
