(* ===== verification/Owner_References.thy ===== *)
theory Owner_References
  imports Schemes_Correct Sample_Passes
begin

text \<open>
  The owner of a secret. \<open>gce.go\<close> leaves the removal of secrets to the garbage collector, which finds
  the owner of an object by the API version and the kind in its owner reference. They are read by
  \<open>FromAPIVersionAndKind\<close> of \<open>apimachinery/pkg/runtime/schema/group_version.go\<close>; a scheme says which kinds
  there are.
\<close>

section \<open>From API version and kind\<close>

definition ParseGroupVersion :: "string \<Rightarrow> group_version \<times> go_error option" where
  "ParseGroupVersion gv =
     (if gv = [] \<or> gv = ''/'' then (\<lparr>gv_Group = [], gv_Version = []\<rparr>, None)
      else case split_at_byte slash gv of
        [version] \<Rightarrow> (\<lparr>gv_Group = [], gv_Version = version\<rparr>, None)
      | [grp, version] \<Rightarrow> (\<lparr>gv_Group = grp, gv_Version = version\<rparr>, None)
      | _ \<Rightarrow> (\<lparr>gv_Group = [], gv_Version = []\<rparr>, Some (ErrorString (''unexpected GroupVersion string: '' @ gv))))"

definition FromAPIVersionAndKind :: "string \<Rightarrow> string \<Rightarrow> group_version_kind" where
  "FromAPIVersionAndKind av kd =
     (case ParseGroupVersion av of
        (gv, None) \<Rightarrow> \<lparr>k_Group = gv_Group gv, k_Version = gv_Version gv, k_Kind = kd\<rparr>
      | (_, Some _) \<Rightarrow> \<lparr>k_Group = [], k_Version = [], k_Kind = kd\<rparr>)"

text \<open>A group version that is written is read back.\<close>

lemma ParseGroupVersion_String:
  assumes "slash_free (gv_Group gv)" "slash_free (gv_Version gv)" "gv_Version gv \<noteq> []"
  shows "ParseGroupVersion (gv_String gv) = (gv, None)"
proof (cases "gv_Group gv = []")
  case True
  with assms show ?thesis
    by (cases gv) (auto simp: gv_String_def slash_free_def ParseGroupVersion_def split_at_byte_none slash_def)
next
  case False
  then have written: "gv_String gv = gv_Group gv @ slash # gv_Version gv" by (simp add: gv_String_def slash_def)
  then have "split_at_byte slash (gv_String gv) = [gv_Group gv, gv_Version gv]"
    using assms(1,2) written by (simp add: slash_free_def split_at_byte_append split_at_byte_none)
  moreover have "gv_String gv \<noteq> []" "gv_String gv \<noteq> ''/''"
    using False assms(3) written by (auto simp: append_eq_Cons_conv)
  ultimately show ?thesis by (simp add: ParseGroupVersion_def)
qed

section \<open>Kinds that are never registered\<close>

definition unknown :: "group_version_kind \<Rightarrow> scheme \<Rightarrow> bool" where
  "unknown gvk s = (gvkToType s gvk = None \<and> unversionedKinds s (k_Kind gvk) = None)"

definition leaves_unknown :: "group_version_kind \<Rightarrow> (scheme, 'a) go \<Rightarrow> bool" where
  "leaves_unknown gvk m = (\<forall>s. unknown gvk s \<longrightarrow> unknown gvk (snd (m s)))"

named_theorems unknown_intros \<open>registrations that leave a kind unknown\<close>

lemma unknown_ret [unknown_intros]: "leaves_unknown gvk (ret x)"
  by (simp add: leaves_unknown_def ret_def)

lemma unknown_andthen [unknown_intros]:
  "leaves_unknown gvk m \<Longrightarrow> (\<And>x. leaves_unknown gvk (f x)) \<Longrightarrow> leaves_unknown gvk (andthen m f)"
  unfolding leaves_unknown_def andthen_def by (auto split: prod.splits panicky.splits; metis snd_conv)

lemma unknown_option [unknown_intros]:
  "leaves_unknown gvk m \<Longrightarrow> (\<And>e. leaves_unknown gvk (f e)) \<Longrightarrow> leaves_unknown gvk (case err of None \<Rightarrow> m | Some e \<Rightarrow> f e)"
  by (cases err) auto

lemma unknown_known [unknown_intros]: "gvk' \<noteq> gvk \<Longrightarrow> leaves_unknown gvk (AddKnownTypeWithName gvk' t)"
  by (auto simp: leaves_unknown_def unknown_def AddKnownTypeWithName_def Let_def)

lemma unknown_known_types:
  "k_Kind gvk \<notin> t_name ` set ts \<Longrightarrow> leaves_unknown gvk (AddKnownTypes gv ts)"
proof (induction ts)
  case (Cons t ts)
  then have "WithKind gv (t_name t) \<noteq> gvk" by (auto simp: WithKind_def)
  with Cons show ?case by (auto intro!: unknown_intros)
qed (simp add: unknown_ret)

lemma unknown_unversioned:
  "k_Kind gvk \<notin> t_name ` set ts \<Longrightarrow> leaves_unknown gvk (add_all_unversioned gv ts)"
proof (induction ts)
  case (Cons t ts)
  then have "leaves_unknown gvk (add_unversioned (WithKind gv (t_name t)) t)"
    by (auto simp: leaves_unknown_def unknown_def add_unversioned_def Let_def WithKind_def)
  with Cons show ?case by (auto intro!: unknown_intros)
qed (simp add: unknown_ret)

text \<open>The kind in the owner reference of a secret is in no group, and is none of the kinds of the API machinery.\<close>

definition secret_owner_kind :: group_version_kind where
  "secret_owner_kind = FromAPIVersionAndKind ''v1alpha1'' ''virtualmachine.ci.openshift.io''"

lemma secret_owner_kind_is:
  "secret_owner_kind = \<lparr>k_Group = [], k_Version = ''v1alpha1'', k_Kind = ''virtualmachine.ci.openshift.io''\<rparr>"
  by code_simp

lemma unknown_group [unknown_intros]: "leaves_unknown secret_owner_kind (AddToGroupVersion gv)"
  unfolding AddToGroupVersion_def AddUnversionedTypes_def
  by (intro unknown_intros unknown_known_types unknown_unversioned)
    (simp_all add: secret_owner_kind_is WithKind_def WatchEventKind_def meta_type_def)

lemma unknown_own [unknown_intros]: "leaves_unknown secret_owner_kind AddToScheme"
  unfolding AddToScheme_def SchemeBuilder_def NewSchemeBuilder_def builder_Register_def addKnownTypes_def
  by (simp, intro unknown_intros unknown_known_types)
    (simp_all add: secret_owner_kind_is vm_go_type_def vm_list_go_type_def WithKind_def)

lemma unknown_webhooks:
  "leaves_unknown secret_owner_kind core_addKnownTypes" "leaves_unknown secret_owner_kind registration_addKnownTypes"
  unfolding core_addKnownTypes_def registration_addKnownTypes_def
  by (intro unknown_intros unknown_known_types;
      simp add: secret_owner_kind_is core_type_def meta_type_def registration_type_def core_kinds_def)+

text \<open>The schemes of the operator: of its client set, of the fake and of the admission controller.\<close>

abbreviation operator_schemes :: "scheme list" where
  "operator_schemes \<equiv> [snd (clientset_init NewScheme), snd (fake_init NewScheme), snd (admission_addToScheme NewScheme)]"

lemma owner_kind_unknown: "list_all (unknown secret_owner_kind) operator_schemes"
proof -
  have new: "unknown secret_owner_kind NewScheme" by (simp add: unknown_def NewScheme_def)
  have "leaves_unknown secret_owner_kind clientset_init" "leaves_unknown secret_owner_kind fake_init"
    "leaves_unknown secret_owner_kind admission_addToScheme"
    unfolding clientset_init_def clientset_AddToScheme_def fake_init_def fake_AddToScheme_def admission_addToScheme_def
      NewSchemeBuilder_def builder_Register_def
    by (simp_all, (intro unknown_intros unknown_webhooks)+)
  with new show ?thesis by (simp add: leaves_unknown_def)
qed

section \<open>The owner of a secret\<close>

text \<open>
  C39. The owner reference of every secret that a pass creates has the name and the UID of an object,
  but its API version and its kind name no type of any scheme of the operator; with the
  API version and the kind of the object itself they would name the machine. The garbage collector,
  to which the code leaves the removal of the secret, cannot find the owner.
\<close>

theorem secret_owner_unknown:
  assumes "CSecretCreate ns s err \<in> set (pass_calls env cfg key w)" "sch \<in> set operator_schemes"
  shows "\<exists>vm ref. sec_ownerReferences s = [ref] \<and> or_name ref = vm_name vm \<and> or_uid ref = om_uid (metadata vm) \<and>
    sec_name s = vm_name vm \<and> ns = vm_namespace vm \<and>
    scheme_New (FromAPIVersionAndKind (or_apiVersion ref) (or_kind ref)) sch =
      (None, Some (ErrorString (''no kind '' @ fmt_q ''virtualmachine.ci.openshift.io'' @
        '' is registered for version '' @ fmt_q ''v1alpha1''))) \<and>
    scheme_New (FromAPIVersionAndKind (gv_String SchemeGroupVersion) ''VirtualMachine'') sch = (Some vm_go_type, None)"
proof -
  have "CSecretCreate ns s err \<in> set (effects (pass_calls env cfg key w))"
    using assms(1) by (simp add: set_effects)
  then obtain vm pem pub i h where s: "s = ssh_secret vm pem pub i h" "ns = vm_namespace vm"
    using reconcile_run_concerns [OF reconcile_obeys [of env cfg key w]] by fastforce
  have bad: "unknown secret_owner_kind sch" using owner_kind_unknown assms(2) by (auto simp: list_all_iff)
  have "knows vm_gvk vm_go_type sch" using schemes_know_machines assms(2) by auto
  moreover have "FromAPIVersionAndKind (gv_String SchemeGroupVersion) ''VirtualMachine'' = vm_gvk"
    unfolding FromAPIVersionAndKind_def
    by (subst ParseGroupVersion_String)
      (simp_all add: slash_free_def slash_def SchemeGroupVersion_def GroupName_def vm_gvk_def WithKind_def)
  moreover have "scheme_New secret_owner_kind sch = (None, Some (ErrorString (not_registered secret_owner_kind)))"
    using bad by (simp add: unknown_def scheme_New_def)
  ultimately show ?thesis
    by (intro exI [of _ vm] exI [of _ "hd (sec_ownerReferences s)"])
      (simp add: s ssh_secret_def secret_owner_kind_def [symmetric] knows_def, simp add: secret_owner_kind_is
        not_registered_def gv_String_def)
qed

theorem secret_owner_unknown_witness:
  "\<exists>ref. sec_ownerReferences (ssh_secret live_vm ''pem'' ''ssh-rsa AAAA'' an_instance ''10.0.0.1'') = [ref] \<and>
     fst (scheme_New (FromAPIVersionAndKind (or_apiVersion ref) (or_kind ref)) (snd (clientset_init NewScheme))) = None"
proof -
  let ?env = "(sample_env live_vm)\<lparr>SecretGet := \<lambda>ns n e. (Some (StatusError ''NotFound'' ''no secret''), e)\<rparr>"
  have "CSecretCreate ''ci'' (ssh_secret live_vm ''pem'' ''ssh-rsa AAAA'' an_instance ''10.0.0.1'') None
      \<in> set (pass_calls ?env sample_cfg sample_key sample_world)"
    by (simp add: creation_pass)
  from secret_owner_unknown [OF this, of "snd (clientset_init NewScheme)"] show ?thesis by auto
qed

end
