(* ===== verification/Object_Cache.thy ===== *)
theory Object_Cache
  imports Api_Requests Object_Keys
begin

text \<open>
  The store an informer fills: \<open>threadSafeMap\<close> of \<open>client-go/tools/cache/thread_safe_store.go\<close>, its
  wrapper \<open>cache\<close> of \<open>store.go\<close> and \<open>MetaNamespaceIndexFunc\<close> of \<open>index.go\<close>. A map of objects is a
  list of pairs with distinct keys, whose order is the one the run-time iterates in and means
  nothing; an index maps a value to the set of the keys of the objects that have it.
\<close>

section \<open>threadSafeMap\<close>

type_synonym 'v index_func = "'v \<Rightarrow> string list \<times> go_error option"
type_synonym index = "string \<Rightarrow> string set option"

record 'v thread_safe_map =
  ts_items :: "(string \<times> 'v) list"
  ts_indexers :: "(string \<times> 'v index_func) list"
  ts_indices :: "string \<Rightarrow> index option"

definition NewThreadSafeStore :: "(string \<times> 'v index_func) list \<Rightarrow> 'v thread_safe_map" where
  "NewThreadSafeStore indexers = \<lparr>ts_items = [], ts_indexers = indexers, ts_indices = Map.empty\<rparr>"

definition index_set :: "index option \<Rightarrow> string \<Rightarrow> string set" where
  "index_set ix v = (case ix of None \<Rightarrow> {} | Some i \<Rightarrow> (case i v of None \<Rightarrow> {} | Some s \<Rightarrow> s))"

fun insert_key :: "string \<Rightarrow> string list \<Rightarrow> index \<Rightarrow> index" where
  "insert_key key [] index = index"
| "insert_key key (v # vs) index =
     insert_key key vs (index(v \<mapsto> insert key (case index v of None \<Rightarrow> {} | Some s \<Rightarrow> s)))"

fun delete_key :: "string \<Rightarrow> string list \<Rightarrow> index \<Rightarrow> index" where
  "delete_key key [] index = index"
| "delete_key key (v # vs) index =
     delete_key key vs (case index v of None \<Rightarrow> index | Some s \<Rightarrow> index(v \<mapsto> s - {key}))"

definition index_panic :: "string \<Rightarrow> string \<Rightarrow> go_error \<Rightarrow> string" where
  "index_panic key name err =
     ''unable to calculate an index entry for key '' @ fmt_q key @ '' on index '' @ fmt_q name @ '': '' @ Error err"

fun deleteFromIndices ::
    "(string \<times> 'v index_func) list \<Rightarrow> 'v \<Rightarrow> string \<Rightarrow> (string \<Rightarrow> index option) \<Rightarrow> (string \<Rightarrow> index option) panicky" where
  "deleteFromIndices [] obj key indices = Returns indices"
| "deleteFromIndices ((name, indexFunc) # rest) obj key indices =
     (case indexFunc obj of
        (_, Some err) \<Rightarrow> Panics (index_panic key name err)
      | (indexValues, None) \<Rightarrow>
          (case indices name of
             None \<Rightarrow> deleteFromIndices rest obj key indices
           | Some index \<Rightarrow> deleteFromIndices rest obj key (indices(name \<mapsto> delete_key key indexValues index))))"

fun insertIntoIndices ::
    "(string \<times> 'v index_func) list \<Rightarrow> 'v \<Rightarrow> string \<Rightarrow> (string \<Rightarrow> index option) \<Rightarrow> (string \<Rightarrow> index option) panicky" where
  "insertIntoIndices [] obj key indices = Returns indices"
| "insertIntoIndices ((name, indexFunc) # rest) obj key indices =
     (case indexFunc obj of
        (_, Some err) \<Rightarrow> Panics (index_panic key name err)
      | (indexValues, None) \<Rightarrow>
          let index = (case indices name of None \<Rightarrow> Map.empty | Some i \<Rightarrow> i)
          in insertIntoIndices rest obj key (indices(name \<mapsto> insert_key key indexValues index)))"

definition updateIndices ::
    "(string \<times> 'v index_func) list \<Rightarrow> 'v option \<Rightarrow> 'v \<Rightarrow> string \<Rightarrow> (string \<Rightarrow> index option) \<Rightarrow>
     (string \<Rightarrow> index option) panicky" where
  "updateIndices indexers oldObj newObj key indices =
     (case (case oldObj of None \<Rightarrow> Returns indices | Some old \<Rightarrow> deleteFromIndices indexers old key indices) of
        Panics m \<Rightarrow> Panics m
      | Returns indices' \<Rightarrow> insertIntoIndices indexers newObj key indices')"

text \<open>Setting and deleting an entry of a map.\<close>

fun set_item :: "string \<Rightarrow> 'v \<Rightarrow> (string \<times> 'v) list \<Rightarrow> (string \<times> 'v) list" where
  "set_item key obj [] = [(key, obj)]"
| "set_item key obj ((k, v) # rest) = (if k = key then (key, obj) # rest else (k, v) # set_item key obj rest)"

definition drop_item :: "string \<Rightarrow> (string \<times> 'v) list \<Rightarrow> (string \<times> 'v) list" where
  "drop_item key items = filter (\<lambda>(k, v). k \<noteq> key) items"

definition ts_Add :: "string \<Rightarrow> 'v \<Rightarrow> 'v thread_safe_map \<Rightarrow> 'v thread_safe_map panicky" where
  "ts_Add key obj c =
     (let oldObject = map_of (ts_items c) key;
          c' = c\<lparr>ts_items := set_item key obj (ts_items c)\<rparr>
      in case updateIndices (ts_indexers c) oldObject obj key (ts_indices c) of
           Panics m \<Rightarrow> Panics m
         | Returns indices \<Rightarrow> Returns (c'\<lparr>ts_indices := indices\<rparr>))"

definition ts_Update :: "string \<Rightarrow> 'v \<Rightarrow> 'v thread_safe_map \<Rightarrow> 'v thread_safe_map panicky" where
  "ts_Update key obj c =
     (let oldObject = map_of (ts_items c) key;
          c' = c\<lparr>ts_items := set_item key obj (ts_items c)\<rparr>
      in case updateIndices (ts_indexers c) oldObject obj key (ts_indices c) of
           Panics m \<Rightarrow> Panics m
         | Returns indices \<Rightarrow> Returns (c'\<lparr>ts_indices := indices\<rparr>))"

definition ts_Delete :: "string \<Rightarrow> 'v thread_safe_map \<Rightarrow> 'v thread_safe_map panicky" where
  "ts_Delete key c =
     (case map_of (ts_items c) key of
        None \<Rightarrow> Returns c
      | Some obj \<Rightarrow>
          (case deleteFromIndices (ts_indexers c) obj key (ts_indices c) of
             Panics m \<Rightarrow> Panics m
           | Returns indices \<Rightarrow>
               Returns (c\<lparr>ts_indices := indices, ts_items := drop_item key (ts_items c)\<rparr>)))"

definition ts_Get :: "string \<Rightarrow> 'v thread_safe_map \<Rightarrow> 'v option" where
  "ts_Get key c = map_of (ts_items c) key"

definition ts_List :: "'v thread_safe_map \<Rightarrow> 'v list" where
  "ts_List c = map snd (ts_items c)"

definition ts_ListKeys :: "'v thread_safe_map \<Rightarrow> string list" where
  "ts_ListKeys c = map fst (ts_items c)"

fun index_all ::
    "(string \<times> 'v index_func) list \<Rightarrow> (string \<times> 'v) list \<Rightarrow> (string \<Rightarrow> index option) \<Rightarrow> (string \<Rightarrow> index option) panicky" where
  "index_all indexers [] indices = Returns indices"
| "index_all indexers ((key, item) # rest) indices =
     (case updateIndices indexers None item key indices of
        Panics m \<Rightarrow> Panics m
      | Returns indices' \<Rightarrow> index_all indexers rest indices')"

definition ts_Replace :: "(string \<times> 'v) list \<Rightarrow> 'v thread_safe_map \<Rightarrow> 'v thread_safe_map panicky" where
  "ts_Replace items c =
     (case index_all (ts_indexers c) items Map.empty of
        Panics m \<Rightarrow> Panics m
      | Returns indices \<Rightarrow> Returns (c\<lparr>ts_items := items, ts_indices := indices\<rparr>))"

text \<open>
  \<open>Index\<close> looks the keys up in the items; a key that is not there gives a nil object. The order of
  the keys is that of a set, here the sorted one.
\<close>

definition no_index :: "string \<Rightarrow> go_error" where
  "no_index name = ErrorString (''Index with name '' @ name @ '' does not exist'')"

definition ts_Index :: "string \<Rightarrow> 'v \<Rightarrow> 'v thread_safe_map \<Rightarrow> 'v option list \<times> go_error option" where
  "ts_Index indexName obj c =
     (case map_of (ts_indexers c) indexName of
        None \<Rightarrow> ([], Some (no_index indexName))
      | Some indexFunc \<Rightarrow>
          (case indexFunc obj of
             (_, Some err) \<Rightarrow> ([], Some err)
           | (indexKeys, None) \<Rightarrow>
               let returnKeySet = \<Union> (set (map (index_set (ts_indices c indexName)) indexKeys))
               in (map (\<lambda>k. map_of (ts_items c) k) (sorted_list_of_set returnKeySet), None)))"

definition ts_ByIndex :: "string \<Rightarrow> string \<Rightarrow> 'v thread_safe_map \<Rightarrow> 'v option list \<times> go_error option" where
  "ts_ByIndex indexName indexKey c =
     (case map_of (ts_indexers c) indexName of
        None \<Rightarrow> ([], Some (no_index indexName))
      | Some indexFunc \<Rightarrow>
          (map (\<lambda>k. map_of (ts_items c) k) (sorted_list_of_set (index_set (ts_indices c indexName) indexKey)), None))"

definition ts_IndexKeys :: "string \<Rightarrow> string \<Rightarrow> 'v thread_safe_map \<Rightarrow> string list \<times> go_error option" where
  "ts_IndexKeys indexName indexKey c =
     (case map_of (ts_indexers c) indexName of
        None \<Rightarrow> ([], Some (no_index indexName))
      | Some indexFunc \<Rightarrow> (sorted_list_of_set (index_set (ts_indices c indexName) indexKey), None))"

definition ts_AddIndexers :: "(string \<times> 'v index_func) list \<Rightarrow> 'v thread_safe_map \<Rightarrow> go_error option \<times> 'v thread_safe_map" where
  "ts_AddIndexers newIndexers c =
     (if ts_items c \<noteq> [] then (Some (ErrorString ''cannot add indexers to running index''), c)
      else if set (map fst (ts_indexers c)) \<inter> set (map fst newIndexers) \<noteq> {} then
        (Some (ErrorString ''indexer conflict''), c)
      else (None, c\<lparr>ts_indexers := ts_indexers c @ newIndexers\<rparr>))"

section \<open>The cache of virtual machines\<close>

definition NamespaceIndex :: string where
  "NamespaceIndex = ''namespace''"

definition MetaNamespaceIndexFunc :: "virtual_machine index_func" where
  "MetaNamespaceIndexFunc vm = ([vm_namespace vm], None)"

type_synonym vm_cache = "virtual_machine thread_safe_map"

definition NewIndexer :: "(string \<times> virtual_machine index_func) list \<Rightarrow> vm_cache" where
  "NewIndexer indexers = NewThreadSafeStore indexers"

text \<open>The key function of the informer; a machine always has a key.\<close>

definition cache_Add :: "virtual_machine \<Rightarrow> vm_cache \<Rightarrow> vm_cache panicky" where
  "cache_Add vm c = ts_Add (fst (DeletionHandlingMetaNamespaceKeyFunc (VMObject vm))) vm c"

definition cache_Update :: "virtual_machine \<Rightarrow> vm_cache \<Rightarrow> vm_cache panicky" where
  "cache_Update vm c = ts_Update (fst (DeletionHandlingMetaNamespaceKeyFunc (VMObject vm))) vm c"

definition cache_Delete :: "informer_object \<Rightarrow> vm_cache \<Rightarrow> (go_error option \<times> vm_cache) panicky" where
  "cache_Delete obj c =
     (case DeletionHandlingMetaNamespaceKeyFunc obj of
        (_, Some err) \<Rightarrow> Returns (Some (errorf_v (''couldn'' @ CHR 0x27 # ''t create key for object: '') err), c)
      | (key, None) \<Rightarrow> (case ts_Delete key c of Panics m \<Rightarrow> Panics m | Returns c' \<Rightarrow> Returns (None, c')))"

fun keyed_items :: "virtual_machine list \<Rightarrow> (string \<times> virtual_machine) list \<Rightarrow> (string \<times> virtual_machine) list" where
  "keyed_items [] items = items"
| "keyed_items (vm # vms) items =
     keyed_items vms (set_item (fst (DeletionHandlingMetaNamespaceKeyFunc (VMObject vm))) vm items)"

definition cache_Replace :: "virtual_machine list \<Rightarrow> vm_cache \<Rightarrow> vm_cache panicky" where
  "cache_Replace vms c = ts_Replace (keyed_items vms []) c"

text \<open>\<open>GetByKey\<close> never fails; a \<open>KeyError\<close> is given without the text of its object.\<close>

definition cache_GetByKey :: "string \<Rightarrow> vm_cache \<Rightarrow> virtual_machine option" where
  "cache_GetByKey key c = ts_Get key c"

definition cache_Get :: "informer_object \<Rightarrow> vm_cache \<Rightarrow> virtual_machine option \<times> go_error option" where
  "cache_Get obj c =
     (case DeletionHandlingMetaNamespaceKeyFunc obj of
        (_, Some err) \<Rightarrow> (None, Some (errorf_v (''couldn'' @ CHR 0x27 # ''t create key for object: '') err))
      | (key, None) \<Rightarrow> (cache_GetByKey key c, None))"

end
