(* ===== verification/Listers.thy ===== *)
theory Listers
  imports Object_Cache
begin

text \<open>
  The listers of \<open>pkg/client/listers/virtualmachines/v1alpha1/virtualmachine.go\<close> and the functions
  \<open>ListAll\<close> and \<open>ListAllByNamespace\<close> of \<open>client-go/tools/cache/listers.go\<close> that they call. An indexer is
  the interface value \<open>cache.Indexer\<close>, by the three methods they use; \<open>cache_indexer\<close> is the cache
  seen through it. A selector is the function that decides on the labels of an object.
\<close>

record indexer =
  ix_List :: "virtual_machine option list"
  ix_Index :: "string \<Rightarrow> virtual_machine \<Rightarrow> virtual_machine option list \<times> go_error option"
  ix_GetByKey :: "string \<Rightarrow> virtual_machine option \<times> go_error option"

definition cache_indexer :: "vm_cache \<Rightarrow> indexer" where
  "cache_indexer c =
     \<lparr>ix_List = map Some (ts_List c), ix_Index = (\<lambda>name obj. ts_Index name obj c),
      ix_GetByKey = (\<lambda>key. (cache_GetByKey key c, None))\<rparr>"

type_synonym selector = "(string \<times> string) slice \<Rightarrow> bool"

definition vm_labels :: "virtual_machine \<Rightarrow> (string \<times> string) slice" where
  "vm_labels vm = om_labels (metadata vm)"

definition not_an_object :: go_error where
  "not_an_object = ErrorString ''object does not implement the Object interfaces''"

text \<open>
  The loops of \<open>ListAll\<close> and \<open>ListAllByNamespace\<close>, with what was appended when they end; a nil object
  has no metadata.
\<close>

fun append_matching ::
    "(virtual_machine \<Rightarrow> bool) \<Rightarrow> virtual_machine option list \<Rightarrow> virtual_machine list \<times> go_error option" where
  "append_matching wanted [] = ([], None)"
| "append_matching wanted (None # ms) = ([], Some not_an_object)"
| "append_matching wanted (Some m # ms) =
     (case append_matching wanted ms of (found, err) \<Rightarrow> (if wanted m then m # found else found, err))"

definition ListAll :: "indexer \<Rightarrow> selector \<Rightarrow> virtual_machine list \<times> go_error option" where
  "ListAll store matches = append_matching (\<lambda>m. matches (vm_labels m)) (ix_List store)"

definition NamespaceAll :: string where "NamespaceAll = []"

definition ListAllByNamespace :: "indexer \<Rightarrow> string \<Rightarrow> selector \<Rightarrow> virtual_machine list \<times> go_error option" where
  "ListAllByNamespace ix namespace matches =
     (if namespace = NamespaceAll then append_matching (\<lambda>m. matches (vm_labels m)) (ix_List ix)
      else
        case ix_Index ix NamespaceIndex (empty_vm\<lparr>metadata := (metadata empty_vm)\<lparr>om_namespace := namespace\<rparr>\<rparr>) of
          (_, Some err) \<Rightarrow>
            append_matching (\<lambda>m. vm_namespace m = namespace \<and> matches (vm_labels m)) (ix_List ix)
        | (items, None) \<Rightarrow> append_matching (\<lambda>m. matches (vm_labels m)) items)"

section \<open>The listers of virtual machines\<close>

record virtualMachineLister =
  vl_indexer :: indexer

definition NewVirtualMachineLister :: "indexer \<Rightarrow> virtualMachineLister" where
  "NewVirtualMachineLister ix = \<lparr>vl_indexer = ix\<rparr>"

definition lister_List :: "virtualMachineLister \<Rightarrow> selector \<Rightarrow> virtual_machine list \<times> go_error option" where
  "lister_List s matches = ListAll (vl_indexer s) matches"

record virtualMachineNamespaceLister =
  vnl_indexer :: indexer
  vnl_namespace :: string

definition lister_VirtualMachines :: "virtualMachineLister \<Rightarrow> string \<Rightarrow> virtualMachineNamespaceLister" where
  "lister_VirtualMachines s namespace = \<lparr>vnl_indexer = vl_indexer s, vnl_namespace = namespace\<rparr>"

definition namespace_List ::
    "virtualMachineNamespaceLister \<Rightarrow> selector \<Rightarrow> virtual_machine list \<times> go_error option" where
  "namespace_List s matches = ListAllByNamespace (vnl_indexer s) (vnl_namespace s) matches"

definition lister_resource :: string where
  "lister_resource = ''virtualmachine.'' @ GroupName"

definition namespace_Get :: "virtualMachineNamespaceLister \<Rightarrow> string \<Rightarrow> virtual_machine option \<times> go_error option" where
  "namespace_Get s name =
     (case ix_GetByKey (vnl_indexer s) (vnl_namespace s @ ''/'' @ name) of
        (_, Some err) \<Rightarrow> (None, Some err)
      | (None, None) \<Rightarrow> (None, Some (NewNotFound lister_resource name))
      | (Some obj, None) \<Rightarrow> (Some obj, None))"

end
