(* ===== verification/Object_Cache_Correct.thy ===== *)
theory Object_Cache_Correct
  imports Object_Cache
begin

text \<open>
  The invariant of the object cache: keys are distinct and every index holds, under each value,
  exactly the keys of the stored objects that have this value. All operations keep it, so that
  looking objects up by an index is filtering the stored objects.
\<close>

section \<open>Items\<close>

lemma map_of_set_item [simp]: "map_of (set_item key obj items) = (map_of items)(key \<mapsto> obj)"
  by (induction key obj items rule: set_item.induct) (auto simp: fun_eq_iff)

lemma keys_set_item: "set (map fst (set_item key obj items)) = insert key (set (map fst items))"
  by (induction key obj items rule: set_item.induct) auto

lemma distinct_set_item: "distinct (map fst items) \<Longrightarrow> distinct (map fst (set_item key obj items))"
proof (induction key obj items rule: set_item.induct)
  case (2 key obj k v rest)
  then show ?case using keys_set_item [of key obj rest] by auto
qed simp

lemma map_of_drop_item [simp]: "map_of (drop_item key items) = (map_of items)(key := None)"
  by (induction items) (auto simp: drop_item_def fun_eq_iff)

lemma distinct_drop_item: "distinct (map fst items) \<Longrightarrow> distinct (map fst (drop_item key items))"
  by (auto simp: drop_item_def distinct_map inj_on_def)

section \<open>Indices\<close>

lemma index_set_insert1:
  "index_set (Some (i(w \<mapsto> insert key (case i w of None \<Rightarrow> {} | Some s \<Rightarrow> s)))) v =
     index_set (Some i) v \<union> (if v = w then {key} else {})"
  by (simp add: index_set_def split: option.split)

lemma index_set_delete1:
  "index_set (Some (case i w of None \<Rightarrow> i | Some s \<Rightarrow> i(w \<mapsto> s - {key}))) v =
     index_set (Some i) v - (if v = w then {key} else {})"
  by (simp add: index_set_def split: option.split)

lemma index_set_insert [simp]:
  "index_set (Some (insert_key key vs i)) v = index_set (Some i) v \<union> (if v \<in> set vs then {key} else {})"
proof (induction key vs i rule: insert_key.induct)
  case (2 key w vs i)
  then show ?case by (simp only: insert_key.simps index_set_insert1) auto
qed simp

lemma index_set_delete [simp]:
  "index_set (Some (delete_key key vs i)) v = index_set (Some i) v - (if v \<in> set vs then {key} else {})"
proof (induction key vs i rule: delete_key.induct)
  case (2 key w vs i)
  then show ?case by (simp only: delete_key.simps index_set_delete1) auto
qed simp

lemma index_set_None [simp]: "index_set None v = {}" "index_set (Some Map.empty) v = {}"
  by (simp_all add: index_set_def)

text \<open>Index functions that always succeed, under distinct names.\<close>

definition total_indexers :: "(string \<times> 'v index_func) list \<Rightarrow> bool" where
  "total_indexers indexers =
     (distinct (map fst indexers) \<and> list_all (\<lambda>(name, f). \<forall>obj. snd (f obj) = None) indexers)"

lemma total_Cons:
  "total_indexers ((name, f) # rest) \<longleftrightarrow>
     name \<notin> set (map fst rest) \<and> (\<forall>obj. snd (f obj) = None) \<and> total_indexers rest"
  by (auto simp: total_indexers_def)

lemma total_value: "\<forall>obj. snd (f obj) = None \<Longrightarrow> f obj = (fst (f obj), None)"
  by (metis prod.collapse)

definition index_values :: "(string \<times> 'v index_func) list \<Rightarrow> string \<Rightarrow> 'v \<Rightarrow> string set" where
  "index_values indexers name obj = (case map_of indexers name of None \<Rightarrow> {} | Some f \<Rightarrow> set (fst (f obj)))"

lemma deleteFromIndices_spec:
  assumes "total_indexers indexers"
  obtains indices' where "deleteFromIndices indexers obj key indices = Returns indices'"
    "\<forall>name v. index_set (indices' name) v =
       index_set (indices name) v - (if v \<in> index_values indexers name obj then {key} else {})"
  using assms
proof (induction indexers arbitrary: indices thesis)
  case Nil
  then show ?case by (simp add: index_values_def)
next
  case (Cons nf rest)
  obtain name f where nf: "nf = (name, f)" by fastforce
  have tot: "name \<notin> set (map fst rest)" "\<forall>obj. snd (f obj) = None" "total_indexers rest"
    using Cons.prems(2) by (simp_all add: nf total_Cons)
  have rest: "map_of rest name = None" using tot(1) by (simp add: map_of_eq_None_iff)
  let ?ind = "case indices name of None \<Rightarrow> indices | Some i \<Rightarrow> indices(name \<mapsto> delete_key key (fst (f obj)) i)"
  have step: "deleteFromIndices (nf # rest) obj key indices = deleteFromIndices rest obj key ?ind"
  proof -
    obtain vs where "f obj = (vs, None)" using total_value [OF tot(2)] by blast
    then show ?thesis by (simp add: nf split: option.split)
  qed
  have ind: "index_set (?ind n) v = index_set (indices n) v - (if n = name \<and> v \<in> set (fst (f obj)) then {key} else {})" for n v
    by (auto split: option.split)
  obtain indices' where i': "deleteFromIndices rest obj key ?ind = Returns indices'"
      "\<forall>n v. index_set (indices' n) v = index_set (?ind n) v - (if v \<in> index_values rest n obj then {key} else {})"
    using Cons.IH tot(3) by blast
  show ?case
  proof (rule Cons.prems(1))
    show "deleteFromIndices (nf # rest) obj key indices = Returns indices'" using step i'(1) by simp
    show "\<forall>n v. index_set (indices' n) v =
        index_set (indices n) v - (if v \<in> index_values (nf # rest) n obj then {key} else {})"
      using i'(2) ind rest by (auto simp: nf index_values_def)
  qed
qed

lemma insertIntoIndices_spec:
  assumes "total_indexers indexers"
  obtains indices' where "insertIntoIndices indexers obj key indices = Returns indices'"
    "\<forall>name v. index_set (indices' name) v =
       index_set (indices name) v \<union> (if v \<in> index_values indexers name obj then {key} else {})"
  using assms
proof (induction indexers arbitrary: indices thesis)
  case Nil
  then show ?case by (simp add: index_values_def)
next
  case (Cons nf rest)
  obtain name f where nf: "nf = (name, f)" by fastforce
  have tot: "name \<notin> set (map fst rest)" "\<forall>obj. snd (f obj) = None" "total_indexers rest"
    using Cons.prems(2) by (simp_all add: nf total_Cons)
  have rest: "map_of rest name = None" using tot(1) by (simp add: map_of_eq_None_iff)
  let ?ind = "indices(name \<mapsto> insert_key key (fst (f obj)) (case indices name of None \<Rightarrow> Map.empty | Some i \<Rightarrow> i))"
  have step: "insertIntoIndices (nf # rest) obj key indices = insertIntoIndices rest obj key ?ind"
  proof -
    obtain vs where "f obj = (vs, None)" using total_value [OF tot(2)] by blast
    then show ?thesis by (simp add: nf Let_def)
  qed
  have ind: "index_set (?ind n) v = index_set (indices n) v \<union> (if n = name \<and> v \<in> set (fst (f obj)) then {key} else {})" for n v
    by (auto split: option.split)
  obtain indices' where i': "insertIntoIndices rest obj key ?ind = Returns indices'"
      "\<forall>n v. index_set (indices' n) v = index_set (?ind n) v \<union> (if v \<in> index_values rest n obj then {key} else {})"
    using Cons.IH tot(3) by blast
  show ?case
  proof (rule Cons.prems(1))
    show "insertIntoIndices (nf # rest) obj key indices = Returns indices'" using step i'(1) by simp
    show "\<forall>n v. index_set (indices' n) v =
        index_set (indices n) v \<union> (if v \<in> index_values (nf # rest) n obj then {key} else {})"
      using i'(2) ind rest by (auto simp: nf index_values_def)
  qed
qed

section \<open>The invariant\<close>

definition indexed :: "(string \<times> 'v index_func) list \<Rightarrow> (string \<Rightarrow> 'v option) \<Rightarrow> (string \<Rightarrow> index option) \<Rightarrow> bool" where
  "indexed indexers stored indices =
     (\<forall>name v. index_set (indices name) v = {k. \<exists>obj. stored k = Some obj \<and> v \<in> index_values indexers name obj})"

definition consistent :: "'v thread_safe_map \<Rightarrow> bool" where
  "consistent c =
     (distinct (map fst (ts_items c)) \<and> total_indexers (ts_indexers c) \<and>
      indexed (ts_indexers c) (map_of (ts_items c)) (ts_indices c))"

lemma indexed_delete:
  assumes "total_indexers indexers" "indexed indexers stored indices" "stored key = Some obj"
  obtains indices' where "deleteFromIndices indexers obj key indices = Returns indices'"
    "indexed indexers (stored(key := None)) indices'"
proof -
  obtain indices' where i': "deleteFromIndices indexers obj key indices = Returns indices'"
      "\<forall>name v. index_set (indices' name) v =
       index_set (indices name) v - (if v \<in> index_values indexers name obj then {key} else {})"
    by (rule deleteFromIndices_spec [OF assms(1)])
  have "indexed indexers (stored(key := None)) indices'"
    using assms(2,3) i'(2) by (auto simp: indexed_def split: if_splits)
  with i'(1) show thesis by (rule that)
qed

lemma indexed_insert:
  assumes "total_indexers indexers" "indexed indexers stored indices" "stored key = None"
  obtains indices' where "insertIntoIndices indexers obj key indices = Returns indices'"
    "indexed indexers (stored(key \<mapsto> obj)) indices'"
proof -
  obtain indices' where i': "insertIntoIndices indexers obj key indices = Returns indices'"
      "\<forall>name v. index_set (indices' name) v =
       index_set (indices name) v \<union> (if v \<in> index_values indexers name obj then {key} else {})"
    by (rule insertIntoIndices_spec [OF assms(1)])
  have "indexed indexers (stored(key \<mapsto> obj)) indices'"
    using assms(2,3) i'(2) by (auto simp: indexed_def split: if_splits)
  with i'(1) show thesis by (rule that)
qed

lemma indexed_update:
  assumes "total_indexers indexers" "indexed indexers stored indices"
  obtains indices' where "updateIndices indexers (stored key) obj key indices = Returns indices'"
    "indexed indexers (stored(key \<mapsto> obj)) indices'"
proof (cases "stored key")
  case None
  obtain i1 where "insertIntoIndices indexers obj key indices = Returns i1"
      "indexed indexers (stored(key \<mapsto> obj)) i1"
    by (rule indexed_insert [OF assms None])
  with None show thesis by (intro that [of i1]) (simp_all add: updateIndices_def)
next
  case (Some old)
  obtain i1 where i1: "deleteFromIndices indexers old key indices = Returns i1"
      "indexed indexers (stored(key := None)) i1"
    by (rule indexed_delete [OF assms Some])
  obtain i2 where "insertIntoIndices indexers obj key i1 = Returns i2"
      "indexed indexers ((stored(key := None))(key \<mapsto> obj)) i2"
    by (rule indexed_insert [OF assms(1) i1(2), of key]) simp_all
  with i1(1) Some show thesis by (intro that [of i2]) (simp_all add: updateIndices_def)
qed

lemma ts_Add_ok:
  assumes "consistent c"
  obtains c' where "ts_Add key obj c = Returns c'" "consistent c'" "ts_indexers c' = ts_indexers c"
    "map_of (ts_items c') = (map_of (ts_items c))(key \<mapsto> obj)"
proof -
  obtain indices where ind: "updateIndices (ts_indexers c) (map_of (ts_items c) key) obj key (ts_indices c) = Returns indices"
      "indexed (ts_indexers c) ((map_of (ts_items c))(key \<mapsto> obj)) indices"
    by (rule indexed_update [of "ts_indexers c" "map_of (ts_items c)" "ts_indices c" key obj])
      (use assms in \<open>simp_all add: consistent_def\<close>)
  let ?c = "c\<lparr>ts_items := set_item key obj (ts_items c), ts_indices := indices\<rparr>"
  have "ts_Add key obj c = Returns ?c" using ind(1) by (simp add: ts_Add_def Let_def)
  moreover have "consistent ?c"
    using assms ind(2) distinct_set_item [of "ts_items c"] by (simp add: consistent_def)
  ultimately show thesis by (intro that [of ?c]) simp_all
qed

lemma ts_Update_eq: "ts_Update = ts_Add"
  by (simp add: fun_eq_iff ts_Update_def ts_Add_def)

lemma ts_Delete_ok:
  assumes "consistent c"
  obtains c' where "ts_Delete key c = Returns c'" "consistent c'" "ts_indexers c' = ts_indexers c"
    "map_of (ts_items c') = (map_of (ts_items c))(key := None)"
proof (cases "map_of (ts_items c) key")
  case None
  then have "(map_of (ts_items c))(key := None) = map_of (ts_items c)" by (simp add: fun_upd_idem)
  with None assms show thesis by (intro that [of c]) (simp_all add: ts_Delete_def)
next
  case (Some obj)
  obtain indices where ind: "deleteFromIndices (ts_indexers c) obj key (ts_indices c) = Returns indices"
      "indexed (ts_indexers c) ((map_of (ts_items c))(key := None)) indices"
    by (rule indexed_delete [of "ts_indexers c" "map_of (ts_items c)" "ts_indices c" key obj])
      (use assms Some in \<open>simp_all add: consistent_def\<close>)
  let ?c = "c\<lparr>ts_indices := indices, ts_items := drop_item key (ts_items c)\<rparr>"
  have "ts_Delete key c = Returns ?c" using ind(1) Some by (simp add: ts_Delete_def)
  moreover have "consistent ?c"
    using assms ind(2) distinct_drop_item [of "ts_items c"] by (simp add: consistent_def)
  ultimately show thesis by (intro that [of ?c]) simp_all
qed

lemma index_all_ok:
  assumes "total_indexers indexers" "indexed indexers stored indices" "distinct (map fst items)"
    "set (map fst items) \<inter> dom stored = {}"
  obtains indices' where "index_all indexers items indices = Returns indices'"
    "indexed indexers (stored ++ map_of items) indices'"
  using assms(2-4)
proof (induction items arbitrary: stored indices thesis)
  case (Cons kv items)
  obtain key item where kv: "kv = (key, item)" by fastforce
  have new: "stored key = None" using Cons.prems(4) kv by auto
  obtain i1 where i1: "insertIntoIndices indexers item key indices = Returns i1"
      "indexed indexers (stored(key \<mapsto> item)) i1"
    by (rule indexed_insert [OF assms(1) Cons.prems(2) new])
  have "set (map fst items) \<inter> dom (stored(key \<mapsto> item)) = {}"
    using Cons.prems(3,4) kv by auto
  moreover have "distinct (map fst items)" using Cons.prems(3) by simp
  ultimately obtain i2 where i2: "index_all indexers items i1 = Returns i2"
      "indexed indexers (stored(key \<mapsto> item) ++ map_of items) i2"
    using Cons.IH [OF _ i1(2)] by blast
  have "map_of items key = None" using Cons.prems(3) kv by (simp add: map_of_eq_None_iff)
  then have "stored(key \<mapsto> item) ++ map_of items = stored ++ map_of (kv # items)"
    by (simp add: kv fun_eq_iff map_add_def split: option.split)
  with i2(2) have all: "indexed indexers (stored ++ map_of (kv # items)) i2" by (simp only:)
  have "index_all indexers (kv # items) indices = Returns i2"
    using i1(1) i2(1) by (simp add: kv updateIndices_def)
  then show ?case by (rule Cons.prems(1)) (rule all)
qed simp

lemma ts_Replace_ok:
  assumes "consistent c" "distinct (map fst items)"
  obtains c' where "ts_Replace items c = Returns c'" "consistent c'" "ts_indexers c' = ts_indexers c"
    "map_of (ts_items c') = map_of items"
proof -
  have tot: "total_indexers (ts_indexers c)" using assms(1) by (simp add: consistent_def)
  have "indexed (ts_indexers c) Map.empty Map.empty" by (simp add: indexed_def)
  then obtain indices where ind: "index_all (ts_indexers c) items Map.empty = Returns indices"
      "indexed (ts_indexers c) (Map.empty ++ map_of items) indices"
    using index_all_ok [OF tot _ assms(2)] by (metis dom_empty inf_bot_right)
  let ?c = "c\<lparr>ts_items := items, ts_indices := indices\<rparr>"
  have "ts_Replace items c = Returns ?c" using ind(1) by (simp add: ts_Replace_def)
  moreover have "consistent ?c" using tot ind(2) assms(2) by (simp add: consistent_def)
  ultimately show thesis by (intro that [of ?c]) simp_all
qed

text \<open>An index answers with the stored objects that have the value.\<close>

lemma ts_Index_ok:
  assumes "consistent c" "map_of (ts_indexers c) name = Some f" "fst (f obj) = [v]"
  shows "ts_Index name obj c =
    (map (map_of (ts_items c)) (sorted_list_of_set {k. \<exists>x. map_of (ts_items c) k = Some x \<and> v \<in> set (fst (f x))}), None)"
proof -
  have "\<forall>x. snd (f x) = None"
    using assms(1,2) map_of_SomeD [OF assms(2)] by (auto simp: consistent_def total_indexers_def list_all_iff)
  then have "f obj = ([v], None)" using assms(3) by (metis prod.collapse)
  moreover have "index_set (ts_indices c name) v = {k. \<exists>x. map_of (ts_items c) k = Some x \<and> v \<in> set (fst (f x))}"
    using assms(1,2) by (simp add: consistent_def indexed_def index_values_def)
  ultimately show ?thesis using assms(2) by (simp add: ts_Index_def)
qed

lemma ts_ByIndex_ok:
  assumes "consistent c" "map_of (ts_indexers c) name = Some f"
  shows "ts_ByIndex name v c =
    (map (map_of (ts_items c)) (sorted_list_of_set {k. \<exists>x. map_of (ts_items c) k = Some x \<and> v \<in> set (fst (f x))}), None)"
  using assms by (simp add: ts_ByIndex_def consistent_def indexed_def index_values_def)

section \<open>The cache of virtual machines\<close>

text \<open>Each machine lies under its own key.\<close>

definition vm_key :: "virtual_machine \<Rightarrow> string" where
  "vm_key vm = key_of (vm_namespace vm) (vm_name vm)"

definition keyed :: "(string \<Rightarrow> virtual_machine option) \<Rightarrow> bool" where
  "keyed stored = (\<forall>k vm. stored k = Some vm \<longrightarrow> k = vm_key vm)"

definition cache_inv :: "vm_cache \<Rightarrow> bool" where
  "cache_inv c = (consistent c \<and> keyed (map_of (ts_items c)))"

lemma keyed_simps [simp]:
  "keyed Map.empty" "keyed stored \<Longrightarrow> keyed (stored(vm_key vm \<mapsto> vm))" "keyed stored \<Longrightarrow> keyed (stored(k := None))"
  by (simp_all add: keyed_def)

lemma vm_key_func: "DeletionHandlingMetaNamespaceKeyFunc (VMObject vm) = (vm_key vm, None)"
  unfolding vm_key_def by (rule key_of_VMObject)

lemma consistent_new: "total_indexers indexers \<Longrightarrow> consistent (NewThreadSafeStore indexers)"
  by (simp add: consistent_def NewThreadSafeStore_def indexed_def)

lemma cache_inv_new: "total_indexers indexers \<Longrightarrow> cache_inv (NewIndexer indexers)"
  by (simp add: cache_inv_def NewIndexer_def consistent_new) (simp add: NewThreadSafeStore_def)

lemma cache_Add_ok:
  assumes "cache_inv c"
  obtains c' where "cache_Add vm c = Returns c'" "cache_inv c'" "ts_indexers c' = ts_indexers c"
    "map_of (ts_items c') = (map_of (ts_items c))(vm_key vm \<mapsto> vm)"
proof -
  have c: "consistent c" and k: "keyed (map_of (ts_items c))" using assms by (simp_all add: cache_inv_def)
  obtain c' where c': "ts_Add (vm_key vm) vm c = Returns c'" "consistent c'" "ts_indexers c' = ts_indexers c"
    "map_of (ts_items c') = (map_of (ts_items c))(vm_key vm \<mapsto> vm)"
    by (rule ts_Add_ok [OF c])
  show thesis
    by (rule that [of c']) (use c' k in \<open>simp_all add: cache_Add_def vm_key_func cache_inv_def del: DeletionHandlingMetaNamespaceKeyFunc.simps\<close>)
qed

lemma cache_Update_eq: "cache_Update = cache_Add"
  by (simp add: fun_eq_iff cache_Update_def cache_Add_def ts_Update_eq)

lemma cache_Delete_ok:
  assumes "cache_inv c" "DeletionHandlingMetaNamespaceKeyFunc obj = (key, None)"
  obtains c' where "cache_Delete obj c = Returns (None, c')" "cache_inv c'" "ts_indexers c' = ts_indexers c"
    "map_of (ts_items c') = (map_of (ts_items c))(key := None)"
proof -
  have c: "consistent c" and k: "keyed (map_of (ts_items c))" using assms by (simp_all add: cache_inv_def)
  obtain c' where c': "ts_Delete key c = Returns c'" "consistent c'" "ts_indexers c' = ts_indexers c"
    "map_of (ts_items c') = (map_of (ts_items c))(key := None)"
    by (rule ts_Delete_ok [OF c])
  show thesis
    by (rule that [of c']) (use c' k assms(2) in \<open>simp_all add: cache_Delete_def cache_inv_def\<close>)
qed

lemma cache_Delete_bad_key:
  assumes "DeletionHandlingMetaNamespaceKeyFunc obj = (key, Some err)"
  obtains err' where "cache_Delete obj c = Returns (Some err', c)"
  using assms by (simp add: cache_Delete_def)

text \<open>\<open>Replace\<close>: the last machine of a key counts.\<close>

lemma keyed_items_ok:
  "distinct (map fst items) \<Longrightarrow> keyed (map_of items) \<Longrightarrow>
     distinct (map fst (keyed_items vms items)) \<and> keyed (map_of (keyed_items vms items))"
  by (induction vms items rule: keyed_items.induct)
    (simp_all add: vm_key_func distinct_set_item del: DeletionHandlingMetaNamespaceKeyFunc.simps)

lemma cache_Replace_ok:
  assumes "cache_inv c"
  obtains c' where "cache_Replace vms c = Returns c'" "cache_inv c'" "ts_indexers c' = ts_indexers c"
    "map_of (ts_items c') = map_of (keyed_items vms [])"
proof -
  have c: "consistent c" using assms by (simp add: cache_inv_def)
  have k: "distinct (map fst (keyed_items vms []))" "keyed (map_of (keyed_items vms []))"
    using keyed_items_ok [of "[]" vms] by simp_all
  obtain c' where c': "ts_Replace (keyed_items vms []) c = Returns c'" "consistent c'" "ts_indexers c' = ts_indexers c"
    "map_of (ts_items c') = map_of (keyed_items vms [])"
    by (rule ts_Replace_ok [OF c k(1)])
  show thesis
    by (rule that [of c']) (use c' k in \<open>simp_all add: cache_Replace_def cache_inv_def\<close>)
qed

lemma cache_Get_machine: "cache_Get (VMObject vm) c = (map_of (ts_items c) (vm_key vm), None)"
  unfolding cache_Get_def vm_key_func by (simp add: cache_GetByKey_def ts_Get_def)

end
