(* ===== verification/Informer_Events.thy ===== *)
theory Informer_Events
  imports Object_Cache_Correct Controller
begin

text \<open>
  How the shared informer of \<open>client-go/tools/cache/shared_informer.go\<close> brings the changes of virtual
  machines into its cache and to the handlers of the controller: \<open>HandleDeltas\<close>, the distribution to
  the listener, which gets a notification of a sync only while it is syncing, and the calls of the
  handlers. The objects of the deltas that add or update are virtual machines, since the reflector
  drops objects of other types; a deletion may come as a tombstone.
\<close>

section \<open>Deltas and notifications\<close>

datatype delta =
    Added virtual_machine
  | Updated virtual_machine
  | Deleted informer_object
  | Sync virtual_machine

datatype notification =
    updateNotification virtual_machine virtual_machine
  | addNotification virtual_machine
  | deleteNotification informer_object

text \<open>The cache afterwards, an error that ends the batch, and what is distributed, with \<open>isSync\<close>.\<close>

type_synonym handled_deltas = "(go_error option \<times> vm_cache \<times> (notification \<times> bool) list) panicky"

definition handle_change :: "bool \<Rightarrow> virtual_machine \<Rightarrow> vm_cache \<Rightarrow> handled_deltas" where
  "handle_change isSync vm c =
     (case cache_Get (VMObject vm) c of
        (Some old, None) \<Rightarrow>
          (case cache_Update vm c of
             Panics m \<Rightarrow> Panics m
           | Returns c' \<Rightarrow> Returns (None, c', [(updateNotification old vm, isSync)]))
      | _ \<Rightarrow>
          (case cache_Add vm c of
             Panics m \<Rightarrow> Panics m
           | Returns c' \<Rightarrow> Returns (None, c', [(addNotification vm, isSync)])))"

fun handle_delta :: "delta \<Rightarrow> vm_cache \<Rightarrow> handled_deltas" where
  "handle_delta (Sync vm) c = handle_change True vm c"
| "handle_delta (Added vm) c = handle_change False vm c"
| "handle_delta (Updated vm) c = handle_change False vm c"
| "handle_delta (Deleted obj) c =
     (case cache_Delete obj c of
        Panics m \<Rightarrow> Panics m
      | Returns (Some err, c') \<Rightarrow> Returns (Some err, c', [])
      | Returns (None, c') \<Rightarrow> Returns (None, c', [(deleteNotification obj, False)]))"

fun HandleDeltas :: "delta list \<Rightarrow> vm_cache \<Rightarrow> handled_deltas" where
  "HandleDeltas [] c = Returns (None, c, [])"
| "HandleDeltas (d # ds) c =
     (case handle_delta d c of
        Panics m \<Rightarrow> Panics m
      | Returns (Some err, c', ns) \<Rightarrow> Returns (Some err, c', ns)
      | Returns (None, c', ns) \<Rightarrow>
          (case HandleDeltas ds c' of
             Panics m \<Rightarrow> Panics m
           | Returns (err, c'', ns') \<Rightarrow> Returns (err, c'', ns @ ns')))"

text \<open>A listener gets what is distributed, in order, and calls its handler for each.\<close>

definition distribute :: "bool \<Rightarrow> (notification \<times> bool) list \<Rightarrow> notification list" where
  "distribute syncing ns = map fst (filter (\<lambda>(n, isSync). isSync \<longrightarrow> syncing) ns)"

fun listener_call :: "notification \<Rightarrow> ((string, 'b) rl_queue, unit) go" where
  "listener_call (updateNotification old new) = handler_update (VMObject old) (VMObject new)"
| "listener_call (addNotification new) = handler_add (VMObject new)"
| "listener_call (deleteNotification old) = handler_delete old"

fun listener_run :: "notification list \<Rightarrow> ((string, 'b) rl_queue, unit) go" where
  "listener_run [] = ret ()"
| "listener_run (n # ns) = andthen (listener_call n) (\<lambda>_. listener_run ns)"

text \<open>Batches of deltas, one after the other; the error of a batch does not stop the next.\<close>

fun handle_batches :: "delta list list \<Rightarrow> vm_cache \<Rightarrow> vm_cache panicky" where
  "handle_batches [] c = Returns c"
| "handle_batches (b # bs) c =
     (case HandleDeltas b c of
        Panics m \<Rightarrow> Panics m
      | Returns (err, c', ns) \<Rightarrow> handle_batches bs c')"

section \<open>The cache after the deltas\<close>

lemma handle_change_ok:
  assumes "cache_inv c"
  obtains c' n where "handle_change isSync vm c = Returns (None, c', [(n, isSync)])" "cache_inv c'"
    "ts_indexers c' = ts_indexers c" "map_of (ts_items c') = (map_of (ts_items c))(vm_key vm \<mapsto> vm)"
    "n = addNotification vm \<or> (\<exists>old. n = updateNotification old vm)"
proof -
  obtain c' where c': "cache_Add vm c = Returns c'" "cache_inv c'" "ts_indexers c' = ts_indexers c"
    "map_of (ts_items c') = (map_of (ts_items c))(vm_key vm \<mapsto> vm)"
    by (rule cache_Add_ok [OF assms])
  show thesis
  proof (cases "map_of (ts_items c) (vm_key vm)")
    case None
    show thesis
      by (rule that [of c' "addNotification vm"])
        (use None c' in \<open>simp_all add: handle_change_def cache_Get_machine\<close>)
  next
    case (Some old)
    show thesis
      by (rule that [of c' "updateNotification old vm"])
        (use Some c' in \<open>simp_all add: handle_change_def cache_Get_machine cache_Update_eq\<close>)
  qed
qed

text \<open>One delta: what is stored under other keys stays, and a change is distributed.\<close>

fun delta_key :: "delta \<Rightarrow> string" where
  "delta_key (Added vm) = vm_key vm"
| "delta_key (Updated vm) = vm_key vm"
| "delta_key (Sync vm) = vm_key vm"
| "delta_key (Deleted obj) = fst (DeletionHandlingMetaNamespaceKeyFunc obj)"

text \<open>The call of the handler queues the key.\<close>

fun queues :: "string \<Rightarrow> notification \<Rightarrow> bool" where
  "queues key (updateNotification old new) = (vm_key new = key)"
| "queues key (addNotification new) = (vm_key new = key)"
| "queues key (deleteNotification (VMObject vm)) = (vm_key vm = key)"
| "queues key (deleteNotification (DeletedFinalStateUnknown k (VMObject vm))) = (vm_key vm = key)"
| "queues key (deleteNotification obj) = False"

text \<open>Deletions that carry the machine, tombstones of which are for its own key.\<close>

fun carries_machine :: "delta \<Rightarrow> bool" where
  "carries_machine (Deleted (VMObject vm)) = True"
| "carries_machine (Deleted (DeletedFinalStateUnknown k (VMObject vm))) = (k = vm_key vm)"
| "carries_machine (Deleted obj) = False"
| "carries_machine _ = True"

fun is_sync :: "delta \<Rightarrow> bool" where
  "is_sync (Sync vm) = True"
| "is_sync _ = False"

lemma handle_delta_ok:
  assumes "cache_inv c"
  obtains err c' ns where "handle_delta d c = Returns (err, c', ns)" "cache_inv c'"
    "ts_indexers c' = ts_indexers c"
    "\<forall>key. key \<noteq> delta_key d \<longrightarrow> map_of (ts_items c') key = map_of (ts_items c) key"
    "carries_machine d \<longrightarrow> err = None \<and> (\<exists>n. ns = [(n, is_sync d)] \<and> queues (delta_key d) n)"
proof (cases d)
  case (Deleted obj)
  obtain key err where key: "DeletionHandlingMetaNamespaceKeyFunc obj = (key, err)" by fastforce
  show thesis
  proof (cases err)
    case None
    obtain c' where c': "cache_Delete obj c = Returns (None, c')" "cache_inv c'" "ts_indexers c' = ts_indexers c"
      "map_of (ts_items c') = (map_of (ts_items c))(key := None)"
      using cache_Delete_ok [OF assms] key None by blast
    have "carries_machine d \<longrightarrow> queues (delta_key d) (deleteNotification obj)"
      using Deleted by (cases d rule: carries_machine.cases) (auto simp: vm_key_def key_of_def)
    then show thesis
      by (intro that [of None c' "[(deleteNotification obj, False)]"]) (use Deleted c' key in simp_all)
  next
    case (Some e)
    then obtain e' where "cache_Delete obj c = Returns (Some e', c)"
      using cache_Delete_bad_key key by blast
    moreover have "\<not> carries_machine d"
      using Deleted key Some by (cases d rule: carries_machine.cases) (auto split: if_splits)
    ultimately show thesis
      by (intro that [of "Some e'" c "[]"]) (use Deleted assms in simp_all)
  qed
next
  case (Added vm)
  obtain c' n where "handle_change False vm c = Returns (None, c', [(n, False)])" "cache_inv c'"
    "ts_indexers c' = ts_indexers c" "map_of (ts_items c') = (map_of (ts_items c))(vm_key vm \<mapsto> vm)"
    "n = addNotification vm \<or> (\<exists>old. n = updateNotification old vm)"
    by (rule handle_change_ok [OF assms])
  then show thesis by (intro that [of None c' "[(n, False)]"]) (use Added in auto)
next
  case (Updated vm)
  obtain c' n where "handle_change False vm c = Returns (None, c', [(n, False)])" "cache_inv c'"
    "ts_indexers c' = ts_indexers c" "map_of (ts_items c') = (map_of (ts_items c))(vm_key vm \<mapsto> vm)"
    "n = addNotification vm \<or> (\<exists>old. n = updateNotification old vm)"
    by (rule handle_change_ok [OF assms])
  then show thesis by (intro that [of None c' "[(n, False)]"]) (use Updated in auto)
next
  case (Sync vm)
  obtain c' n where "handle_change True vm c = Returns (None, c', [(n, True)])" "cache_inv c'"
    "ts_indexers c' = ts_indexers c" "map_of (ts_items c') = (map_of (ts_items c))(vm_key vm \<mapsto> vm)"
    "n = addNotification vm \<or> (\<exists>old. n = updateNotification old vm)"
    by (rule handle_change_ok [OF assms])
  then show thesis by (intro that [of None c' "[(n, True)]"]) (use Sync in auto)
qed

text \<open>A batch.\<close>

lemma HandleDeltas_ok:
  assumes "cache_inv c"
  obtains err c' ns where "HandleDeltas ds c = Returns (err, c', ns)" "cache_inv c'"
    "ts_indexers c' = ts_indexers c"
    "list_all carries_machine ds \<longrightarrow> err = None \<and>
       (\<forall>key. map_of (ts_items c') key \<noteq> map_of (ts_items c) key \<longrightarrow> (\<exists>n s. (n, s) \<in> set ns \<and> (s \<longrightarrow> list_ex is_sync ds) \<and> queues key n))"
  using assms
proof (induction ds arbitrary: c thesis)
  case (Cons d ds)
  obtain err c1 ns where d: "handle_delta d c = Returns (err, c1, ns)" "cache_inv c1" "ts_indexers c1 = ts_indexers c"
    "\<forall>key. key \<noteq> delta_key d \<longrightarrow> map_of (ts_items c1) key = map_of (ts_items c) key"
    "carries_machine d \<longrightarrow> err = None \<and> (\<exists>n. ns = [(n, is_sync d)] \<and> queues (delta_key d) n)"
    by (rule handle_delta_ok [OF Cons.prems(2)])
  show ?case
  proof (cases err)
    case (Some e)
    with d show ?thesis by (intro Cons.prems(1) [of "Some e" c1 ns]) auto
  next
    case None
    obtain err2 c2 ns2 where ds: "HandleDeltas ds c1 = Returns (err2, c2, ns2)" "cache_inv c2"
      "ts_indexers c2 = ts_indexers c1"
      "list_all carries_machine ds \<longrightarrow> err2 = None \<and>
         (\<forall>key. map_of (ts_items c2) key \<noteq> map_of (ts_items c1) key \<longrightarrow> (\<exists>n s. (n, s) \<in> set ns2 \<and> (s \<longrightarrow> list_ex is_sync ds) \<and> queues key n))"
      using Cons.IH [OF _ d(2)] by blast
    have "\<exists>n s. (n, s) \<in> set (ns @ ns2) \<and> (s \<longrightarrow> list_ex is_sync (d # ds)) \<and> queues key n"
      if "list_all carries_machine (d # ds)" "map_of (ts_items c2) key \<noteq> map_of (ts_items c) key" for key
    proof (cases "key = delta_key d")
      case True
      then show ?thesis using d(5) that(1) by fastforce
    next
      case False
      then have "map_of (ts_items c2) key \<noteq> map_of (ts_items c1) key" using d(4) that(2) by simp
      then show ?thesis using ds(4) that(1) by fastforce
    qed
    then show ?thesis
      by (intro Cons.prems(1) [of err2 c2 "ns @ ns2"]) (use d ds None in simp_all)
  qed
qed simp

section \<open>The listener\<close>

lemma rlq_Add_keeps:
  "key \<in> dirty (base q) \<Longrightarrow> key \<in> dirty (base (rlq_Add k q))"
  "shuttingDown (base (rlq_Add k q)) = shuttingDown (base q)"
  "\<not> shuttingDown (base q) \<Longrightarrow> k \<in> dirty (base (rlq_Add k q))"
  by (simp_all add: rlq_Add_def wq_Add_def Let_def)

lemma listener_call_ok:
  obtains q' where "listener_call n q = (Returns (), q')"
    "shuttingDown (base q') = shuttingDown (base q)"
    "\<forall>key. key \<in> dirty (base q) \<longrightarrow> key \<in> dirty (base q')"
    "\<not> shuttingDown (base q) \<longrightarrow> (\<forall>key. queues key n \<longrightarrow> key \<in> dirty (base q'))"
proof -
  have "\<exists>q'. listener_call n q = (Returns (), q') \<and>
      (q' = q \<and> (\<forall>key. \<not> queues key n) \<or> (\<exists>vm. q' = rlq_Add (vm_key vm) q \<and> (\<forall>key. queues key n \<longrightarrow> key = vm_key vm)))"
    by (cases "([] :: string, n)" rule: queues.cases) (auto simp: go_simps vm_key_def)
  then show thesis using that rlq_Add_keeps by (metis (no_types))
qed

lemma listener_run_ok:
  obtains q' where "listener_run ns q = (Returns (), q')"
    "shuttingDown (base q') = shuttingDown (base q)"
    "\<forall>key. key \<in> dirty (base q) \<longrightarrow> key \<in> dirty (base q')"
    "\<not> shuttingDown (base q) \<longrightarrow> (\<forall>n \<in> set ns. \<forall>key. queues key n \<longrightarrow> key \<in> dirty (base q'))"
proof (induction ns arbitrary: q thesis)
  case Nil
  show ?case by (rule Nil [of q]) (simp_all add: go_simps)
next
  case (Cons n ns)
  obtain q1 where q1: "listener_call n q = (Returns (), q1)"
    "shuttingDown (base q1) = shuttingDown (base q)"
    "\<forall>key. key \<in> dirty (base q) \<longrightarrow> key \<in> dirty (base q1)"
    "\<not> shuttingDown (base q) \<longrightarrow> (\<forall>key. queues key n \<longrightarrow> key \<in> dirty (base q1))"
    by (rule listener_call_ok)
  obtain q2 where q2: "listener_run ns q1 = (Returns (), q2)"
    "shuttingDown (base q2) = shuttingDown (base q1)"
    "\<forall>key. key \<in> dirty (base q1) \<longrightarrow> key \<in> dirty (base q2)"
    "\<not> shuttingDown (base q1) \<longrightarrow> (\<forall>n \<in> set ns. \<forall>key. queues key n \<longrightarrow> key \<in> dirty (base q2))"
    by (rule Cons.IH [of q1])
  show ?case
    by (rule Cons.prems [of q2]) (use q1 q2 in \<open>simp_all add: andthen_returns\<close>)
qed

section \<open>The informer from its start\<close>

definition namespace_indexers :: "(string \<times> virtual_machine index_func) list" where
  "namespace_indexers = [(NamespaceIndex, MetaNamespaceIndexFunc)]"

lemma total_namespace_indexers [simp]: "total_indexers namespace_indexers"
  by (simp add: total_indexers_def namespace_indexers_def MetaNamespaceIndexFunc_def)

lemma handle_batches_ok:
  assumes "cache_inv c"
  obtains c' where "handle_batches bs c = Returns c'" "cache_inv c'" "ts_indexers c' = ts_indexers c"
  using assms
proof (induction bs arbitrary: c thesis)
  case (Cons b bs)
  obtain err c1 ns where b: "HandleDeltas b c = Returns (err, c1, ns)" "cache_inv c1" "ts_indexers c1 = ts_indexers c"
    by (rule HandleDeltas_ok [OF Cons.prems(2)])
  obtain c2 where "handle_batches bs c1 = Returns c2" "cache_inv c2" "ts_indexers c2 = ts_indexers c1"
    by (rule Cons.IH [OF _ b(2)])
  with b show ?case by (intro Cons.prems(1) [of c2]) simp_all
qed simp

definition cache_after :: "delta list list \<Rightarrow> vm_cache" where
  "cache_after bs =
     (case handle_batches bs (NewIndexer namespace_indexers) of
        Returns c \<Rightarrow> c
      | Panics m \<Rightarrow> NewIndexer namespace_indexers)"

lemma cache_after_ok:
  "handle_batches bs (NewIndexer namespace_indexers) = Returns (cache_after bs)"
  "cache_inv (cache_after bs)" "ts_indexers (cache_after bs) = namespace_indexers"
proof -
  obtain c where c: "handle_batches bs (NewIndexer namespace_indexers) = Returns c" "cache_inv c"
      "ts_indexers c = ts_indexers (NewIndexer namespace_indexers)"
    by (rule handle_batches_ok [OF cache_inv_new [OF total_namespace_indexers]])
  then have "cache_after bs = c" by (simp add: cache_after_def)
  with c show "handle_batches bs (NewIndexer namespace_indexers) = Returns (cache_after bs)"
    "cache_inv (cache_after bs)" "ts_indexers (cache_after bs) = namespace_indexers"
    by (simp_all add: NewIndexer_def NewThreadSafeStore_def)
qed

end
