(* ===== verification/Listers_Correct.thy ===== *)
theory Listers_Correct
  imports Listers Informer_Events Sample_Passes
begin

text \<open>
  What the listers find: the interface \<open>machine_indexer\<close> says what they rely on, and the cache of an
  informer after any batches of deltas interprets it. The properties follow: the index mirrors the
  cache, a namespace's lister lists and finds the stored machines of its namespace, and every change
  of the cache reaches the queue of the controller.
\<close>

section \<open>The interface\<close>

locale machine_indexer =
  fixes ix :: indexer and stored :: "string \<Rightarrow> virtual_machine option"
  assumes stored_keyed: "keyed stored"
    and listed: "\<exists>xs. ix_List ix = map Some xs \<and> distinct xs \<and> set xs = ran stored"
    and indexed_by_namespace: "\<exists>xs. ix_Index ix NamespaceIndex obj = (map Some xs, None) \<and> distinct xs \<and>
      set xs = {vm \<in> ran stored. vm_namespace vm = vm_namespace obj}"
    and got: "ix_GetByKey ix key = (stored key, None)"
begin

lemma append_matching_machines: "append_matching wanted (map Some xs) = (filter wanted xs, None)"
  by (induction xs) simp_all

lemma List_ok:
  "\<exists>xs. lister_List (NewVirtualMachineLister ix) matches = (xs, None) \<and> distinct xs \<and>
     set xs = {vm \<in> ran stored. matches (vm_labels vm)}"
proof -
  obtain xs where "ix_List ix = map Some xs" "distinct xs" "set xs = ran stored" using listed by blast
  then show ?thesis
    by (simp add: lister_List_def ListAll_def NewVirtualMachineLister_def append_matching_machines)
qed

lemma namespace_List_ok:
  "\<exists>xs. namespace_List (lister_VirtualMachines (NewVirtualMachineLister ix) ns) matches = (xs, None) \<and>
     distinct xs \<and>
     set xs = {vm \<in> ran stored. ns \<in> {NamespaceAll, vm_namespace vm} \<and> matches (vm_labels vm)}"
proof (cases "ns = NamespaceAll")
  case True
  then show ?thesis
    using List_ok [of matches]
    by (simp add: namespace_List_def lister_VirtualMachines_def ListAllByNamespace_def lister_List_def
        ListAll_def NewVirtualMachineLister_def)
next
  case False
  obtain xs where "ix_Index ix NamespaceIndex (empty_vm\<lparr>metadata := (metadata empty_vm)\<lparr>om_namespace := ns\<rparr>\<rparr>) =
      (map Some xs, None)" "distinct xs" "set xs = {vm \<in> ran stored. vm_namespace vm = ns}"
    using indexed_by_namespace [of "empty_vm\<lparr>metadata := (metadata empty_vm)\<lparr>om_namespace := ns\<rparr>\<rparr>"] by auto
  with False show ?thesis
    by (auto simp: namespace_List_def lister_VirtualMachines_def ListAllByNamespace_def
        NewVirtualMachineLister_def append_matching_machines)
qed

lemma namespace_Get_eq:
  assumes "ns \<noteq> []"
  shows "namespace_Get (lister_VirtualMachines (NewVirtualMachineLister ix) ns) name =
    (case stored (key_of ns name) of
       None \<Rightarrow> (None, Some (NewNotFound lister_resource name))
     | Some vm \<Rightarrow> (Some vm, None))"
  using assms
  by (simp add: namespace_Get_def lister_VirtualMachines_def NewVirtualMachineLister_def got key_of_def
      split: option.split)

text \<open>With names and namespaces free of slashes, a key is of one machine.\<close>

lemma stored_under:
  assumes "slash_free ns" "slash_free name" "stored (key_of ns name) = Some vm"
    "slash_free (vm_namespace vm)" "slash_free (vm_name vm)"
  shows "vm_namespace vm = ns \<and> vm_name vm = name"
proof -
  have "key_of ns name = key_of (vm_namespace vm) (vm_name vm)"
    using assms(3) stored_keyed by (simp add: keyed_def vm_key_def)
  then show ?thesis using meta_key.encode_inj [OF assms(1,2,4,5)] by simp
qed

lemma found_iff:
  assumes "slash_free ns" "slash_free name" "ns \<noteq> []"
    "\<forall>vm \<in> ran stored. slash_free (vm_namespace vm) \<and> slash_free (vm_name vm)"
  shows "namespace_Get (lister_VirtualMachines (NewVirtualMachineLister ix) ns) name = (Some vm, None) \<longleftrightarrow>
    vm \<in> ran stored \<and> vm_namespace vm = ns \<and> vm_name vm = name"
proof
  assume "namespace_Get (lister_VirtualMachines (NewVirtualMachineLister ix) ns) name = (Some vm, None)"
  then have vm: "stored (key_of ns name) = Some vm"
    by (simp add: namespace_Get_eq [OF assms(3)] split: option.splits)
  then have ran: "vm \<in> ran stored" by (rule ranI)
  then show "vm \<in> ran stored \<and> vm_namespace vm = ns \<and> vm_name vm = name"
    using stored_under [OF assms(1,2) vm] assms(4) by blast
next
  assume vm: "vm \<in> ran stored \<and> vm_namespace vm = ns \<and> vm_name vm = name"
  then obtain k where "stored k = Some vm" by (auto simp: ran_def)
  moreover from this have "k = key_of ns name" using stored_keyed vm by (auto simp: keyed_def vm_key_def)
  ultimately show "namespace_Get (lister_VirtualMachines (NewVirtualMachineLister ix) ns) name = (Some vm, None)"
    by (simp add: namespace_Get_eq [OF assms(3)])
qed

end

section \<open>The cache of an informer\<close>

definition stored_after :: "delta list list \<Rightarrow> string \<Rightarrow> virtual_machine option" where
  "stored_after bs = map_of (ts_items (cache_after bs))"

lemma keyed_inj: "keyed stored \<Longrightarrow> inj_on (\<lambda>k. the (stored k)) (dom stored)"
  by (rule inj_onI) (auto simp: keyed_def, metis)

lemma listed_cache:
  assumes "cache_inv c"
  shows "distinct (ts_List c) \<and> set (ts_List c) = ran (map_of (ts_items c))"
proof -
  have d: "distinct (map fst (ts_items c))" and k: "keyed (map_of (ts_items c))"
    using assms by (simp_all add: cache_inv_def consistent_def)
  have "map fst (ts_items c) = map vm_key (map snd (ts_items c))"
    using d k by (auto simp: keyed_def map_of_eq_Some_iff)
  with d have "distinct (ts_List c)" unfolding ts_List_def by (metis distinct_map)
  with d show ?thesis by (simp add: ts_List_def ran_distinct)
qed

lemma indexed_cache:
  assumes "cache_inv c" "ts_indexers c = namespace_indexers"
  shows "\<exists>xs. ts_Index NamespaceIndex obj c = (map Some xs, None) \<and> distinct xs \<and>
    set xs = {vm \<in> ran (map_of (ts_items c)). vm_namespace vm = vm_namespace obj}"
proof -
  let ?stored = "map_of (ts_items c)"
  let ?keys = "{k. \<exists>x. ?stored k = Some x \<and> vm_namespace x = vm_namespace obj}"
  let ?xs = "map (\<lambda>k. the (?stored k)) (sorted_list_of_set ?keys)"
  have c: "consistent c" and k: "keyed ?stored" using assms by (simp_all add: cache_inv_def)
  have sub: "?keys \<subseteq> dom ?stored" by auto
  have fin: "finite ?keys" by (rule finite_subset [OF sub]) (simp add: finite_dom_map_of)
  have "ts_Index NamespaceIndex obj c = (map ?stored (sorted_list_of_set ?keys), None)"
    using ts_Index_ok [OF c, of NamespaceIndex MetaNamespaceIndexFunc obj "vm_namespace obj"] assms(2)
    by (simp add: namespace_indexers_def MetaNamespaceIndexFunc_def eq_commute)
  moreover have "map ?stored (sorted_list_of_set ?keys) = map Some ?xs"
    using fin by auto
  moreover have "distinct ?xs"
    using fin inj_on_subset [OF keyed_inj [OF k] sub] by (simp add: distinct_map)
  moreover have "set ?xs = {vm \<in> ran ?stored. vm_namespace vm = vm_namespace obj}"
  proof (intro equalityI subsetI)
    fix vm assume "vm \<in> {vm \<in> ran ?stored. vm_namespace vm = vm_namespace obj}"
    then obtain k where "?stored k = Some vm" "vm_namespace vm = vm_namespace obj" by (auto simp: ran_def)
    then have "k \<in> ?keys" "vm = the (?stored k)" by simp_all
    then show "vm \<in> set ?xs" using fin by simp
  next
    fix vm assume "vm \<in> set ?xs"
    then show "vm \<in> {vm \<in> ran ?stored. vm_namespace vm = vm_namespace obj}"
      using fin by (auto simp: ran_def)
  qed
  ultimately show ?thesis by (intro exI [of _ ?xs]) simp
qed

interpretation informer_cache: machine_indexer "cache_indexer (cache_after bs)" "stored_after bs" for bs
proof
  note ok = cache_after_ok [of bs]
  show "keyed (stored_after bs)" using ok(2) by (simp add: stored_after_def cache_inv_def)
  show "\<exists>xs. ix_List (cache_indexer (cache_after bs)) = map Some xs \<and> distinct xs \<and> set xs = ran (stored_after bs)"
    using listed_cache [OF ok(2)] by (auto simp: cache_indexer_def stored_after_def)
  show "\<exists>xs. ix_Index (cache_indexer (cache_after bs)) NamespaceIndex obj = (map Some xs, None) \<and> distinct xs \<and>
      set xs = {vm \<in> ran (stored_after bs). vm_namespace vm = vm_namespace obj}" for obj
    using indexed_cache [OF ok(2,3)] by (simp add: cache_indexer_def stored_after_def)
  show "ix_GetByKey (cache_indexer (cache_after bs)) key = (stored_after bs key, None)" for key
    by (simp add: cache_indexer_def stored_after_def cache_GetByKey_def ts_Get_def)
qed

section \<open>The properties\<close>

text \<open>
  C14. Whatever batches of deltas the informer handles, it never panics, and its cache keeps its
  representation: no key occurs twice, each machine lies under its own key, and the index of
  namespaces holds under each namespace exactly the keys of the stored machines of this namespace.
\<close>
theorem index_mirrors_cache:
  "\<exists>c. handle_batches bs (NewIndexer namespace_indexers) = Returns c \<and> distinct (ts_ListKeys c) \<and>
     keyed (map_of (ts_items c)) \<and>
     index_set (ts_indices c NamespaceIndex) ns = {k. \<exists>vm. map_of (ts_items c) k = Some vm \<and> vm_namespace vm = ns}"
proof -
  note ok = cache_after_ok [of bs]
  have "index_values namespace_indexers NamespaceIndex vm = {vm_namespace vm}" for vm
    by (simp add: index_values_def namespace_indexers_def MetaNamespaceIndexFunc_def)
  then show ?thesis
    using ok by (auto simp: cache_inv_def consistent_def indexed_def ts_ListKeys_def)
qed

text \<open>
  C15. After any batches of deltas, the lister of a namespace lists, without an error, each stored
  machine of this namespace that the selector accepts exactly once and nothing else; for the empty
  namespace it lists those of all namespaces.
\<close>
theorem lister_lists_namespace:
  "\<exists>xs. namespace_List
      (lister_VirtualMachines (NewVirtualMachineLister (cache_indexer (cache_after bs))) ns) matches = (xs, None) \<and>
    distinct xs \<and>
    set xs = {vm \<in> ran (stored_after bs). ns \<in> {NamespaceAll, vm_namespace vm} \<and> matches (vm_labels vm)}"
  by (rule informer_cache.namespace_List_ok)

text \<open>
  With names and namespaces that contain no slash, the lister of a namespace finds a machine
  under a name exactly when it is stored with that namespace and name.
\<close>
theorem lister_finds_object:
  assumes "slash_free ns" "slash_free name" "ns \<noteq> []"
    "\<forall>vm \<in> ran (stored_after bs). slash_free (vm_namespace vm) \<and> slash_free (vm_name vm)"
  shows "namespace_Get
      (lister_VirtualMachines (NewVirtualMachineLister (cache_indexer (cache_after bs))) ns) name = (Some vm, None) \<longleftrightarrow>
    vm \<in> ran (stored_after bs) \<and> vm_namespace vm = ns \<and> vm_name vm = name"
  using assms by (rule informer_cache.found_iff)

lemma first_delta:
  obtains c where "HandleDeltas [Added vm] (cache_after []) = Returns (None, c, [(addNotification vm, False)])"
    "cache_after [[Added vm]] = c" "map_of (ts_items c) = [vm_key vm \<mapsto> vm]"
proof -
  have new: "cache_after [] = NewIndexer namespace_indexers" by (simp add: cache_after_def)
  have none: "ts_items (NewIndexer namespace_indexers) = []" by (simp add: NewIndexer_def NewThreadSafeStore_def)
  obtain c where c: "cache_Add vm (NewIndexer namespace_indexers) = Returns c"
      "map_of (ts_items c) = (map_of (ts_items (NewIndexer namespace_indexers)))(vm_key vm \<mapsto> vm)"
    by (rule cache_Add_ok [OF cache_inv_new [OF total_namespace_indexers]])
  then have h: "HandleDeltas [Added vm] (NewIndexer namespace_indexers) = Returns (None, c, [(addNotification vm, False)])"
    by (simp add: handle_change_def cache_Get_machine none)
  then have "cache_after [[Added vm]] = c" unfolding cache_after_def handle_batches.simps by (simp only: panicky.case prod.case)
  with h c show thesis by (intro that [of c]) (simp_all add: new none del: HandleDeltas.simps)
qed

lemma live_stored: "stored_after [[Added live_vm]] = [vm_key live_vm \<mapsto> live_vm]"
  by (rule first_delta [of live_vm]) (simp add: stored_after_def)

lemma live_names: "slash_free (vm_namespace live_vm)" "slash_free (vm_name live_vm)" "vm_namespace live_vm \<noteq> []"
  by code_simp+

theorem lister_finds_object_witness:
  "namespace_Get (lister_VirtualMachines (NewVirtualMachineLister
     (cache_indexer (cache_after [[Added live_vm]]))) (vm_namespace live_vm)) (vm_name live_vm) = (Some live_vm, None)"
  using lister_finds_object [of "vm_namespace live_vm" "vm_name live_vm" "[[Added live_vm]]" live_vm]
  by (simp add: live_stored live_names)

text \<open>
  Whenever a batch of deltas changes what the cache holds under a key, the handlers of the
  controller, called for what is distributed, put this key on the queue for a worker, unless the
  queue is shutting down, a deletion does not carry the machine, or the change came as a sync while
  the listener was not syncing.
\<close>
theorem changed_objects_queued:
  assumes "list_all carries_machine ds" "syncing \<or> \<not> list_ex is_sync ds"
    and "\<not> shuttingDown (base q)"
    and "HandleDeltas ds (cache_after bs) = Returns (err, c, ns)"
    and "map_of (ts_items c) key \<noteq> stored_after bs key"
  shows "\<exists>q'. listener_run (distribute syncing ns) q = (Returns (), q') \<and> key \<in> dirty (base q')"
proof -
  obtain n s where n: "(n, s) \<in> set ns" "s \<longrightarrow> list_ex is_sync ds" "queues key n"
  proof (rule HandleDeltas_ok [OF cache_after_ok(2) [of bs], of ds])
    fix err' c' ns'
    assume h: "HandleDeltas ds (cache_after bs) = Returns (err', c', ns')"
      and spec: "list_all carries_machine ds \<longrightarrow> err' = None \<and>
        (\<forall>key. map_of (ts_items c') key \<noteq> map_of (ts_items (cache_after bs)) key \<longrightarrow>
           (\<exists>n s. (n, s) \<in> set ns' \<and> (s \<longrightarrow> list_ex is_sync ds) \<and> queues key n))"
    assume found: "\<And>n s. (n, s) \<in> set ns \<Longrightarrow> s \<longrightarrow> list_ex is_sync ds \<Longrightarrow> queues key n \<Longrightarrow> thesis"
    have "c' = c" "ns' = ns" using h assms(4) by simp_all
    then show thesis using spec found assms(1,5) unfolding stored_after_def by blast
  qed
  have "n \<in> set (distribute syncing ns)"
    using n(1,2) assms(2) by (force simp: distribute_def)
  moreover obtain q' where "listener_run (distribute syncing ns) q = (Returns (), q')"
    "\<not> shuttingDown (base q) \<longrightarrow>
       (\<forall>n \<in> set (distribute syncing ns). \<forall>key. queues key n \<longrightarrow> key \<in> dirty (base q'))"
    by (rule listener_run_ok)
  ultimately show ?thesis using assms(3) n(3) by blast
qed

theorem changed_objects_queued_witness:
  "\<exists>q'. listener_run (distribute False [(addNotification live_vm, False)]) (new_rl_queue (0 :: nat)) = (Returns (), q') \<and>
     vm_key live_vm \<in> dirty (base q')"
proof (rule first_delta [of live_vm])
  fix c assume c: "HandleDeltas [Added live_vm] (cache_after []) = Returns (None, c, [(addNotification live_vm, False)])"
    "map_of (ts_items c) = [vm_key live_vm \<mapsto> live_vm]"
  have "stored_after [] = Map.empty"
    by (simp add: stored_after_def cache_after_def NewIndexer_def NewThreadSafeStore_def)
  then show ?thesis
    by (intro changed_objects_queued [OF _ _ _ c(1)])
      (simp_all add: c(2) new_rl_queue_def new_wqueue_def)
qed

end
