(* ===== verification/Delta_Queue.thy ===== *)
theory Delta_Queue
  imports Informer_Events
begin

text \<open>
  The queue between the reflector and the cache of an informer, \<open>DeltaFIFO\<close> of
  \<open>client-go/tools/cache/delta_fifo.go\<close>, with the cache as its known objects, and what the reflector
  does with it: a list replaces its contents, events of a watch are added one by one, a resync syncs
  every known object, and the process loop pops a key and handles its deltas. The lock makes each of
  these one step. The reflector drops events of objects that are not virtual machines.
\<close>

section \<open>The queue\<close>

record delta_fifo =
  df_items :: "string \<Rightarrow> delta list option"
  df_queue :: "string list"
  df_populated :: bool
  df_initialPopulationCount :: int
  df_closed :: bool

definition NewDeltaFIFO :: delta_fifo where
  "NewDeltaFIFO = \<lparr>df_items = Map.empty, df_queue = [], df_populated = False,
     df_initialPopulationCount = 0, df_closed = False\<rparr>"

definition fifo_Close :: "delta_fifo \<Rightarrow> delta_fifo" where
  "fifo_Close f = f\<lparr>df_closed := True\<rparr>"

definition fifo_HasSynced :: "delta_fifo \<Rightarrow> bool" where
  "fifo_HasSynced f = (df_populated f \<and> df_initialPopulationCount f = 0)"

fun KeyOf :: "informer_object \<Rightarrow> string \<times> go_error option" where
  "KeyOf (DeletedFinalStateUnknown key obj) = (key, None)"
| "KeyOf obj = MetaNamespaceKeyFunc obj"

fun delta_object :: "delta \<Rightarrow> informer_object" where
  "delta_object (Added vm) = VMObject vm"
| "delta_object (Updated vm) = VMObject vm"
| "delta_object (Sync vm) = VMObject vm"
| "delta_object (Deleted obj) = obj"

text \<open>Two deletions in a row are one, that with the most information.\<close>

fun isDeletionDup :: "delta \<Rightarrow> delta \<Rightarrow> delta option" where
  "isDeletionDup (Deleted a) (Deleted (DeletedFinalStateUnknown key obj)) = Some (Deleted a)"
| "isDeletionDup (Deleted a) (Deleted b) = Some (Deleted b)"
| "isDeletionDup a b = None"

definition isDup :: "delta \<Rightarrow> delta \<Rightarrow> delta option" where
  "isDup a b = isDeletionDup a b"

definition dedupDeltas :: "delta list \<Rightarrow> delta list" where
  "dedupDeltas deltas =
     (let n = length deltas
      in if n < 2 then deltas
         else case isDup (deltas ! (n - 1)) (deltas ! (n - 2)) of
                Some out' \<Rightarrow> take (n - 2) deltas @ [out']
              | None \<Rightarrow> deltas)"

fun is_deletion :: "delta \<Rightarrow> bool" where
  "is_deletion (Deleted obj) = True"
| "is_deletion _ = False"

definition items_of :: "delta_fifo \<Rightarrow> string \<Rightarrow> delta list" where
  "items_of f key = (case df_items f key of None \<Rightarrow> [] | Some ds \<Rightarrow> ds)"

definition willObjectBeDeletedLocked :: "string \<Rightarrow> delta_fifo \<Rightarrow> bool" where
  "willObjectBeDeletedLocked key f =
     (let deltas = items_of f key in length deltas > 0 \<and> is_deletion (deltas ! (length deltas - 1)))"

definition key_error :: "go_error \<Rightarrow> go_error" where
  "key_error err = errorf_v (''couldn'' @ CHR 0x27 # ''t create key for object: '') err"

definition queueActionLocked :: "delta \<Rightarrow> delta_fifo \<Rightarrow> go_error option \<times> delta_fifo" where
  "queueActionLocked d f =
     (case KeyOf (delta_object d) of
        (_, Some err) \<Rightarrow> (Some (key_error err), f)
      | (key, None) \<Rightarrow>
          if is_sync d \<and> willObjectBeDeletedLocked key f then (None, f)
          else
            let newDeltas = dedupDeltas (items_of f key @ [d]);
                exists = (df_items f key \<noteq> None)
            in if length newDeltas > 0 then
                 (None, f\<lparr>df_queue := (if exists then df_queue f else df_queue f @ [key]),
                    df_items := (df_items f)(key \<mapsto> newDeltas)\<rparr>)
               else if exists then (None, f\<lparr>df_items := (df_items f)(key := None)\<rparr>)
               else (None, f))"

definition fifo_Add :: "virtual_machine \<Rightarrow> delta_fifo \<Rightarrow> go_error option \<times> delta_fifo" where
  "fifo_Add vm f = queueActionLocked (Added vm) (f\<lparr>df_populated := True\<rparr>)"

definition fifo_Update :: "virtual_machine \<Rightarrow> delta_fifo \<Rightarrow> go_error option \<times> delta_fifo" where
  "fifo_Update vm f = queueActionLocked (Updated vm) (f\<lparr>df_populated := True\<rparr>)"

definition fifo_Delete :: "vm_cache \<Rightarrow> informer_object \<Rightarrow> delta_fifo \<Rightarrow> go_error option \<times> delta_fifo" where
  "fifo_Delete knownObjects obj f =
     (case KeyOf obj of
        (_, Some err) \<Rightarrow> (Some (key_error err), f)
      | (key, None) \<Rightarrow>
          let f = f\<lparr>df_populated := True\<rparr>
          in if cache_GetByKey key knownObjects = None \<and> df_items f key = None then (None, f)
             else queueActionLocked (Deleted obj) f)"

text \<open>The loops of \<open>Replace\<close>: a sync for each item, and a tombstone for each known key that is gone.\<close>

fun sync_all :: "virtual_machine list \<Rightarrow> string list \<Rightarrow> delta_fifo \<Rightarrow> go_error option \<times> string list \<times> delta_fifo" where
  "sync_all [] keys f = (None, keys, f)"
| "sync_all (vm # vms) keys f =
     (case KeyOf (VMObject vm) of
        (_, Some err) \<Rightarrow> (Some (key_error err), keys, f)
      | (key, None) \<Rightarrow>
          (case queueActionLocked (Sync vm) f of
             (Some err, f') \<Rightarrow> (Some (errorf_v (''couldn'' @ CHR 0x27 # ''t enqueue object: '') err), key # keys, f')
           | (None, f') \<Rightarrow> sync_all vms (key # keys) f'))"

fun delete_gone ::
    "vm_cache \<Rightarrow> string list \<Rightarrow> string list \<Rightarrow> nat \<Rightarrow> delta_fifo \<Rightarrow> go_error option \<times> nat \<times> delta_fifo" where
  "delete_gone knownObjects keys [] n f = (None, n, f)"
| "delete_gone knownObjects keys (k # ks) n f =
     (if k \<in> set keys then delete_gone knownObjects keys ks n f
      else
        let deletedObj = (case cache_GetByKey k knownObjects of None \<Rightarrow> OtherObject ''nil'' | Some vm \<Rightarrow> VMObject vm)
        in case queueActionLocked (Deleted (DeletedFinalStateUnknown k deletedObj)) f of
             (Some err, f') \<Rightarrow> (Some err, Suc n, f')
           | (None, f') \<Rightarrow> delete_gone knownObjects keys ks (Suc n) f')"

definition fifo_Replace :: "vm_cache \<Rightarrow> virtual_machine list \<Rightarrow> delta_fifo \<Rightarrow> go_error option \<times> delta_fifo" where
  "fifo_Replace knownObjects vms f =
     (case sync_all vms [] f of
        (Some err, keys, f') \<Rightarrow> (Some err, f')
      | (None, keys, f') \<Rightarrow>
          (case delete_gone knownObjects keys (ts_ListKeys knownObjects) 0 f' of
             (Some err, n, f'') \<Rightarrow> (Some err, f'')
           | (None, n, f'') \<Rightarrow>
               if \<not> df_populated f'' then
                 (None, f''\<lparr>df_populated := True, df_initialPopulationCount := int (length vms) + int n\<rparr>)
               else (None, f'')))"

definition syncKeyLocked :: "vm_cache \<Rightarrow> string \<Rightarrow> delta_fifo \<Rightarrow> go_error option \<times> delta_fifo" where
  "syncKeyLocked knownObjects key f =
     (case cache_GetByKey key knownObjects of
        None \<Rightarrow> (None, f)
      | Some vm \<Rightarrow>
          (case KeyOf (VMObject vm) of
             (_, Some err) \<Rightarrow> (Some (key_error err), f)
           | (k, None) \<Rightarrow>
               if length (items_of f k) > 0 then (None, f)
               else (case queueActionLocked (Sync vm) f of
                       (Some err, f') \<Rightarrow> (Some (errorf_v (''couldn'' @ CHR 0x27 # ''t queue object: '') err), f')
                     | (None, f') \<Rightarrow> (None, f'))))"

fun sync_keys :: "vm_cache \<Rightarrow> string list \<Rightarrow> delta_fifo \<Rightarrow> go_error option \<times> delta_fifo" where
  "sync_keys knownObjects [] f = (None, f)"
| "sync_keys knownObjects (k # ks) f =
     (case syncKeyLocked knownObjects k f of
        (Some err, f') \<Rightarrow> (Some err, f')
      | (None, f') \<Rightarrow> sync_keys knownObjects ks f')"

definition fifo_Resync :: "vm_cache \<Rightarrow> delta_fifo \<Rightarrow> go_error option \<times> delta_fifo" where
  "fifo_Resync knownObjects f = sync_keys knownObjects (ts_ListKeys knownObjects) f"

text \<open>
  \<open>Pop\<close> without its waiting: the first key that still has deltas, or nothing while the queue is empty.
\<close>

fun pop_from :: "string list \<Rightarrow> delta_fifo \<Rightarrow> delta list option \<times> delta_fifo" where
  "pop_from [] f = (None, f)"
| "pop_from (key # rest) f =
     (let f = f\<lparr>df_queue := rest, df_initialPopulationCount :=
        (if df_initialPopulationCount f > 0 then df_initialPopulationCount f - 1 else df_initialPopulationCount f)\<rparr>
      in case df_items f key of
           None \<Rightarrow> pop_from rest f
         | Some item \<Rightarrow> (Some item, f\<lparr>df_items := (df_items f)(key := None)\<rparr>))"

definition fifo_Pop :: "delta_fifo \<Rightarrow> delta list option \<times> delta_fifo" where
  "fifo_Pop f = pop_from (df_queue f) f"

section \<open>The informer\<close>

record informer_state =
  in_fifo :: delta_fifo
  in_cache :: vm_cache

definition new_informer :: informer_state where
  "new_informer = \<lparr>in_fifo = NewDeltaFIFO, in_cache = NewIndexer namespace_indexers\<rparr>"

text \<open>
  A list that the reflector got replaces the contents of the queue, and a turn of \<open>processLoop\<close> handles
  the deltas of the key it pops. The informer asks for no retry, so an error ends there.
\<close>

definition syncWith :: "virtual_machine list \<Rightarrow> informer_state \<Rightarrow> go_error option \<times> informer_state" where
  "syncWith items st =
     (case fifo_Replace (in_cache st) items (in_fifo st) of (err, f) \<Rightarrow> (err, st\<lparr>in_fifo := f\<rparr>))"

definition processLoop_turn :: "informer_state \<Rightarrow> (informer_state \<times> (notification \<times> bool) list) panicky" where
  "processLoop_turn st =
     (case fifo_Pop (in_fifo st) of
        (None, f) \<Rightarrow> Returns (st\<lparr>in_fifo := f\<rparr>, [])
      | (Some item, f) \<Rightarrow>
          (case HandleDeltas item (in_cache st) of
             Panics m \<Rightarrow> Panics m
           | Returns (err, c, ns) \<Rightarrow> Returns (\<lparr>in_fifo = f, in_cache = c\<rparr>, ns)))"

text \<open>The events of a watch; an error of the store is reported and forgotten.\<close>

datatype watched_event =
    WatchAdded virtual_machine
  | WatchModified virtual_machine
  | WatchDeleted virtual_machine

fun handle_watch :: "watched_event \<Rightarrow> informer_state \<Rightarrow> informer_state" where
  "handle_watch (WatchAdded vm) st = st\<lparr>in_fifo := snd (fifo_Add vm (in_fifo st))\<rparr>"
| "handle_watch (WatchModified vm) st = st\<lparr>in_fifo := snd (fifo_Update vm (in_fifo st))\<rparr>"
| "handle_watch (WatchDeleted vm) st = st\<lparr>in_fifo := snd (fifo_Delete (in_cache st) (VMObject vm) (in_fifo st))\<rparr>"

text \<open>What happens to an informer: a list, an event of the watch, a resync, or a turn of \<open>processLoop\<close>.\<close>

datatype informer_event =
    Listed "virtual_machine list"
  | Watched watched_event
  | Resynced
  | Popped

fun informer_step ::
    "informer_event \<Rightarrow> informer_state \<Rightarrow> (informer_state \<times> (notification \<times> bool) list) panicky" where
  "informer_step (Listed vms) st = Returns (snd (syncWith vms st), [])"
| "informer_step (Watched e) st = Returns (handle_watch e st, [])"
| "informer_step Resynced st = Returns (st\<lparr>in_fifo := snd (fifo_Resync (in_cache st) (in_fifo st))\<rparr>, [])"
| "informer_step Popped st = processLoop_turn st"

fun informer_run ::
    "informer_event list \<Rightarrow> informer_state \<Rightarrow> (informer_state \<times> (notification \<times> bool) list) panicky" where
  "informer_run [] st = Returns (st, [])"
| "informer_run (e # es) st =
     (case informer_step e st of
        Panics m \<Rightarrow> Panics m
      | Returns (st', ns) \<Rightarrow>
          (case informer_run es st' of
             Panics m \<Rightarrow> Panics m
           | Returns (st'', ns') \<Rightarrow> Returns (st'', ns @ ns')))"

end
