(* ===== verification/Delta_Queue_Correct.thy ===== *)
theory Delta_Queue_Correct
  imports Delta_Queue Listers_Correct
begin

text \<open>
  What the operations of the queue of deltas keep and change. Its keys are those with pending deltas,
  in order and once each, and the deltas of a key are about this key. Over what is stored, each key
  has a value to which it is heading: that of its newest pending delta, or what is stored when nothing
  is pending. Each operation is given by what it does to these values.
\<close>

section \<open>Single deltas\<close>

fun delta_value :: "delta \<Rightarrow> virtual_machine option" where
  "delta_value (Added vm) = Some vm"
| "delta_value (Updated vm) = Some vm"
| "delta_value (Sync vm) = Some vm"
| "delta_value (Deleted obj) = None"

definition owned :: "string \<Rightarrow> delta \<Rightarrow> bool" where
  "owned key d = (delta_key d = key \<and> carries_machine d)"

lemma owned_Cons: "list_all (owned key) (d # ds) \<longleftrightarrow> delta_key d = key \<and> carries_machine d \<and> list_all (owned key) ds"
  by (simp add: owned_def)

lemma KeyOf_owned: "carries_machine d \<Longrightarrow> KeyOf (delta_object d) = (delta_key d, None)"
  by (cases d rule: carries_machine.cases) (auto simp: vm_key_def key_of_def)

lemma is_deletion_value: "is_deletion d \<longleftrightarrow> delta_value d = None"
  by (cases d) simp_all

lemma isDup_cases:
  assumes "isDup a b = Some out"
  shows "out \<in> {a, b}" "delta_value out = None" "delta_value a = None"
  using assms unfolding isDup_def by (cases "(a, b)" rule: isDeletionDup.cases; simp)+

lemma dedup_cases:
  obtains "dedupDeltas ds = ds"
  | pre a b out where "ds = pre @ [b, a]" "isDup a b = Some out" "dedupDeltas ds = pre @ [out]"
proof (cases "length ds < 2")
  case True
  then show thesis using that(1) by (simp add: dedupDeltas_def)
next
  case False
  then obtain a b pre where ds: "ds = pre @ [b, a]"
    by (metis append.assoc append_Cons append_Nil length_Cons less_2_cases_iff list.size(3) One_nat_def rev_exhaust)
  then have "length ds = Suc (Suc (length pre))" by simp
  then have len: "length ds - 2 = length pre" "length ds - 1 = Suc (length pre)" "\<not> length ds < 2" by arith+
  have "dedupDeltas ds = (case isDup a b of Some out' \<Rightarrow> pre @ [out'] | None \<Rightarrow> ds)"
    unfolding dedupDeltas_def Let_def len by (simp add: len ds nth_append split: option.split)
  with ds show thesis using that by (cases "isDup a b") simp_all
qed

lemma dedup_keeps:
  "dedupDeltas (ds @ [d]) \<noteq> []" "set (dedupDeltas (ds @ [d])) \<subseteq> set (ds @ [d])"
  "delta_value (last (dedupDeltas (ds @ [d]))) = delta_value d"
proof -
  have "dedupDeltas (ds @ [d]) \<noteq> [] \<and> set (dedupDeltas (ds @ [d])) \<subseteq> set (ds @ [d]) \<and>
    delta_value (last (dedupDeltas (ds @ [d]))) = delta_value d"
    by (cases rule: dedup_cases [of "ds @ [d]"]) (use isDup_cases in \<open>fastforce+\<close>)
  then show "dedupDeltas (ds @ [d]) \<noteq> []" "set (dedupDeltas (ds @ [d])) \<subseteq> set (ds @ [d])"
    "delta_value (last (dedupDeltas (ds @ [d]))) = delta_value d" by blast+
qed

section \<open>The queue\<close>

definition fifo_inv :: "delta_fifo \<Rightarrow> bool" where
  "fifo_inv f = (distinct (df_queue f) \<and> set (df_queue f) = dom (df_items f) \<and>
     (\<forall>key ds. df_items f key = Some ds \<longrightarrow> ds \<noteq> [] \<and> list_all (owned key) ds))"

text \<open>The value to which a key is heading over what is stored.\<close>

definition heading :: "(string \<Rightarrow> virtual_machine option) \<Rightarrow> delta_fifo \<Rightarrow> string \<Rightarrow> virtual_machine option" where
  "heading stored f key = (case df_items f key of None \<Rightarrow> stored key | Some ds \<Rightarrow> delta_value (last ds))"

definition no_syncs :: "delta_fifo \<Rightarrow> bool" where
  "no_syncs f = (\<forall>key ds. df_items f key = Some ds \<longrightarrow> \<not> list_ex is_sync ds)"

lemma will_be_deleted:
  assumes "fifo_inv f"
  shows "willObjectBeDeletedLocked key f \<longleftrightarrow> (\<exists>ds. df_items f key = Some ds \<and> delta_value (last ds) = None)"
proof -
  have "ds \<noteq> []" if "df_items f key = Some ds" for ds using assms that by (simp add: fifo_inv_def)
  then show ?thesis
    by (auto simp: willObjectBeDeletedLocked_def items_of_def is_deletion_value last_conv_nth Let_def
        split: option.splits)
qed

lemma fifo_inv_new: "fifo_inv NewDeltaFIFO" "heading stored NewDeltaFIFO = stored"
  by (auto simp: fifo_inv_def NewDeltaFIFO_def heading_def)

lemma populated_irrelevant [simp]:
  "fifo_inv (f\<lparr>df_populated := b\<rparr>) = fifo_inv f" "heading stored (f\<lparr>df_populated := b\<rparr>) = heading stored f"
  "willObjectBeDeletedLocked key (f\<lparr>df_populated := b\<rparr>) = willObjectBeDeletedLocked key f"
  "no_syncs (f\<lparr>df_populated := b\<rparr>) = no_syncs f"
  by (auto simp: fifo_inv_def heading_def willObjectBeDeletedLocked_def items_of_def no_syncs_def)

lemma queue_dropped:
  assumes "carries_machine d" "is_sync d" "willObjectBeDeletedLocked (delta_key d) f"
  shows "queueActionLocked d f = (None, f)"
  using assms by (simp add: queueActionLocked_def KeyOf_owned)

lemma queue_accepted:
  assumes "fifo_inv f" "carries_machine d" "\<not> (is_sync d \<and> willObjectBeDeletedLocked (delta_key d) f)"
  obtains f' where "queueActionLocked d f = (None, f')" "fifo_inv f'" "df_populated f' = df_populated f"
    "\<forall>stored. heading stored f' = (heading stored f)(delta_key d := delta_value d)"
    "\<forall>key. willObjectBeDeletedLocked key f' =
       (if key = delta_key d then is_deletion d else willObjectBeDeletedLocked key f)"
    "no_syncs f \<and> \<not> is_sync d \<longrightarrow> no_syncs f'"
proof -
  let ?k = "delta_key d"
  let ?new = "dedupDeltas (items_of f ?k @ [d])"
  define f' where "f' = f\<lparr>df_queue := (if df_items f ?k \<noteq> None then df_queue f else df_queue f @ [?k]),
    df_items := (df_items f)(?k \<mapsto> ?new)\<rparr>"
  have q: "queueActionLocked d f = (None, f')"
    using assms(2,3) dedup_keeps(1) [of "items_of f ?k" d]
    by (auto simp: queueActionLocked_def KeyOf_owned f'_def Let_def)
  have "list_all (owned ?k) (items_of f ?k)"
    using assms(1) by (auto simp: items_of_def fifo_inv_def split: option.split)
  then have "list_all (owned ?k) (items_of f ?k @ [d])" using assms(2) by (simp add: owned_def)
  then have own: "list_all (owned ?k) ?new"
    unfolding list_all_iff using dedup_keeps(2) by blast
  have inv: "fifo_inv f'"
    using assms(1) own dedup_keeps(1) by (auto simp: fifo_inv_def f'_def)
  have "no_syncs f'" if "no_syncs f" "\<not> is_sync d"
  proof -
    have "\<not> list_ex is_sync (items_of f ?k @ [d])"
      using that by (auto simp: items_of_def no_syncs_def split: option.split)
    then have "\<not> list_ex is_sync ?new" unfolding list_ex_iff using dedup_keeps(2) by blast
    with that(1) show ?thesis by (simp add: no_syncs_def f'_def)
  qed
  then show thesis
    using q inv by (intro that [of f'])
      (auto simp: will_be_deleted assms(1) inv heading_def f'_def dedup_keeps(3) is_deletion_value fun_eq_iff)
qed

text \<open>The loops of a relist: what was listed last under a key counts, but not over a pending deletion.\<close>

definition put :: "virtual_machine \<Rightarrow> (string \<Rightarrow> virtual_machine option) \<Rightarrow> string \<Rightarrow> virtual_machine option" where
  "put vm m = m(vm_key vm \<mapsto> vm)"

lemma fold_put: "fold put vms m key = (case fold put vms Map.empty key of None \<Rightarrow> m key | Some vm \<Rightarrow> Some vm)"
proof (induction vms arbitrary: m)
  case (Cons vm vms)
  show ?case
    unfolding fold_Cons comp_apply
    by (subst (1 2) Cons.IH) (simp add: put_def split: option.split)
qed simp

lemma fold_put_cong: "m key = m' key \<Longrightarrow> fold put vms m key = fold put vms m' key"
  using fold_put [of vms m key] fold_put [of vms m' key] by (simp split: option.splits)

lemma fold_put_keys: "fold put vms Map.empty key = None \<longleftrightarrow> key \<notin> vm_key ` set vms"
proof (induction vms)
  case (Cons vm vms)
  have "fold put (vm # vms) Map.empty key = (case fold put vms Map.empty key of None \<Rightarrow> put vm Map.empty key | Some v \<Rightarrow> Some v)"
    unfolding fold_Cons comp_apply by (rule fold_put)
  with Cons show ?case by (cases "fold put vms Map.empty key") (auto simp: put_def [of vm] simp del: List.fold_simps)
qed simp

lemma sync_all_ok:
  assumes "fifo_inv f"
  obtains f' where "sync_all vms keys f = (None, rev (map vm_key vms) @ keys, f')" "fifo_inv f'"
    "df_populated f' = df_populated f"
    "\<forall>key. willObjectBeDeletedLocked key f' = willObjectBeDeletedLocked key f"
    "\<forall>stored key. heading stored f' key =
       (if willObjectBeDeletedLocked key f then heading stored f key else fold put vms (heading stored f) key)"
  using assms
proof (induction vms arbitrary: keys f thesis)
  case (Cons vm vms)
  have key: "KeyOf (VMObject vm) = (vm_key vm, None)" using KeyOf_owned [of "Sync vm"] by simp
  obtain f1 where f1: "queueActionLocked (Sync vm) f = (None, f1)" "fifo_inv f1" "df_populated f1 = df_populated f"
    "\<forall>key. willObjectBeDeletedLocked key f1 = willObjectBeDeletedLocked key f"
    "\<forall>stored key. heading stored f1 key =
       (if willObjectBeDeletedLocked key f then heading stored f key else put vm (heading stored f) key)"
  proof (cases "willObjectBeDeletedLocked (vm_key vm) f")
    case True
    then show thesis
      using that [of f] queue_dropped [of "Sync vm" f] Cons.prems(2) by (auto simp: put_def)
  next
    case False
    then have accepted: "carries_machine (Sync vm)"
      "\<not> (is_sync (Sync vm) \<and> willObjectBeDeletedLocked (delta_key (Sync vm)) f)" by simp_all
    obtain f1 where f1:
      "queueActionLocked (Sync vm) f = (None, f1)" "fifo_inv f1" "df_populated f1 = df_populated f"
      "\<forall>stored. heading stored f1 = (heading stored f)(delta_key (Sync vm) := delta_value (Sync vm))"
      "\<forall>key. willObjectBeDeletedLocked key f1 =
         (if key = delta_key (Sync vm) then is_deletion (Sync vm) else willObjectBeDeletedLocked key f)"
      "no_syncs f \<and> \<not> is_sync (Sync vm) \<longrightarrow> no_syncs f1"
      by (rule queue_accepted [OF Cons.prems(2) accepted])
    show thesis by (rule that [of f1]) (use f1 False in \<open>auto simp: put_def\<close>)
  qed
  obtain f2 where f2: "sync_all vms (vm_key vm # keys) f1 = (None, rev (map vm_key vms) @ vm_key vm # keys, f2)"
    "fifo_inv f2" "df_populated f2 = df_populated f1"
    "\<forall>key. willObjectBeDeletedLocked key f2 = willObjectBeDeletedLocked key f1"
    "\<forall>stored key. heading stored f2 key =
       (if willObjectBeDeletedLocked key f1 then heading stored f1 key else fold put vms (heading stored f1) key)"
    by (rule Cons.IH [OF _ f1(2)])
  have "heading stored f2 key =
      (if willObjectBeDeletedLocked key f then heading stored f key else fold put (vm # vms) (heading stored f) key)"
    for stored key
    using f1(4,5) f2(5) fold_put_cong [of "heading stored f1" key "put vm (heading stored f)" vms] by simp
  then show ?case
    by (intro Cons.prems(1) [of f2]) (use key f1 f2 in simp_all)
qed simp

lemma delete_gone_ok:
  assumes "fifo_inv f" "keyed (map_of (ts_items c))" "set ks \<subseteq> set (ts_ListKeys c)"
  obtains n f' where "delete_gone c keys ks m f = (None, n, f')" "fifo_inv f'" "df_populated f' = df_populated f"
    "\<forall>stored key. heading stored f' key = (if key \<in> set ks - set keys then None else heading stored f key)"
  using assms
proof (induction ks arbitrary: f m thesis)
  case (Cons k ks)
  show ?case
  proof (cases "k \<in> set keys")
    case True
    obtain n f' where f': "delete_gone c keys ks m f = (None, n, f')" "fifo_inv f'" "df_populated f' = df_populated f"
      "\<forall>stored key. heading stored f' key = (if key \<in> set ks - set keys then None else heading stored f key)"
      by (rule Cons.IH [where f = f and m = m]) (use Cons.prems in auto)
    then show ?thesis by (intro Cons.prems(1) [of n f']) (use True in auto)
  next
    case False
    have "k \<in> dom (map_of (ts_items c))"
      using Cons.prems(4) by (simp add: dom_map_of_conv_image_fst ts_ListKeys_def)
    then obtain vm where vm: "cache_GetByKey k c = Some vm" "vm_key vm = k"
      using Cons.prems(3) by (auto simp: cache_GetByKey_def ts_Get_def keyed_def)
    let ?d = "Deleted (DeletedFinalStateUnknown k (VMObject vm))"
    have accepted: "carries_machine ?d" "\<not> (is_sync ?d \<and> willObjectBeDeletedLocked (delta_key ?d) f)" using vm(2) by simp_all
    obtain f1 where f1: "queueActionLocked ?d f = (None, f1)" "fifo_inv f1" "df_populated f1 = df_populated f"
      "\<forall>stored. heading stored f1 = (heading stored f)(delta_key ?d := delta_value ?d)"
      "\<forall>key. willObjectBeDeletedLocked key f1 =
         (if key = delta_key ?d then is_deletion ?d else willObjectBeDeletedLocked key f)"
      "no_syncs f \<and> \<not> is_sync ?d \<longrightarrow> no_syncs f1"
      by (rule queue_accepted [OF Cons.prems(2) accepted])
    obtain n f' where f': "delete_gone c keys ks (Suc m) f1 = (None, n, f')" "fifo_inv f'"
      "df_populated f' = df_populated f1"
      "\<forall>stored key. heading stored f' key = (if key \<in> set ks - set keys then None else heading stored f1 key)"
      by (rule Cons.IH [where f = f1 and m = "Suc m"]) (use Cons.prems f1 in auto)
    then show ?thesis by (intro Cons.prems(1) [of n f']) (use False vm f1 in auto)
  qed
qed simp

text \<open>A resync leaves every heading as it is.\<close>

lemma syncKey_ok:
  assumes "fifo_inv f" "keyed (map_of (ts_items c))"
  obtains f' where "syncKeyLocked c key f = (None, f')" "fifo_inv f'"
    "heading (map_of (ts_items c)) f' = heading (map_of (ts_items c)) f"
proof (cases "map_of (ts_items c) key")
  case None
  then show thesis by (intro that [of f]) (use assms in \<open>simp_all add: syncKeyLocked_def cache_GetByKey_def ts_Get_def\<close>)
next
  case (Some vm)
  then have key: "vm_key vm = key" using assms(2) by (simp add: keyed_def)
  have keyof: "KeyOf (VMObject vm) = (key, None)" using KeyOf_owned [of "Sync vm"] key by simp
  show thesis
  proof (cases "items_of f key = []")
    case False
    then show thesis
      by (intro that [of f]) (use assms Some keyof in \<open>simp_all add: syncKeyLocked_def cache_GetByKey_def ts_Get_def\<close>)
  next
    case True
    then have none: "df_items f key = None"
      using assms(1) by (auto simp: fifo_inv_def items_of_def split: option.splits)
    then have accepted: "carries_machine (Sync vm)"
      "\<not> (is_sync (Sync vm) \<and> willObjectBeDeletedLocked (delta_key (Sync vm)) f)"
      using key by (simp_all add: will_be_deleted [OF assms(1)])
    obtain f' where f': "queueActionLocked (Sync vm) f = (None, f')" "fifo_inv f'" "df_populated f' = df_populated f"
      "\<forall>stored. heading stored f' = (heading stored f)(delta_key (Sync vm) := delta_value (Sync vm))"
      "\<forall>key. willObjectBeDeletedLocked key f' =
         (if key = delta_key (Sync vm) then is_deletion (Sync vm) else willObjectBeDeletedLocked key f)"
      "no_syncs f \<and> \<not> is_sync (Sync vm) \<longrightarrow> no_syncs f'"
      by (rule queue_accepted [OF assms(1) accepted])
    have "heading (map_of (ts_items c)) f key = Some vm" using none Some by (simp add: heading_def)
    with f'(4) key have "heading (map_of (ts_items c)) f' = heading (map_of (ts_items c)) f" by (simp add: fun_upd_idem)
    then show thesis
      by (intro that [of f'])
        (use True Some keyof f' in \<open>simp_all add: syncKeyLocked_def cache_GetByKey_def ts_Get_def\<close>)
  qed
qed

lemma sync_keys_ok:
  assumes "fifo_inv f" "keyed (map_of (ts_items c))"
  obtains f' where "sync_keys c keys f = (None, f')" "fifo_inv f'"
    "heading (map_of (ts_items c)) f' = heading (map_of (ts_items c)) f"
  using assms(1)
proof (induction keys arbitrary: f thesis)
  case (Cons key keys)
  obtain f1 where f1: "syncKeyLocked c key f = (None, f1)" "fifo_inv f1"
    "heading (map_of (ts_items c)) f1 = heading (map_of (ts_items c)) f"
    by (rule syncKey_ok [OF Cons.prems(2) assms(2)])
  obtain f2 where "sync_keys c keys f1 = (None, f2)" "fifo_inv f2"
    "heading (map_of (ts_items c)) f2 = heading (map_of (ts_items c)) f1"
    by (rule Cons.IH [OF _ f1(2)])
  with f1 show ?case by (intro Cons.prems(1) [of f2]) simp_all
qed simp

text \<open>A deletion.\<close>

lemma fifo_Delete_ok:
  assumes "fifo_inv f"
  obtains f' where "fifo_Delete c (VMObject vm) f = (None, f')" "fifo_inv f'"
    "heading (map_of (ts_items c)) f' = (heading (map_of (ts_items c)) f)(vm_key vm := None)"
    "no_syncs f \<longrightarrow> no_syncs f'"
proof (cases "map_of (ts_items c) (vm_key vm) = None \<and> df_items f (vm_key vm) = None")
  case True
  then have "heading (map_of (ts_items c)) f (vm_key vm) = None" by (simp add: heading_def)
  then show thesis
    by (intro that [of "f\<lparr>df_populated := True\<rparr>"])
      (use True assms KeyOf_owned [of "Deleted (VMObject vm)"] in
        \<open>simp_all add: fifo_Delete_def cache_GetByKey_def ts_Get_def fun_upd_idem vm_key_func del: DeletionHandlingMetaNamespaceKeyFunc.simps KeyOf.simps\<close>)
next
  case False
  let ?d = "Deleted (VMObject vm)" and ?f = "f\<lparr>df_populated := True\<rparr>"
  have accepted: "fifo_inv ?f" "carries_machine ?d" "\<not> (is_sync ?d \<and> willObjectBeDeletedLocked (delta_key ?d) ?f)"
    using assms by simp_all
  have key: "delta_key ?d = vm_key vm" by (simp add: vm_key_func del: DeletionHandlingMetaNamespaceKeyFunc.simps)
  obtain f' where f': "queueActionLocked ?d ?f = (None, f')" "fifo_inv f'" "df_populated f' = df_populated ?f"
    "\<forall>stored. heading stored f' = (heading stored ?f)(delta_key ?d := delta_value ?d)"
    "\<forall>key. willObjectBeDeletedLocked key f' =
       (if key = delta_key ?d then is_deletion ?d else willObjectBeDeletedLocked key ?f)"
    "no_syncs ?f \<and> \<not> is_sync ?d \<longrightarrow> no_syncs f'"
    by (rule queue_accepted [OF accepted])
  have "KeyOf (VMObject vm) = (vm_key vm, None)" using KeyOf_owned [of ?d] key by simp
  with False f'(1) have "fifo_Delete c (VMObject vm) f = (None, f')"
    by (auto simp: fifo_Delete_def cache_GetByKey_def ts_Get_def Let_def simp del: KeyOf.simps)
  then show thesis
    using f'(2,4,6) key by (intro that [of f']) (simp_all del: delta_key.simps)
qed

text \<open>A relist.\<close>

lemma fifo_Replace_ok:
  assumes "fifo_inv f" "keyed (map_of (ts_items c))"
  obtains f' where "fifo_Replace c vms f = (None, f')" "fifo_inv f'"
    "heading (map_of (ts_items c)) f' = (\<lambda>key.
       if willObjectBeDeletedLocked key f \<or> key \<in> dom (map_of (ts_items c)) - vm_key ` set vms then None
       else fold put vms (heading (map_of (ts_items c)) f) key)"
proof -
  obtain f1 where f1: "sync_all vms [] f = (None, rev (map vm_key vms) @ [], f1)" "fifo_inv f1"
    "df_populated f1 = df_populated f"
    "\<forall>key. willObjectBeDeletedLocked key f1 = willObjectBeDeletedLocked key f"
    "\<forall>stored key. heading stored f1 key =
       (if willObjectBeDeletedLocked key f then heading stored f key else fold put vms (heading stored f) key)"
    by (rule sync_all_ok [OF assms(1)])
  obtain n f2 where f2: "delete_gone c (rev (map vm_key vms) @ []) (ts_ListKeys c) 0 f1 = (None, n, f2)" "fifo_inv f2"
    "df_populated f2 = df_populated f1"
    "\<forall>stored key. heading stored f2 key =
       (if key \<in> set (ts_ListKeys c) - set (rev (map vm_key vms) @ []) then None else heading stored f1 key)"
    by (rule delete_gone_ok [OF f1(2) assms(2) subset_refl])
  define f' where "f' = (if df_populated f2 then f2
    else f2\<lparr>df_populated := True, df_initialPopulationCount := int (length vms) + int n\<rparr>)"
  have same: "fifo_inv f' = fifo_inv f2" "heading stored f' = heading stored f2" for stored
    by (auto simp: f'_def fifo_inv_def heading_def)
  have dom: "set (ts_ListKeys c) = dom (map_of (ts_items c))"
    by (simp add: dom_map_of_conv_image_fst ts_ListKeys_def)
  have "heading stored f key = None" if "willObjectBeDeletedLocked key f" for stored key
    using that by (auto simp: will_be_deleted [OF assms(1)] heading_def)
  then have "heading (map_of (ts_items c)) f' = (\<lambda>key.
       if willObjectBeDeletedLocked key f \<or> key \<in> dom (map_of (ts_items c)) - vm_key ` set vms then None
       else fold put vms (heading (map_of (ts_items c)) f) key)"
    using f1(5) f2(4) dom by (auto simp: same fun_eq_iff)
  moreover have "fifo_Replace c vms f = (None, f')" using f1(1) f2(1) by (simp add: fifo_Replace_def f'_def)
  moreover have "fifo_inv f'" using f2(2) by (simp add: same)
  ultimately show thesis using that by blast
qed

end
