(* ===== verification/Informer_Runs.thy ===== *)
theory Informer_Runs
  imports Delta_Queue_Correct
begin

text \<open>
  Runs of an informer from its start. The targets of a state are the values to which its keys are
  heading. Every step is a step on the targets, taking a key off the queue leaves them as they are,
  and a drained queue makes the cache equal to them. The properties follow: the cache follows lists
  and watches as a map would, and each change of the cache reaches the queue of the controller.
\<close>

section \<open>The informer\<close>

abbreviation stored_in :: "informer_state \<Rightarrow> string \<Rightarrow> virtual_machine option" where
  "stored_in st \<equiv> map_of (ts_items (in_cache st))"

definition informer_inv :: "informer_state \<Rightarrow> bool" where
  "informer_inv st = (fifo_inv (in_fifo st) \<and> cache_inv (in_cache st))"

definition target :: "informer_state \<Rightarrow> string \<Rightarrow> virtual_machine option" where
  "target st = heading (stored_in st) (in_fifo st)"

text \<open>What an event does to the targets. An event of the watch moves them as it would move a map.\<close>

fun watch_map :: "watched_event \<Rightarrow> (string \<Rightarrow> virtual_machine option) \<Rightarrow> string \<Rightarrow> virtual_machine option" where
  "watch_map (WatchAdded vm) m = put vm m"
| "watch_map (WatchModified vm) m = put vm m"
| "watch_map (WatchDeleted vm) m = m(vm_key vm := None)"

fun retarget :: "informer_event \<Rightarrow> informer_state \<Rightarrow> string \<Rightarrow> virtual_machine option" where
  "retarget (Listed vms) st = (\<lambda>key.
     if willObjectBeDeletedLocked key (in_fifo st) \<or> key \<in> dom (stored_in st) - vm_key ` set vms then None
     else fold put vms (target st) key)"
| "retarget (Watched e) st = watch_map e (target st)"
| "retarget Resynced st = target st"
| "retarget Popped st = target st"

fun resyncs :: "informer_event \<Rightarrow> bool" where
  "resyncs (Listed vms) = True"
| "resyncs Resynced = True"
| "resyncs _ = False"

lemma informer_inv_new: "informer_inv new_informer"
  by (simp add: informer_inv_def new_informer_def fifo_inv_new cache_inv_new)

lemma handle_change_stores:
  "cache_inv c \<Longrightarrow> \<exists>c' ns. handle_change isSync vm c = Returns (None, c', ns) \<and> cache_inv c' \<and>
     map_of (ts_items c') = (map_of (ts_items c))(vm_key vm \<mapsto> vm)"
  by (rule handle_change_ok) blast+

lemma handle_delta_stores:
  assumes "cache_inv c" "carries_machine d"
  obtains c' ns where "handle_delta d c = Returns (None, c', ns)" "cache_inv c'"
    "map_of (ts_items c') = (map_of (ts_items c))(delta_key d := delta_value d)"
proof (cases d)
  case (Deleted obj)
  then have "DeletionHandlingMetaNamespaceKeyFunc obj = (delta_key d, None)"
    using assms(2) by (cases d rule: carries_machine.cases) (auto split: if_splits)
  then obtain c' where "cache_Delete obj c = Returns (None, c')" "cache_inv c'"
    "map_of (ts_items c') = (map_of (ts_items c))(delta_key d := None)"
    using cache_Delete_ok [OF assms(1)] by blast
  with Deleted show thesis by (intro that [of c']) simp_all
next
  case (Added vm)
  then show thesis using handle_change_stores [OF assms(1), of False vm] that by auto
next
  case (Updated vm)
  then show thesis using handle_change_stores [OF assms(1), of False vm] that by auto
next
  case (Sync vm)
  then show thesis using handle_change_stores [OF assms(1), of True vm] that by auto
qed

lemma HandleDeltas_stores:
  assumes "cache_inv c" "list_all (owned key) ds" "ds \<noteq> []"
  obtains c' ns where "HandleDeltas ds c = Returns (None, c', ns)" "cache_inv c'"
    "map_of (ts_items c') = (map_of (ts_items c))(key := delta_value (last ds))"
  using assms
proof (induction ds arbitrary: c thesis)
  case (Cons d ds)
  have d: "delta_key d = key" "carries_machine d" "list_all (owned key) ds"
    using Cons.prems(3) by (simp_all only: owned_Cons)
  obtain c1 ns where c1: "handle_delta d c = Returns (None, c1, ns)" "cache_inv c1"
    "map_of (ts_items c1) = (map_of (ts_items c))(delta_key d := delta_value d)"
    by (rule handle_delta_stores [OF Cons.prems(2) d(2)])
  show ?case
  proof (cases "ds = []")
    case True
    then show ?thesis by (intro Cons.prems(1) [of c1 ns]) (use c1 d in simp_all)
  next
    case False
    obtain c2 ns2 where "HandleDeltas ds c1 = Returns (None, c2, ns2)" "cache_inv c2"
      "map_of (ts_items c2) = (map_of (ts_items c1))(key := delta_value (last ds))"
      by (rule Cons.IH [OF _ c1(2) d(3) False])
    then show ?thesis by (intro Cons.prems(1) [of c2 "ns @ ns2"]) (use c1 d False in simp_all)
  qed
qed simp

lemma pop_ok:
  assumes "fifo_inv f" "df_queue f = key # rest"
  obtains ds f' where "fifo_Pop f = (Some ds, f')" "df_items f key = Some ds" "ds \<noteq> []" "list_all (owned key) ds"
    "fifo_inv f'" "df_queue f' = rest" "df_items f' = (df_items f)(key := None)"
proof -
  have "key \<in> dom (df_items f)" using assms by (auto simp: fifo_inv_def)
  then obtain ds where ds: "df_items f key = Some ds" by blast
  then obtain f' where f': "fifo_Pop f = (Some ds, f')" "df_queue f' = rest" "df_items f' = (df_items f)(key := None)"
    using assms(2) by (simp add: fifo_Pop_def Let_def)
  have "fifo_inv f'" using assms f'(2,3) by (auto simp: fifo_inv_def)
  then show thesis using assms(1) ds f' by (intro that [of ds f']) (auto simp: fifo_inv_def)
qed

text \<open>Every step returns, keeps the invariant, moves the targets and tells of what it changes.\<close>

definition tells :: "informer_state \<Rightarrow> informer_state \<Rightarrow> (notification \<times> bool) list \<Rightarrow> bool" where
  "tells st st' ns = (\<forall>key. stored_in st' key \<noteq> stored_in st key \<longrightarrow>
     (\<exists>n s. (n, s) \<in> set ns \<and> (s \<longrightarrow> \<not> no_syncs (in_fifo st)) \<and> queues key n))"

lemma popped_ok:
  assumes "informer_inv st"
  obtains st' ns where "informer_step Popped st = Returns (st', ns)" "informer_inv st'" "target st' = target st"
    "tells st st' ns" "no_syncs (in_fifo st) \<longrightarrow> no_syncs (in_fifo st')"
    "df_queue (in_fifo st') = tl (df_queue (in_fifo st))"
proof (cases "df_queue (in_fifo st)")
  case Nil
  then show thesis
    by (intro that [of st "[]"]) (use assms in \<open>simp_all add: processLoop_turn_def fifo_Pop_def tells_def\<close>)
next
  case (Cons key rest)
  have inv: "fifo_inv (in_fifo st)" "cache_inv (in_cache st)" using assms by (simp_all add: informer_inv_def)
  obtain ds f' where f': "fifo_Pop (in_fifo st) = (Some ds, f')" "df_items (in_fifo st) key = Some ds" "ds \<noteq> []"
    "list_all (owned key) ds" "fifo_inv f'" "df_queue f' = rest" "df_items f' = (df_items (in_fifo st))(key := None)"
    by (rule pop_ok [OF inv(1) Cons])
  obtain c ns where c: "HandleDeltas ds (in_cache st) = Returns (None, c, ns)" "cache_inv c"
    "map_of (ts_items c) = (stored_in st)(key := delta_value (last ds))"
    by (rule HandleDeltas_stores [OF inv(2) f'(4,3)])
  have "list_all carries_machine ds" using f'(4) by (simp add: list_all_iff owned_def)
  then have told: "\<forall>key. map_of (ts_items c) key \<noteq> stored_in st key \<longrightarrow>
      (\<exists>n s. (n, s) \<in> set ns \<and> (s \<longrightarrow> list_ex is_sync ds) \<and> queues key n)"
    using HandleDeltas_ok [OF inv(2), of ds] c(1) by (metis (no_types, lifting) panicky.inject(1) prod.inject)
  let ?st = "\<lparr>in_fifo = f', in_cache = c\<rparr>"
  have "target ?st = target st"
    using f'(2,7) c(3) by (auto simp: target_def heading_def fun_eq_iff split: option.split)
  moreover have "tells st ?st ns"
    using told f'(2) by (fastforce simp: tells_def no_syncs_def)
  moreover have "no_syncs (in_fifo st) \<longrightarrow> no_syncs f'"
    using f'(7) by (auto simp: no_syncs_def)
  ultimately show thesis
    by (intro that [of ?st ns]) (use f' c Cons in \<open>simp_all add: processLoop_turn_def informer_inv_def\<close>)
qed

text \<open>The watch adds or modifies with a delta that is no sync and never dropped.\<close>

lemma watched_ok:
  assumes "informer_inv st" "d \<in> {Added vm, Updated vm}"
  obtains f' where "queueActionLocked d ((in_fifo st)\<lparr>df_populated := True\<rparr>) = (None, f')"
    "informer_inv (st\<lparr>in_fifo := f'\<rparr>)" "target (st\<lparr>in_fifo := f'\<rparr>) = put vm (target st)"
    "no_syncs (in_fifo st) \<longrightarrow> no_syncs f'"
proof -
  let ?f = "(in_fifo st)\<lparr>df_populated := True\<rparr>"
  have d: "delta_key d = vm_key vm" "delta_value d = Some vm" "\<not> is_sync d" using assms(2) by auto
  have accepted: "fifo_inv ?f" "carries_machine d" "\<not> (is_sync d \<and> willObjectBeDeletedLocked (delta_key d) ?f)"
    using assms by (auto simp: informer_inv_def)
  obtain f' where f': "queueActionLocked d ?f = (None, f')" "fifo_inv f'" "df_populated f' = df_populated ?f"
    "\<forall>stored. heading stored f' = (heading stored ?f)(delta_key d := delta_value d)"
    "\<forall>key. willObjectBeDeletedLocked key f' = (if key = delta_key d then is_deletion d else willObjectBeDeletedLocked key ?f)"
    "no_syncs ?f \<and> \<not> is_sync d \<longrightarrow> no_syncs f'"
    by (rule queue_accepted [OF accepted])
  show thesis
    by (rule that [of f']) (use f' d assms(1) in \<open>simp_all add: informer_inv_def target_def put_def\<close>)
qed

lemma handle_watch_ok:
  assumes "informer_inv st"
  obtains f' where "handle_watch e st = st\<lparr>in_fifo := f'\<rparr>" "informer_inv (st\<lparr>in_fifo := f'\<rparr>)"
    "target (st\<lparr>in_fifo := f'\<rparr>) = watch_map e (target st)" "no_syncs (in_fifo st) \<longrightarrow> no_syncs f'"
proof (cases e)
  case (WatchAdded vm)
  obtain f' where "queueActionLocked (Added vm) ((in_fifo st)\<lparr>df_populated := True\<rparr>) = (None, f')"
    "informer_inv (st\<lparr>in_fifo := f'\<rparr>)" "target (st\<lparr>in_fifo := f'\<rparr>) = put vm (target st)"
    "no_syncs (in_fifo st) \<longrightarrow> no_syncs f'"
    by (rule watched_ok [OF assms, of "Added vm" vm]) simp
  then show thesis by (intro that [of f']) (use WatchAdded in \<open>simp_all add: fifo_Add_def\<close>)
next
  case (WatchModified vm)
  obtain f' where "queueActionLocked (Updated vm) ((in_fifo st)\<lparr>df_populated := True\<rparr>) = (None, f')"
    "informer_inv (st\<lparr>in_fifo := f'\<rparr>)" "target (st\<lparr>in_fifo := f'\<rparr>) = put vm (target st)"
    "no_syncs (in_fifo st) \<longrightarrow> no_syncs f'"
    by (rule watched_ok [OF assms, of "Updated vm" vm]) simp
  then show thesis by (intro that [of f']) (use WatchModified in \<open>simp_all add: fifo_Update_def\<close>)
next
  case (WatchDeleted vm)
  have inv: "fifo_inv (in_fifo st)" "cache_inv (in_cache st)" using assms by (simp_all add: informer_inv_def)
  obtain f' where "fifo_Delete (in_cache st) (VMObject vm) (in_fifo st) = (None, f')" "fifo_inv f'"
    "heading (stored_in st) f' = (heading (stored_in st) (in_fifo st))(vm_key vm := None)"
    "no_syncs (in_fifo st) \<longrightarrow> no_syncs f'"
    by (rule fifo_Delete_ok [OF inv(1)])
  then show thesis by (intro that [of f']) (use WatchDeleted inv in \<open>simp_all add: informer_inv_def target_def\<close>)
qed

lemma informer_step_ok:
  assumes "informer_inv st"
  obtains st' ns where "informer_step e st = Returns (st', ns)" "informer_inv st'" "target st' = retarget e st"
    "tells st st' ns" "no_syncs (in_fifo st) \<and> \<not> resyncs e \<longrightarrow> no_syncs (in_fifo st')"
proof -
  have inv: "fifo_inv (in_fifo st)" "keyed (stored_in st)" "cache_inv (in_cache st)"
    using assms by (simp_all add: informer_inv_def cache_inv_def)
  have quiet: "tells st (st\<lparr>in_fifo := f\<rparr>) []" for f by (simp add: tells_def)
  show thesis
  proof (cases e)
    case (Listed vms)
    obtain f' where "fifo_Replace (in_cache st) vms (in_fifo st) = (None, f')" "fifo_inv f'"
      "heading (stored_in st) f' = (\<lambda>key.
         if willObjectBeDeletedLocked key (in_fifo st) \<or> key \<in> dom (stored_in st) - vm_key ` set vms then None
         else fold put vms (heading (stored_in st) (in_fifo st)) key)"
      by (rule fifo_Replace_ok [OF inv(1,2)])
    then show thesis
      by (intro that [of "st\<lparr>in_fifo := f'\<rparr>" "[]"])
        (use Listed quiet inv in \<open>simp_all add: syncWith_def informer_inv_def target_def [abs_def] cong: if_cong\<close>)
  next
    case (Watched w)
    obtain f' where "handle_watch w st = st\<lparr>in_fifo := f'\<rparr>" "informer_inv (st\<lparr>in_fifo := f'\<rparr>)"
      "target (st\<lparr>in_fifo := f'\<rparr>) = watch_map w (target st)" "no_syncs (in_fifo st) \<longrightarrow> no_syncs f'"
      by (rule handle_watch_ok [OF assms])
    then show thesis by (intro that [of "st\<lparr>in_fifo := f'\<rparr>" "[]"]) (use Watched quiet in simp_all)
  next
    case Resynced
    obtain f' where "fifo_Resync (in_cache st) (in_fifo st) = (None, f')" "fifo_inv f'"
      "heading (stored_in st) f' = heading (stored_in st) (in_fifo st)"
      unfolding fifo_Resync_def by (rule sync_keys_ok [OF inv(1,2)])
    then show thesis
      by (intro that [of "st\<lparr>in_fifo := f'\<rparr>" "[]"])
        (use Resynced quiet inv in \<open>simp_all add: informer_inv_def target_def\<close>)
  next
    case Popped
    then show thesis using popped_ok [OF assms] that by (metis retarget.simps(4))
  qed
qed

text \<open>Runs.\<close>

lemma informer_run_ok:
  assumes "informer_inv st"
  obtains st' ns where "informer_run es st = Returns (st', ns)" "informer_inv st'"
    "\<forall>key. stored_in st' key \<noteq> stored_in st key \<longrightarrow> (\<exists>n s. (n, s) \<in> set ns \<and> queues key n \<and>
       (s \<longrightarrow> \<not> (no_syncs (in_fifo st) \<and> \<not> list_ex resyncs es)))"
  using assms
proof (induction es arbitrary: st thesis)
  case (Cons e es)
  obtain st1 ns1 where st1: "informer_step e st = Returns (st1, ns1)" "informer_inv st1" "target st1 = retarget e st"
    "tells st st1 ns1" "no_syncs (in_fifo st) \<and> \<not> resyncs e \<longrightarrow> no_syncs (in_fifo st1)"
    by (rule informer_step_ok [OF Cons.prems(2)])
  obtain st2 ns2 where st2: "informer_run es st1 = Returns (st2, ns2)" "informer_inv st2"
    "\<forall>key. stored_in st2 key \<noteq> stored_in st1 key \<longrightarrow> (\<exists>n s. (n, s) \<in> set ns2 \<and> queues key n \<and>
       (s \<longrightarrow> \<not> (no_syncs (in_fifo st1) \<and> \<not> list_ex resyncs es)))"
    by (rule Cons.IH [OF _ st1(2)])
  have "\<exists>n s. (n, s) \<in> set (ns1 @ ns2) \<and> queues key n \<and>
      (s \<longrightarrow> \<not> (no_syncs (in_fifo st) \<and> \<not> list_ex resyncs (e # es)))"
    if "stored_in st2 key \<noteq> stored_in st key" for key
  proof (cases "stored_in st2 key = stored_in st1 key")
    case True
    then show ?thesis using st1(4) that unfolding tells_def by fastforce
  next
    case False
    then show ?thesis using st1(5) st2(3) by fastforce
  qed
  then show ?case by (intro Cons.prems(1) [of st2 "ns1 @ ns2"]) (use st1 st2 in simp_all)
qed simp

text \<open>Events of a watch alone move the targets as they would move a map.\<close>

fun watched :: "informer_event \<Rightarrow> (string \<Rightarrow> virtual_machine option) \<Rightarrow> string \<Rightarrow> virtual_machine option" where
  "watched (Watched e) m = watch_map e m"
| "watched e m = m"

fun is_list :: "informer_event \<Rightarrow> bool" where
  "is_list (Listed vms) = True"
| "is_list e = False"

lemma watched_run:
  assumes "informer_inv st" "\<not> list_ex is_list es"
  obtains st' ns where "informer_run es st = Returns (st', ns)" "informer_inv st'" "target st' = fold watched es (target st)"
  using assms
proof (induction es arbitrary: st thesis)
  case (Cons e es)
  obtain st1 ns1 where st1: "informer_step e st = Returns (st1, ns1)" "informer_inv st1" "target st1 = retarget e st"
    "tells st st1 ns1" "no_syncs (in_fifo st) \<and> \<not> resyncs e \<longrightarrow> no_syncs (in_fifo st1)"
    by (rule informer_step_ok [OF Cons.prems(2)])
  have "retarget e st = watched e (target st)" using Cons.prems(3) by (cases e) simp_all
  have unlisted: "\<not> list_ex is_list es" using Cons.prems(3) by simp
  obtain st2 ns2 where "informer_run es st1 = Returns (st2, ns2)" "informer_inv st2"
    "target st2 = fold watched es (target st1)"
    by (rule Cons.IH [OF _ st1(2) unlisted])
  then show ?case by (intro Cons.prems(1) [of st2 "ns1 @ ns2"]) (use st1 \<open>retarget e st = watched e (target st)\<close> in simp_all)
qed simp

text \<open>Taking every key off the queue leaves the targets in the cache.\<close>

lemma drained:
  assumes "informer_inv st" "df_queue (in_fifo st) = []"
  shows "target st = stored_in st" "\<not> willObjectBeDeletedLocked key (in_fifo st)" "no_syncs (in_fifo st)"
proof -
  have "df_items (in_fifo st) = Map.empty" using assms by (auto simp: informer_inv_def fifo_inv_def)
  then show "target st = stored_in st" "\<not> willObjectBeDeletedLocked key (in_fifo st)" "no_syncs (in_fifo st)"
    by (auto simp: target_def heading_def willObjectBeDeletedLocked_def items_of_def no_syncs_def)
qed

lemma drain_ok:
  assumes "informer_inv st"
  obtains st' ns where "informer_run (replicate (length (df_queue (in_fifo st))) Popped) st = Returns (st', ns)"
    "informer_inv st'" "df_queue (in_fifo st') = []" "stored_in st' = target st"
  using assms
proof (induction "length (df_queue (in_fifo st))" arbitrary: st thesis)
  case 0
  then show ?case using drained(1) [of st] by (intro "0.prems"(1) [of st "[]"]) simp_all
next
  case (Suc n)
  obtain st1 ns1 where st1: "informer_step Popped st = Returns (st1, ns1)" "informer_inv st1" "target st1 = target st"
    "tells st st1 ns1" "no_syncs (in_fifo st) \<longrightarrow> no_syncs (in_fifo st1)"
    "df_queue (in_fifo st1) = tl (df_queue (in_fifo st))"
    by (rule popped_ok [OF Suc.prems(2)])
  have n: "n = length (df_queue (in_fifo st1))" using st1(6) Suc.hyps(2) by simp
  obtain st2 ns2 where st2: "informer_run (replicate (length (df_queue (in_fifo st1))) Popped) st1 = Returns (st2, ns2)"
    "informer_inv st2" "df_queue (in_fifo st2) = []" "stored_in st2 = target st1"
    by (rule Suc.hyps(1) [OF n _ st1(2)])
  have "replicate (length (df_queue (in_fifo st))) Popped = Popped # replicate (length (df_queue (in_fifo st1))) Popped"
    using Suc.hyps(2) n by (metis replicate_Suc)
  then have "informer_run (replicate (length (df_queue (in_fifo st))) Popped) st = Returns (st2, ns1 @ ns2)"
    using st1(1) st2(1) by (simp del: informer_step.simps)
  then show ?case by (rule Suc.prems(1)) (use st2 st1(3) in simp_all)
qed

lemma reachable_ok:
  assumes "informer_run es new_informer = Returns (st, ns)"
  shows "informer_inv st"
proof (rule informer_run_ok [OF informer_inv_new, of es])
  fix st' ns' assume "informer_run es new_informer = Returns (st', ns')" "informer_inv st'"
  with assms show ?thesis by simp
qed

lemma relisted:
  assumes "informer_inv st" "df_queue (in_fifo st) = []"
  shows "retarget (Listed vms) st = fold put vms Map.empty"
proof
  fix key
  show "retarget (Listed vms) st key = fold put vms Map.empty key"
    using drained [OF assms] fold_put [of vms "stored_in st" key] fold_put_keys [of vms key]
    by (auto split: option.splits)
qed

section \<open>The properties\<close>

text \<open>
  From any point at which its queue is drained, an informer that lists machines, then sees any
  events of the watch, resyncs and pops in any order, never panics, and handling as many keys as then
  are queued drains the queue again and leaves in the cache exactly the listed machines as the events
  of the watch change them, as on a map.
\<close>
theorem cache_follows_watch:
  assumes "informer_run before new_informer = Returns (st, ns)" "df_queue (in_fifo st) = []"
    and "\<not> list_ex is_list after"
  shows "\<exists>st1 ns1 st2 ns2. informer_run (Listed vms # after) st = Returns (st1, ns1) \<and>
    informer_run (replicate (length (df_queue (in_fifo st1))) Popped) st1 = Returns (st2, ns2) \<and>
    df_queue (in_fifo st2) = [] \<and>
    map_of (ts_items (in_cache st2)) = fold watched after (fold put vms Map.empty)"
proof -
  have inv: "informer_inv st" using assms(1) by (rule reachable_ok)
  obtain st0 ns0 where st0: "informer_step (Listed vms) st = Returns (st0, ns0)" "informer_inv st0"
    "target st0 = retarget (Listed vms) st" "tells st st0 ns0"
    "no_syncs (in_fifo st) \<and> \<not> resyncs (Listed vms) \<longrightarrow> no_syncs (in_fifo st0)"
    by (rule informer_step_ok [OF inv])
  obtain st1 ns1 where st1: "informer_run after st0 = Returns (st1, ns1)" "informer_inv st1"
    "target st1 = fold watched after (target st0)"
    by (rule watched_run [OF st0(2) assms(3)])
  obtain st2 ns2 where st2: "informer_run (replicate (length (df_queue (in_fifo st1))) Popped) st1 = Returns (st2, ns2)"
    "informer_inv st2" "df_queue (in_fifo st2) = []" "stored_in st2 = target st1"
    by (rule drain_ok [OF st1(2)])
  have "informer_run (Listed vms # after) st = Returns (st1, ns0 @ ns1)"
    using st0(1) st1(1) by (simp del: informer_step.simps)
  with st2 st1(3) st0(3) relisted [OF inv assms(2)] show ?thesis by metis
qed

lemma new_informer_drained: "informer_run [] new_informer = Returns (new_informer, [])" "df_queue (in_fifo new_informer) = []"
  by (simp_all add: new_informer_def NewDeltaFIFO_def)

theorem cache_follows_watch_witness:
  "\<exists>st1 ns1 st2 ns2. informer_run [Listed [live_vm], Watched (WatchDeleted live_vm)] new_informer = Returns (st1, ns1) \<and>
    informer_run (replicate (length (df_queue (in_fifo st1))) Popped) st1 = Returns (st2, ns2) \<and>
    df_queue (in_fifo st2) = [] \<and> map_of (ts_items (in_cache st2)) = Map.empty"
  using cache_follows_watch [OF new_informer_drained, of "[Watched (WatchDeleted live_vm)]" "[live_vm]"]
  by (simp add: put_def del: informer_run.simps)

text \<open>
  Whatever lists, events of the watch, resyncs and pops an informer goes through, whenever the
  cache holds something else under a key afterwards than before, the handlers of the controller,
  called for what is distributed, put this key on its queue for a worker, unless this queue is
  shutting down. A listener that is not syncing is told of all that the watch changes.
\<close>
theorem machine_changes_queued:
  assumes "informer_run before new_informer = Returns (st, ns)" "informer_run after st = Returns (st', ns')"
    and "syncing \<or> df_queue (in_fifo st) = [] \<and> \<not> list_ex resyncs after"
    and "\<not> shuttingDown (base q)"
    and "map_of (ts_items (in_cache st')) key \<noteq> map_of (ts_items (in_cache st)) key"
  shows "\<exists>q'. listener_run (distribute syncing ns') q = (Returns (), q') \<and> key \<in> dirty (base q')"
proof -
  have inv: "informer_inv st" using assms(1) by (rule reachable_ok)
  have "\<exists>n s. (n, s) \<in> set ns' \<and> queues key n \<and> (s \<longrightarrow> \<not> (no_syncs (in_fifo st) \<and> \<not> list_ex resyncs after))"
  proof (rule informer_run_ok [OF inv, of after])
    fix st2 ns2
    assume "informer_run after st = Returns (st2, ns2)"
      "\<forall>key. stored_in st2 key \<noteq> stored_in st key \<longrightarrow> (\<exists>n s. (n, s) \<in> set ns2 \<and> queues key n \<and>
         (s \<longrightarrow> \<not> (no_syncs (in_fifo st) \<and> \<not> list_ex resyncs after)))"
    then show ?thesis using assms(2,5) by simp
  qed
  then obtain n s where n: "(n, s) \<in> set ns'" "queues key n" "s \<longrightarrow> syncing"
    using drained(3) [OF inv] assms(3) by blast
  then have "n \<in> set (distribute syncing ns')" by (force simp: distribute_def)
  moreover obtain q' where "listener_run (distribute syncing ns') q = (Returns (), q')"
    "\<not> shuttingDown (base q) \<longrightarrow>
       (\<forall>n \<in> set (distribute syncing ns'). \<forall>key. queues key n \<longrightarrow> key \<in> dirty (base q'))"
    by (rule listener_run_ok)
  ultimately show ?thesis using assms(4) n(2) by blast
qed

lemma first_watch:
  obtains st where "informer_run [Watched (WatchAdded vm), Popped] new_informer = Returns (st, [(addNotification vm, False)])"
    "stored_in st = [vm_key vm \<mapsto> vm]"
proof (rule first_delta [of vm])
  fix c assume c: "HandleDeltas [Added vm] (cache_after []) = Returns (None, c, [(addNotification vm, False)])"
    "map_of (ts_items c) = [vm_key vm \<mapsto> vm]"
  have new: "cache_after [] = NewIndexer namespace_indexers" by (simp add: cache_after_def)
  let ?f = "\<lparr>df_items = [vm_key vm \<mapsto> [Added vm]], df_queue = [vm_key vm], df_populated = True,
    df_initialPopulationCount = 0, df_closed = False\<rparr>"
  have "queueActionLocked (Added vm) (NewDeltaFIFO\<lparr>df_populated := True\<rparr>) = (None, ?f)"
    using KeyOf_owned [of "Added vm"]
    by (simp add: queueActionLocked_def dedupDeltas_def items_of_def NewDeltaFIFO_def del: KeyOf.simps)
  then have added: "informer_step (Watched (WatchAdded vm)) new_informer = Returns (new_informer\<lparr>in_fifo := ?f\<rparr>, [])"
    by (simp add: fifo_Add_def new_informer_def)
  let ?g = "?f\<lparr>df_queue := [], df_items := Map.empty\<rparr>"
  have "informer_step Popped (new_informer\<lparr>in_fifo := ?f\<rparr>) =
      Returns (\<lparr>in_fifo = ?g, in_cache = c\<rparr>, [(addNotification vm, False)])"
    using c(1) by (simp add: processLoop_turn_def fifo_Pop_def new_informer_def new del: HandleDeltas.simps)
  with added c(2) show thesis
    by (intro that [of "\<lparr>in_fifo = ?g, in_cache = c\<rparr>"]) (simp_all del: informer_step.simps)
qed

theorem machine_changes_queued_witness:
  "\<exists>q'. listener_run (distribute False [(addNotification live_vm, False)]) (new_rl_queue (0 :: nat)) = (Returns (), q') \<and>
     vm_key live_vm \<in> dirty (base q')"
proof (rule first_watch [of live_vm])
  fix st assume run: "informer_run [Watched (WatchAdded live_vm), Popped] new_informer = Returns (st, [(addNotification live_vm, False)])"
    and stored: "stored_in st = [vm_key live_vm \<mapsto> live_vm]"
  have "False \<or> df_queue (in_fifo new_informer) = [] \<and> \<not> list_ex resyncs [Watched (WatchAdded live_vm), Popped]"
    using new_informer_drained(2) by simp
  moreover have "\<not> shuttingDown (base (new_rl_queue (0 :: nat) :: (string, nat) rl_queue))"
    by (simp add: new_rl_queue_def new_wqueue_def)
  moreover have "stored_in st (vm_key live_vm) \<noteq> stored_in new_informer (vm_key live_vm)"
    using stored by (simp add: new_informer_def NewIndexer_def NewThreadSafeStore_def)
  ultimately show ?thesis by (rule machine_changes_queued [OF new_informer_drained(1) run])
qed

text \<open>
  A list that is taken while a deletion waits on the queue does not bring back the machine: its sync
  is dropped, the deletion empties the cache, and the machine stays away until the next list or event.
\<close>
theorem relist_misses_recreated:
  assumes "informer_run before new_informer = Returns (st, ns)" "willObjectBeDeletedLocked key (in_fifo st)"
  shows "\<exists>st1 ns1 st2 ns2. informer_run [Listed vms] st = Returns (st1, ns1) \<and>
    informer_run (replicate (length (df_queue (in_fifo st1))) Popped) st1 = Returns (st2, ns2) \<and>
    df_queue (in_fifo st2) = [] \<and> map_of (ts_items (in_cache st2)) key = None"
proof -
  have inv: "informer_inv st" using assms(1) by (rule reachable_ok)
  obtain st1 ns1 where st1: "informer_step (Listed vms) st = Returns (st1, ns1)" "informer_inv st1"
    "target st1 = retarget (Listed vms) st" "tells st st1 ns1"
    "no_syncs (in_fifo st) \<and> \<not> resyncs (Listed vms) \<longrightarrow> no_syncs (in_fifo st1)"
    by (rule informer_step_ok [OF inv])
  obtain st2 ns2 where st2: "informer_run (replicate (length (df_queue (in_fifo st1))) Popped) st1 = Returns (st2, ns2)"
    "informer_inv st2" "df_queue (in_fifo st2) = []" "stored_in st2 = target st1"
    by (rule drain_ok [OF st1(2)])
  have "informer_run [Listed vms] st = Returns (st1, ns1)" using st1(1) by (simp del: informer_step.simps)
  moreover have "stored_in st2 key = None" using st2(4) st1(3) assms(2) by simp
  ultimately show ?thesis using st2 by blast
qed

text \<open>Such a point is reached when an added machine is deleted before its key is taken off the queue.\<close>

lemma deletion_waits:
  "\<exists>st ns. informer_run [Watched (WatchAdded live_vm), Watched (WatchDeleted live_vm)] new_informer = Returns (st, ns) \<and>
     willObjectBeDeletedLocked (vm_key live_vm) (in_fifo st)"
proof (rule watched_run [OF informer_inv_new, of "[Watched (WatchAdded live_vm), Watched (WatchDeleted live_vm)]"])
  fix st ns assume run: "informer_run [Watched (WatchAdded live_vm), Watched (WatchDeleted live_vm)] new_informer = Returns (st, ns)"
  have "willObjectBeDeletedLocked (vm_key live_vm) (in_fifo st)"
    using run by (auto simp: fifo_Add_def fifo_Delete_def queueActionLocked_def dedupDeltas_def isDup_def
        willObjectBeDeletedLocked_def items_of_def new_informer_def NewDeltaFIFO_def vm_key_def key_of_def
        NewIndexer_def NewThreadSafeStore_def cache_GetByKey_def ts_Get_def Let_def split: if_splits)
  with run show ?thesis by blast
qed simp

end
