(* ===== verification/Reflector.thy ===== *)
theory Reflector
  imports Informer_Runs
begin

text \<open>
  The reflector of \<open>client-go/tools/cache/reflector.go\<close>, which lists the machines, watches from the
  version of the list on, and lists again when a watch ends with an error. It is a state machine: the
  phase says where \<open>Run\<close>, \<open>ListAndWatch\<close> or \<open>watchHandler\<close> waits, and the answers of the server, the
  events of a watch, timers and the stop channel are the inputs that move it. Logs and metrics are
  left out.
\<close>

section \<open>The state\<close>

text \<open>
  \<open>Listing\<close> is the start of a turn of \<open>Run\<close>. \<open>Watching\<close> is the loop of \<open>ListAndWatch\<close> and \<open>Handling\<close> the one
  of \<open>watchHandler\<close>, with the resource version and the number of events. \<open>Between\<close> is the wait for
  the next turn, with the error of the last.
\<close>

datatype reflector_phase =
    Listing
  | Watching string
  | Handling string nat
  | Between "go_error option"
  | Stopped

record reflector =
  rf_phase :: reflector_phase
  rf_lastSyncResourceVersion :: string
  rf_resyncerrc :: "go_error option"

definition NewReflector :: reflector where
  "NewReflector = \<lparr>rf_phase = Listing, rf_lastSyncResourceVersion = [], rf_resyncerrc = None\<rparr>"

section \<open>Listing and watching\<close>

text \<open>The part of \<open>ListAndWatch\<close> up to its loop; \<open>name\<close> is the name of the reflector.\<close>

definition ListAndWatch_list ::
    "string \<Rightarrow> (virtual_machine list \<times> string) + go_error \<Rightarrow> reflector \<times> informer_state \<Rightarrow> reflector \<times> informer_state" where
  "ListAndWatch_list name answer = (\<lambda>(r, st).
     case answer of
       Inr err \<Rightarrow>
         (r\<lparr>rf_phase := Between (Some (errorf_v (name @ '': Failed to list *v1alpha1.VirtualMachine: '') err))\<rparr>, st)
     | Inl (items, resourceVersion) \<Rightarrow>
         (case syncWith items st of
            (Some err, st') \<Rightarrow>
              (r\<lparr>rf_phase := Between (Some (errorf_v (name @ '': Unable to sync list result: '') err))\<rparr>, st')
          | (None, st') \<Rightarrow>
              (r\<lparr>rf_lastSyncResourceVersion := resourceVersion, rf_resyncerrc := None,
                 rf_phase := Watching resourceVersion\<rparr>, st')))"

text \<open>
  The answer to a watch: it is open, the connection was refused, which is tried again after a second,
  or it failed in another way, which ends \<open>ListAndWatch\<close>.
\<close>

datatype watch_answer = Opened | Refused | Failed

fun ListAndWatch_watch :: "watch_answer \<Rightarrow> string \<Rightarrow> reflector_phase" where
  "ListAndWatch_watch Opened resourceVersion = Handling resourceVersion 0"
| "ListAndWatch_watch Refused resourceVersion = Watching resourceVersion"
| "ListAndWatch_watch Failed resourceVersion = Between None"

text \<open>An event of a watch, with its type as the server sends it.\<close>

datatype event_object = MachineObject virtual_machine | OtherTypeObject string

definition watchHandler_event ::
    "string \<Rightarrow> event_object \<Rightarrow> nat \<Rightarrow> reflector \<times> informer_state \<Rightarrow> reflector \<times> informer_state" where
  "watchHandler_event ty obj eventCount = (\<lambda>(r, st).
     if ty = ''ERROR'' then (r\<lparr>rf_phase := Between None\<rparr>, st)
     else case obj of
       OtherTypeObject t \<Rightarrow> (r, st)
     | MachineObject vm \<Rightarrow>
         let newResourceVersion = om_resourceVersion (metadata vm);
             st' = (if ty = ''ADDED'' then handle_watch (WatchAdded vm) st
                    else if ty = ''MODIFIED'' then handle_watch (WatchModified vm) st
                    else if ty = ''DELETED'' then handle_watch (WatchDeleted vm) st
                    else st)
         in (r\<lparr>rf_phase := Handling newResourceVersion (Suc eventCount),
               rf_lastSyncResourceVersion := newResourceVersion\<rparr>, st'))"

text \<open>A watch that closes within a second without an event counts as an error.\<close>

definition watchHandler_closed :: "bool \<Rightarrow> string \<Rightarrow> nat \<Rightarrow> reflector_phase" where
  "watchHandler_closed short resourceVersion eventCount =
     (if short \<and> eventCount = 0 then Between None else Watching resourceVersion)"

text \<open>
  A turn of the goroutine that resyncs, with the answer of \<open>ShouldResync\<close>. It may still fire when its
  \<open>ListAndWatch\<close> has ended, and then nobody reads its error.
\<close>

fun in_loop :: "reflector_phase \<Rightarrow> bool" where
  "in_loop (Watching v) = True"
| "in_loop (Handling v n) = True"
| "in_loop _ = False"

definition resync_turn :: "bool \<Rightarrow> reflector \<times> informer_state \<Rightarrow> reflector \<times> informer_state" where
  "resync_turn should = (\<lambda>(r, st).
     if \<not> should then (r, st)
     else case fifo_Resync (in_cache st) (in_fifo st) of
       (err, f) \<Rightarrow> (if in_loop (rf_phase r) \<and> err \<noteq> None then r\<lparr>rf_resyncerrc := err\<rparr> else r, st\<lparr>in_fifo := f\<rparr>))"

section \<open>The machine\<close>

datatype reflector_input =
    ListAnswer "(virtual_machine list \<times> string) + go_error"
  | WatchAnswer watch_answer
  | WatchEvent string event_object
  | WatchClosed bool
  | ResyncError
  | ResyncFires bool
  | PeriodOver
  | StopSeen

text \<open>What an input does where it can come; a goroutine that has written its error fires no more.\<close>

definition reflector_step ::
    "string \<Rightarrow> reflector_input \<Rightarrow> reflector \<times> informer_state \<Rightarrow> (reflector \<times> informer_state) option" where
  "reflector_step name inp = (\<lambda>(r, st).
     case (inp, rf_phase r) of
       (ListAnswer answer, Listing) \<Rightarrow> Some (ListAndWatch_list name answer (r, st))
     | (WatchAnswer answer, Watching v) \<Rightarrow> Some (r\<lparr>rf_phase := ListAndWatch_watch answer v\<rparr>, st)
     | (WatchEvent ty obj, Handling v n) \<Rightarrow> Some (watchHandler_event ty obj n (r, st))
     | (WatchClosed short, Handling v n) \<Rightarrow> Some (r\<lparr>rf_phase := watchHandler_closed short v n\<rparr>, st)
     | (ResyncError, Handling v n) \<Rightarrow>
         (case rf_resyncerrc r of None \<Rightarrow> None | Some err \<Rightarrow> Some (r\<lparr>rf_phase := Between None\<rparr>, st))
     | (ResyncFires should, phase) \<Rightarrow> if rf_resyncerrc r = None then Some (resync_turn should (r, st)) else None
     | (PeriodOver, Between err) \<Rightarrow> Some (r\<lparr>rf_phase := Listing\<rparr>, st)
     | (StopSeen, Watching v) \<Rightarrow> Some (r\<lparr>rf_phase := Between None\<rparr>, st)
     | (StopSeen, Handling v n) \<Rightarrow> Some (r\<lparr>rf_phase := Between None\<rparr>, st)
     | (StopSeen, Between err) \<Rightarrow> Some (r\<lparr>rf_phase := Stopped\<rparr>, st)
     | (StopSeen, Listing) \<Rightarrow> Some (r\<lparr>rf_phase := Stopped\<rparr>, st)
     | _ \<Rightarrow> None)"

section \<open>The server\<close>

text \<open>
  A server is the history of its machines, of which version \<open>n\<close> has the first \<open>n\<close> events; \<open>rv\<close> is how it
  writes versions. A list is a version of the past, a watch from a version sends the events after it
  in order, and every event carries its version. \<open>cl_told\<close> is what the informer has distributed to its
  listeners. \<open>cl_tainted\<close> remembers whether a list was taken while
  the queue held what such a list does not put right.
\<close>

record cluster =
  cl_log :: "watched_event list"
  cl_cursor :: nat
  cl_reflector :: reflector
  cl_informer :: informer_state
  cl_told :: "(notification \<times> bool) list"
  cl_tainted :: bool

definition new_cluster :: cluster where
  "new_cluster = \<lparr>cl_log = [], cl_cursor = 0, cl_reflector = NewReflector, cl_informer = new_informer,
     cl_told = [], cl_tainted = False\<rparr>"

definition state_at :: "watched_event list \<Rightarrow> nat \<Rightarrow> string \<Rightarrow> virtual_machine option" where
  "state_at log n = fold watch_map (take n log) Map.empty"

fun watched_machine :: "watched_event \<Rightarrow> virtual_machine" where
  "watched_machine (WatchAdded vm) = vm"
| "watched_machine (WatchModified vm) = vm"
| "watched_machine (WatchDeleted vm) = vm"

fun event_type :: "watched_event \<Rightarrow> string" where
  "event_type (WatchAdded vm) = ''ADDED''"
| "event_type (WatchModified vm) = ''MODIFIED''"
| "event_type (WatchDeleted vm) = ''DELETED''"

text \<open>A list settles the queue when no listed machine is about to be deleted and every queued new machine is listed.\<close>

definition settles :: "virtual_machine list \<Rightarrow> informer_state \<Rightarrow> bool" where
  "settles vms st = (\<forall>key.
     (willObjectBeDeletedLocked key (in_fifo st) \<longrightarrow> key \<notin> vm_key ` set vms) \<and>
     (map_of (ts_items (in_cache st)) key = None \<and> target st key \<noteq> None \<longrightarrow> key \<in> vm_key ` set vms))"

text \<open>The inputs that do not concern the history: failures, strange objects, ends, timers.\<close>

fun plain_input :: "reflector_input \<Rightarrow> bool" where
  "plain_input (ListAnswer (Inl x)) = False"
| "plain_input (WatchAnswer answer) = (answer \<noteq> Opened)"
| "plain_input (WatchEvent ty (MachineObject vm)) = (ty = ''ERROR'')"
| "plain_input _ = True"

inductive cluster_step :: "(nat \<Rightarrow> string) \<Rightarrow> string \<Rightarrow> cluster \<Rightarrow> cluster \<Rightarrow> bool" for rv name where
  written: "om_resourceVersion (metadata (watched_machine e)) = rv (Suc (length (cl_log s))) \<Longrightarrow>
    cluster_step rv name s (s\<lparr>cl_log := cl_log s @ [e]\<rparr>)"
| listed: "n \<le> length (cl_log s) \<Longrightarrow> fold put vms Map.empty = state_at (cl_log s) n \<Longrightarrow>
    reflector_step name (ListAnswer (Inl (vms, rv n))) (cl_reflector s, cl_informer s) = Some (r, st) \<Longrightarrow>
    cluster_step rv name s (s\<lparr>cl_reflector := r, cl_informer := st,
      cl_tainted := (cl_tainted s \<or> \<not> settles vms (cl_informer s))\<rparr>)"
| opened: "rf_phase (cl_reflector s) = Watching (rv n) \<Longrightarrow> n \<le> length (cl_log s) \<Longrightarrow>
    reflector_step name (WatchAnswer Opened) (cl_reflector s, cl_informer s) = Some (r, st) \<Longrightarrow>
    cluster_step rv name s (s\<lparr>cl_cursor := n, cl_reflector := r, cl_informer := st\<rparr>)"
| delivered: "cl_cursor s < length (cl_log s) \<Longrightarrow> e = cl_log s ! cl_cursor s \<Longrightarrow>
    reflector_step name (WatchEvent (event_type e) (MachineObject (watched_machine e)))
      (cl_reflector s, cl_informer s) = Some (r, st) \<Longrightarrow>
    cluster_step rv name s (s\<lparr>cl_cursor := Suc (cl_cursor s), cl_reflector := r, cl_informer := st\<rparr>)"
| other: "plain_input inp \<Longrightarrow>
    reflector_step name inp (cl_reflector s, cl_informer s) = Some (r, st) \<Longrightarrow>
    cluster_step rv name s (s\<lparr>cl_reflector := r, cl_informer := st\<rparr>)"
| popped: "processLoop_turn (cl_informer s) = Returns (st, ns) \<Longrightarrow>
    cluster_step rv name s (s\<lparr>cl_informer := st, cl_told := cl_told s @ ns\<rparr>)"

end
