(* ===== verification/Reflector_Runs.thy ===== *)
theory Reflector_Runs
  imports Reflector
begin

text \<open>
  What an informer holds, compared with the server that its reflector lists and watches. In every
  run, the cache and the queue together are the state of the server at the version that the reflector
  reports, unless a list was taken at a point where the queue does not let it settle; the cache alone
  is this state once the queue is drained, and an open watch leads it to the present state.
\<close>

section \<open>One step of the reflector\<close>

lemma settles_retarget:
  assumes "settles vms st"
  shows "retarget (Listed vms) st = fold put vms Map.empty"
proof
  fix key
  show "retarget (Listed vms) st key = fold put vms Map.empty key"
  proof (cases "fold put vms Map.empty key")
    case None
    then have "key \<notin> vm_key ` set vms" by (simp add: fold_put_keys)
    then have "target st key = None \<or> key \<in> dom (stored_in st)" using assms by (auto simp: settles_def)
    with None \<open>key \<notin> vm_key ` set vms\<close> show ?thesis using fold_put [of vms "target st" key] by auto
  next
    case (Some vm)
    then have "key \<in> vm_key ` set vms" using fold_put_keys [of vms key] by auto
    then show ?thesis using assms Some fold_put [of vms "target st" key] by (auto simp: settles_def)
  qed
qed

lemma settles_drained: "informer_inv st \<Longrightarrow> df_queue (in_fifo st) = [] \<Longrightarrow> settles vms st"
  using drained [of st] by (auto simp: settles_def)

lemma syncWith_ok:
  assumes "informer_inv st"
  obtains st' where "syncWith vms st = (None, st')" "informer_inv st'" "target st' = retarget (Listed vms) st"
proof -
  have inv: "fifo_inv (in_fifo st)" "keyed (map_of (ts_items (in_cache st)))"
    using assms by (simp_all add: informer_inv_def cache_inv_def)
  obtain f where "fifo_Replace (in_cache st) vms (in_fifo st) = (None, f)"
    by (rule fifo_Replace_ok [OF inv])
  then have "syncWith vms st = (None, snd (syncWith vms st))" by (simp add: syncWith_def)
  moreover have "informer_inv (snd (syncWith vms st)) \<and> target (snd (syncWith vms st)) = retarget (Listed vms) st"
    by (rule informer_step_ok [OF assms, of "Listed vms"]) simp
  ultimately show thesis using that by blast
qed

lemma resync_turn_ok:
  assumes "informer_inv st"
  obtains st' where "resync_turn should (r, st) = (r, st')" "informer_inv st'" "target st' = target st"
proof -
  have inv: "fifo_inv (in_fifo st)" "keyed (map_of (ts_items (in_cache st)))"
    using assms by (simp_all add: informer_inv_def cache_inv_def)
  obtain f where f: "fifo_Resync (in_cache st) (in_fifo st) = (None, f)"
    unfolding fifo_Resync_def by (rule sync_keys_ok [OF inv])
  have "informer_inv (st\<lparr>in_fifo := f\<rparr>) \<and> target (st\<lparr>in_fifo := f\<rparr>) = target st"
    by (rule informer_step_ok [OF assms, of Resynced]) (simp add: f)
  then show thesis
    using that [of st] that [of "st\<lparr>in_fifo := f\<rparr>"] assms f by (cases should) (simp_all add: resync_turn_def)
qed

fun loop_version :: "reflector_phase \<Rightarrow> string option" where
  "loop_version (Watching v) = Some v"
| "loop_version (Handling v n) = Some v"
| "loop_version _ = None"

fun is_handling :: "reflector_phase \<Rightarrow> bool" where
  "is_handling (Handling v n) = True"
| "is_handling _ = False"

text \<open>Failures, ends and timers leave the version and the targets as they are.\<close>

lemma plain_step:
  assumes "plain_input inp" "reflector_step name inp (r, st) = Some (r', st')" "informer_inv st"
  shows "informer_inv st' \<and> target st' = target st \<and> rf_lastSyncResourceVersion r' = rf_lastSyncResourceVersion r \<and>
    (loop_version (rf_phase r') = None \<or> loop_version (rf_phase r') = loop_version (rf_phase r)) \<and>
    (is_handling (rf_phase r') \<longrightarrow> is_handling (rf_phase r))"
proof (cases inp)
  case (ListAnswer answer)
  with assms show ?thesis
    by (cases answer) (auto simp: reflector_step_def ListAndWatch_list_def split: reflector_phase.splits)
next
  case (WatchAnswer answer)
  with assms show ?thesis
    by (cases answer) (auto simp: reflector_step_def split: reflector_phase.splits)
next
  case (WatchEvent ty obj)
  with assms show ?thesis
    by (cases obj) (auto simp: reflector_step_def watchHandler_event_def split: reflector_phase.splits if_splits)
next
  case (ResyncFires should)
  obtain st1 where st1: "resync_turn should (r, st) = (r, st1)" "informer_inv st1" "target st1 = target st"
    by (rule resync_turn_ok [OF assms(3)])
  then show ?thesis using assms ResyncFires by (auto simp: reflector_step_def split: if_splits)
qed (use assms in \<open>auto simp: reflector_step_def watchHandler_closed_def split: reflector_phase.splits option.splits if_splits\<close>)

lemma listed_step:
  assumes "reflector_step name (ListAnswer (Inl (vms, v))) (r, st) = Some (r', st')" "informer_inv st"
  shows "informer_inv st'" "target st' = retarget (Listed vms) st" "rf_phase r' = Watching v"
    "rf_lastSyncResourceVersion r' = v"
proof -
  obtain st1 where "syncWith vms st = (None, st1)" "informer_inv st1" "target st1 = retarget (Listed vms) st"
    by (rule syncWith_ok [OF assms(2)])
  then show "informer_inv st'" "target st' = retarget (Listed vms) st" "rf_phase r' = Watching v"
    "rf_lastSyncResourceVersion r' = v"
    using assms(1) by (auto simp: reflector_step_def ListAndWatch_list_def split: reflector_phase.splits)
qed

lemma opened_step:
  assumes "reflector_step name (WatchAnswer Opened) (r, st) = Some (r', st')" "rf_phase r = Watching v"
  shows "st' = st" "rf_phase r' = Handling v 0" "rf_lastSyncResourceVersion r' = rf_lastSyncResourceVersion r"
  using assms by (auto simp: reflector_step_def)

lemma delivered_step:
  assumes "reflector_step name (WatchEvent (event_type e) (MachineObject (watched_machine e))) (r, st) = Some (r', st')"
    "informer_inv st"
  shows "is_handling (rf_phase r)" "informer_inv st'" "target st' = watch_map e (target st)"
    "\<exists>k. rf_phase r' = Handling (om_resourceVersion (metadata (watched_machine e))) k"
    "rf_lastSyncResourceVersion r' = om_resourceVersion (metadata (watched_machine e))"
proof -
  obtain v k where phase: "rf_phase r = Handling v k"
    using assms(1) by (auto simp: reflector_step_def split: reflector_phase.splits)
  obtain f where f: "handle_watch e st = st\<lparr>in_fifo := f\<rparr>" "informer_inv (st\<lparr>in_fifo := f\<rparr>)"
    "target (st\<lparr>in_fifo := f\<rparr>) = watch_map e (target st)" "no_syncs (in_fifo st) \<longrightarrow> no_syncs f"
    by (rule handle_watch_ok [OF assms(2)])
  have "watchHandler_event (event_type e) (MachineObject (watched_machine e)) k (r, st) =
      (r\<lparr>rf_phase := Handling (om_resourceVersion (metadata (watched_machine e))) (Suc k),
         rf_lastSyncResourceVersion := om_resourceVersion (metadata (watched_machine e))\<rparr>, handle_watch e st)"
    by (cases e) (simp_all add: watchHandler_event_def Let_def)
  then show "is_handling (rf_phase r)" "informer_inv st'" "target st' = watch_map e (target st)"
    "\<exists>k. rf_phase r' = Handling (om_resourceVersion (metadata (watched_machine e))) k"
    "rf_lastSyncResourceVersion r' = om_resourceVersion (metadata (watched_machine e))"
    using assms(1) phase f by (auto simp: reflector_step_def)
qed

section \<open>The invariant\<close>

text \<open>Before the first list the informer is new; from then on it is at some version of the server.\<close>

definition unlisted :: "cluster \<Rightarrow> bool" where
  "unlisted s = (cl_informer s = new_informer \<and> loop_version (rf_phase (cl_reflector s)) = None \<and>
     rf_lastSyncResourceVersion (cl_reflector s) = [] \<and> \<not> cl_tainted s)"

definition at_version :: "(nat \<Rightarrow> string) \<Rightarrow> cluster \<Rightarrow> nat \<Rightarrow> bool" where
  "at_version rv s n =
     (n \<le> length (cl_log s) \<and> rf_lastSyncResourceVersion (cl_reflector s) = rv n \<and>
      (loop_version (rf_phase (cl_reflector s)) = None \<or> loop_version (rf_phase (cl_reflector s)) = Some (rv n)) \<and>
      (is_handling (rf_phase (cl_reflector s)) \<longrightarrow> cl_cursor s = n) \<and>
      (\<not> cl_tainted s \<longrightarrow> target (cl_informer s) = state_at (cl_log s) n))"

definition versioned :: "(nat \<Rightarrow> string) \<Rightarrow> watched_event list \<Rightarrow> bool" where
  "versioned rv log = (\<forall>k < length log. om_resourceVersion (metadata (watched_machine (log ! k))) = rv (Suc k))"

definition cluster_inv :: "(nat \<Rightarrow> string) \<Rightarrow> cluster \<Rightarrow> bool" where
  "cluster_inv rv s =
     (informer_inv (cl_informer s) \<and> versioned rv (cl_log s) \<and> (unlisted s \<or> (\<exists>n. at_version rv s n)))"

lemma cluster_inv_new: "cluster_inv rv new_cluster"
  by (simp add: cluster_inv_def new_cluster_def informer_inv_new versioned_def unlisted_def NewReflector_def)

lemma state_at_append: "n \<le> length log \<Longrightarrow> state_at (log @ es) n = state_at log n"
  by (simp add: state_at_def)

lemma state_at_Suc: "n < length log \<Longrightarrow> state_at log (Suc n) = watch_map (log ! n) (state_at log n)"
  by (simp add: state_at_def take_Suc_conv_app_nth)

lemma new_informer_rests: "processLoop_turn new_informer = Returns (new_informer, [])"
  "resync_turn should (r, new_informer) = (r, new_informer)"
  by (simp_all add: processLoop_turn_def fifo_Pop_def new_informer_def NewDeltaFIFO_def resync_turn_def fifo_Resync_def
      ts_ListKeys_def NewIndexer_def NewThreadSafeStore_def)

lemma plain_step_new:
  assumes "plain_input inp" "reflector_step name inp (r, new_informer) = Some (r', st')" "loop_version (rf_phase r) = None"
  shows "st' = new_informer"
  using assms
  by (cases inp) (auto simp: reflector_step_def ListAndWatch_list_def new_informer_rests
      split: reflector_phase.splits option.splits if_splits sum.splits)

lemma cluster_step_inv:
  assumes "inj rv" "cluster_step rv name s s'" "cluster_inv rv s"
  shows "cluster_inv rv s'"
  using assms(2,3)
proof (cases rule: cluster_step.cases)
  case (written e)
  then show ?thesis
    using assms(3) by (auto simp: cluster_inv_def unlisted_def at_version_def versioned_def nth_append state_at_append
        less_Suc_eq intro: le_SucI)
next
  case (listed n vms r st)
  have inv: "informer_inv (cl_informer s)" using assms(3) by (simp add: cluster_inv_def)
  note step = listed_step [OF listed(4) inv]
  have "at_version rv s' n"
    using step settles_retarget [of vms "cl_informer s"] listed by (auto simp: at_version_def)
  then show ?thesis using assms(3) step(1) listed(1) by (auto simp: cluster_inv_def)
next
  case (opened n r st)
  then show ?thesis
    using assms(1,3) opened_step [OF opened(4,2)] by (auto simp: cluster_inv_def unlisted_def at_version_def dest: injD)
next
  case (delivered e r st)
  have inv: "informer_inv (cl_informer s)" using assms(3) by (simp add: cluster_inv_def)
  note step = delivered_step [OF delivered(4) inv]
  have "\<not> unlisted s" using step(1) by (cases "rf_phase (cl_reflector s)") (auto simp: unlisted_def)
  then have n: "at_version rv s (cl_cursor s)" using assms(3) step(1) by (auto simp: cluster_inv_def at_version_def)
  have "om_resourceVersion (metadata (watched_machine e)) = rv (Suc (cl_cursor s))"
    using assms(3) delivered(2,3) by (simp add: cluster_inv_def versioned_def)
  then have "at_version rv s' (Suc (cl_cursor s))"
    using n step delivered by (auto simp: at_version_def state_at_Suc)
  then show ?thesis using assms(3) step(2) delivered(1) by (auto simp: cluster_inv_def)
next
  case (other inp r st)
  have inv: "informer_inv (cl_informer s)" using assms(3) by (simp add: cluster_inv_def)
  note step = plain_step [OF other(2,3) inv]
  have "unlisted s \<Longrightarrow> unlisted s'"
    using step plain_step_new [OF other(2)] other(1,3) by (auto simp: unlisted_def)
  moreover have "at_version rv s n \<Longrightarrow> at_version rv s' n" for n
    using step other(1) by (auto simp: at_version_def)
  ultimately show ?thesis using assms(3) step other(1) by (auto simp: cluster_inv_def)
next
  case (popped st ns)
  have inv: "informer_inv (cl_informer s)" using assms(3) by (simp add: cluster_inv_def)
  have step: "informer_inv st \<and> target st = target (cl_informer s)"
    by (rule popped_ok [OF inv]) (use popped(2) in simp)
  moreover have "unlisted s \<Longrightarrow> unlisted s'" using popped new_informer_rests(1) by (auto simp: unlisted_def)
  moreover have "at_version rv s n \<Longrightarrow> at_version rv s' n" for n
    using step popped(1) by (auto simp: at_version_def)
  ultimately show ?thesis using assms(3) popped(1) by (auto simp: cluster_inv_def)
qed

lemma cluster_reachable_inv:
  assumes "inj rv" "(cluster_step rv name)\<^sup>*\<^sup>* new_cluster s"
  shows "cluster_inv rv s"
  using assms(2) by (induction rule: rtranclp_induct) (auto intro: cluster_inv_new cluster_step_inv [OF assms(1)])

section \<open>Catching up\<close>

lemma handling_at_version:
  assumes "cluster_inv rv s" "is_handling (rf_phase (cl_reflector s))"
  shows "at_version rv s (cl_cursor s)" "cl_cursor s \<le> length (cl_log s)"
proof -
  have "\<not> unlisted s" using assms(2) by (cases "rf_phase (cl_reflector s)") (simp_all add: unlisted_def)
  then obtain n where "at_version rv s n" using assms(1) by (auto simp: cluster_inv_def)
  moreover from this have "cl_cursor s = n" "n \<le> length (cl_log s)" using assms(2) by (simp_all add: at_version_def)
  ultimately show "at_version rv s (cl_cursor s)" "cl_cursor s \<le> length (cl_log s)" by simp_all
qed

lemma deliver_all:
  assumes "inj rv" "cluster_inv rv s" "is_handling (rf_phase (cl_reflector s))"
  obtains s' where "(cluster_step rv name)\<^sup>*\<^sup>* s s'" "cluster_inv rv s'" "is_handling (rf_phase (cl_reflector s'))"
    "cl_cursor s' = length (cl_log s)" "cl_log s' = cl_log s" "cl_tainted s' = cl_tainted s"
  using assms(2,3)
proof (induction "length (cl_log s) - cl_cursor s" arbitrary: s thesis)
  case 0
  then show ?case using handling_at_version(2) [OF "0.prems"(2,3)] by (intro "0.prems"(1) [of s]) simp_all
next
  case (Suc d)
  let ?e = "cl_log s ! cl_cursor s"
  let ?inp = "WatchEvent (event_type ?e) (MachineObject (watched_machine ?e))"
  obtain v k where "rf_phase (cl_reflector s) = Handling v k"
    using Suc.prems(3) by (cases "rf_phase (cl_reflector s)") simp_all
  then obtain r st where step: "reflector_step name ?inp (cl_reflector s, cl_informer s) = Some (r, st)"
    by (cases "watchHandler_event (event_type ?e) (MachineObject (watched_machine ?e)) k (cl_reflector s, cl_informer s)")
      (simp add: reflector_step_def)
  let ?s = "s\<lparr>cl_cursor := Suc (cl_cursor s), cl_reflector := r, cl_informer := st\<rparr>"
  have run: "cluster_step rv name s ?s"
    using Suc.hyps(2) step by (intro cluster_step.delivered [OF _ refl]) simp_all
  have inv: "cluster_inv rv ?s" by (rule cluster_step_inv [OF assms(1) run Suc.prems(2)])
  have "informer_inv (cl_informer s)" using Suc.prems(2) by (simp add: cluster_inv_def)
  then have handling: "is_handling (rf_phase (cl_reflector ?s))" using delivered_step(4) [OF step] by auto
  have d: "d = length (cl_log ?s) - cl_cursor ?s" using Suc.hyps(2) by simp
  obtain s' where s': "(cluster_step rv name)\<^sup>*\<^sup>* ?s s'" "cluster_inv rv s'" "is_handling (rf_phase (cl_reflector s'))"
    "cl_cursor s' = length (cl_log ?s)" "cl_log s' = cl_log ?s" "cl_tainted s' = cl_tainted ?s"
    by (rule Suc.hyps(1) [OF d _ inv handling])
  show ?case
    by (rule Suc.prems(1) [OF converse_rtranclp_into_rtranclp [of "cluster_step rv name", OF run s'(1)]]) (use s' in simp_all)
qed

lemma pop_all:
  assumes "informer_inv (cl_informer s)"
  obtains st ns where "(cluster_step rv name)\<^sup>*\<^sup>* s (s\<lparr>cl_informer := st, cl_told := cl_told s @ ns\<rparr>)" "informer_inv st"
    "df_queue (in_fifo st) = []" "target st = target (cl_informer s)"
  using assms
proof (induction "length (df_queue (in_fifo (cl_informer s)))" arbitrary: s thesis)
  case 0
  then show ?case by (intro "0.prems"(1) [where st = "cl_informer s" and ns = "[]"]) simp_all
next
  case (Suc n)
  obtain st ns where st: "informer_step Popped (cl_informer s) = Returns (st, ns)" "informer_inv st"
    "target st = target (cl_informer s)" "tells (cl_informer s) st ns"
    "no_syncs (in_fifo (cl_informer s)) \<longrightarrow> no_syncs (in_fifo st)"
    "df_queue (in_fifo st) = tl (df_queue (in_fifo (cl_informer s)))"
    by (rule popped_ok [OF Suc.prems(2)])
  let ?s = "s\<lparr>cl_informer := st, cl_told := cl_told s @ ns\<rparr>"
  have run: "cluster_step rv name s ?s" using st(1) by (intro cluster_step.popped) simp
  have inv: "informer_inv (cl_informer ?s)" using st(2) by simp
  have n: "n = length (df_queue (in_fifo (cl_informer ?s)))" using Suc.hyps(2) st(6) by simp
  obtain st' ns' where st': "(cluster_step rv name)\<^sup>*\<^sup>* ?s (?s\<lparr>cl_informer := st', cl_told := cl_told ?s @ ns'\<rparr>)" "informer_inv st'"
    "df_queue (in_fifo st') = []" "target st' = target (cl_informer ?s)"
    by (rule Suc.hyps(1) [OF n _ inv])
  have "(cluster_step rv name)\<^sup>*\<^sup>* s (s\<lparr>cl_informer := st', cl_told := cl_told s @ ns @ ns'\<rparr>)"
    using converse_rtranclp_into_rtranclp [of "cluster_step rv name", OF run st'(1)] by simp
  then show ?case by (rule Suc.prems(1)) (use st' st(3) in simp_all)
qed

lemma at_version_drained:
  assumes "cluster_inv rv s" "at_version rv s n" "\<not> cl_tainted s" "df_queue (in_fifo (cl_informer s)) = []"
  shows "stored_in (cl_informer s) = state_at (cl_log s) n"
  using assms drained(1) [of "cl_informer s"] by (simp add: cluster_inv_def at_version_def)

lemma catch_up:
  assumes "inj rv" "cluster_inv rv s" "is_handling (rf_phase (cl_reflector s))" "\<not> cl_tainted s"
  obtains s' where "(cluster_step rv name)\<^sup>*\<^sup>* s s'" "cl_log s' = cl_log s" "\<not> cl_tainted s'"
    "df_queue (in_fifo (cl_informer s')) = []" "rf_lastSyncResourceVersion (cl_reflector s') = rv (length (cl_log s))"
    "stored_in (cl_informer s') = state_at (cl_log s) (length (cl_log s))"
proof -
  obtain s1 where s1: "(cluster_step rv name)\<^sup>*\<^sup>* s s1" "cluster_inv rv s1" "is_handling (rf_phase (cl_reflector s1))"
    "cl_cursor s1 = length (cl_log s)" "cl_log s1 = cl_log s" "cl_tainted s1 = cl_tainted s"
    by (rule deliver_all [OF assms(1-3)])
  have v: "at_version rv s1 (length (cl_log s))" using handling_at_version(1) [OF s1(2,3)] s1(4) by simp
  have inv: "informer_inv (cl_informer s1)" using s1(2) by (simp add: cluster_inv_def)
  obtain st ns where st: "(cluster_step rv name)\<^sup>*\<^sup>* s1 (s1\<lparr>cl_informer := st, cl_told := cl_told s1 @ ns\<rparr>)" "informer_inv st"
    "df_queue (in_fifo st) = []" "target st = target (cl_informer s1)"
    by (rule pop_all [OF inv])
  show thesis
  proof (rule that [of "s1\<lparr>cl_informer := st, cl_told := cl_told s1 @ ns\<rparr>"])
    show "(cluster_step rv name)\<^sup>*\<^sup>* s (s1\<lparr>cl_informer := st, cl_told := cl_told s1 @ ns\<rparr>)" by (rule rtranclp_trans [OF s1(1) st(1)])
  qed (use s1 st v assms(4) drained(1) [OF st(2,3)] in \<open>simp_all add: at_version_def\<close>)
qed

section \<open>The informer in a run of the cluster\<close>

lemma informer_run_append:
  "informer_run (es @ es') st =
     (case informer_run es st of
        Panics m \<Rightarrow> Panics m
      | Returns (st', ns) \<Rightarrow>
          (case informer_run es' st' of Panics m \<Rightarrow> Panics m | Returns (st'', ns') \<Rightarrow> Returns (st'', ns @ ns')))"
  by (induction es arbitrary: st) (auto split: panicky.splits prod.splits)

text \<open>An input of the reflector does one thing to the informer, or nothing.\<close>

lemma reflector_step_informs:
  assumes "reflector_step name inp (r, st) = Some (r', st')"
  obtains "st' = st" | e where "informer_step e st = Returns (st', [])"
proof (cases inp)
  case (ListAnswer answer)
  show thesis
  proof (cases answer)
    case (Inl x)
    then have "st' = snd (syncWith (fst x) st)"
      using assms ListAnswer
      by (auto simp: reflector_step_def ListAndWatch_list_def split: reflector_phase.splits prod.splits option.splits)
    then show thesis using that(2) [of "Listed (fst x)"] by simp
  next
    case (Inr err)
    then show thesis
      using assms ListAnswer that(1) by (auto simp: reflector_step_def ListAndWatch_list_def split: reflector_phase.splits)
  qed
next
  case (WatchEvent ty obj)
  with assms show thesis
    using that(1) that(2) [of "Watched e" for e]
    by (cases obj) (auto simp: reflector_step_def watchHandler_event_def Let_def
        split: reflector_phase.splits if_splits simp del: handle_watch.simps)
next
  case (ResyncFires should)
  with assms show thesis
    using that(1) that(2) [of Resynced] by (auto simp: reflector_step_def resync_turn_def split: if_splits prod.splits)
qed (use assms that(1) in \<open>auto simp: reflector_step_def split: reflector_phase.splits option.splits\<close>)

lemma cluster_step_informs:
  assumes "cluster_step rv name s s'"
  shows "\<exists>es ns. informer_run es (cl_informer s) = Returns (cl_informer s', ns) \<and> cl_told s' = cl_told s @ ns"
proof -
  have quiet: "\<exists>es. informer_run es (cl_informer s) = Returns (st, [])"
    if "reflector_step name inp (cl_reflector s, cl_informer s) = Some (r, st)" for inp r st
  proof (rule reflector_step_informs [OF that])
    assume "st = cl_informer s" then show ?thesis by (intro exI [of _ "[]"]) simp
  next
    fix e assume "informer_step e (cl_informer s) = Returns (st, [])"
    then show ?thesis by (intro exI [of _ "[e]"]) (simp del: informer_step.simps)
  qed
  show ?thesis
    using assms
  proof (cases rule: cluster_step.cases)
    case (written e)
    then show ?thesis by (intro exI [of _ "[]"]) simp
  next
    case (popped st ns)
    then show ?thesis by (intro exI [of _ "[Popped]"]) simp
  qed (use quiet in \<open>fastforce+\<close>)
qed

lemma cluster_informs:
  assumes "(cluster_step rv name)\<^sup>*\<^sup>* s s'"
  shows "\<exists>es ns. informer_run es (cl_informer s) = Returns (cl_informer s', ns) \<and> cl_told s' = cl_told s @ ns"
  using assms
proof (induction rule: rtranclp_induct)
  case base
  then show ?case by (intro exI [of _ "[]"]) simp
next
  case (step s1 s2)
  then obtain es ns es' ns' where "informer_run es (cl_informer s) = Returns (cl_informer s1, ns)" "cl_told s1 = cl_told s @ ns"
    "informer_run es' (cl_informer s1) = Returns (cl_informer s2, ns')" "cl_told s2 = cl_told s1 @ ns'"
    using cluster_step_informs by blast
  then show ?case by (intro exI [of _ "es @ es'"] exI [of _ "ns @ ns'"]) (simp add: informer_run_append)
qed

section \<open>The properties\<close>

text \<open>
  C35. In every run of an informer over a server that lists versions of its past and watches from them
  in order, whatever fails, ends or is repeated, a drained queue means that the cache is exactly the
  state of the server at the version that the reflector reports, provided that each list was taken
  at a point where the queue lets it settle.
\<close>
theorem cache_at_reported_version:
  assumes "inj rv" "(cluster_step rv name)\<^sup>*\<^sup>* new_cluster s" "\<not> cl_tainted s"
    and "df_queue (in_fifo (cl_informer s)) = []" "rf_lastSyncResourceVersion (cl_reflector s) \<noteq> []"
  shows "\<exists>n \<le> length (cl_log s). rf_lastSyncResourceVersion (cl_reflector s) = rv n \<and>
    map_of (ts_items (in_cache (cl_informer s))) = state_at (cl_log s) n"
proof -
  have inv: "cluster_inv rv s" using assms(1,2) by (rule cluster_reachable_inv)
  have "\<not> unlisted s" using assms(5) by (simp add: unlisted_def)
  then obtain n where n: "at_version rv s n" using inv by (auto simp: cluster_inv_def)
  from at_version_drained [OF inv n assms(3,4)] n show ?thesis by (auto simp: at_version_def)
qed



text \<open>A run in which a machine is created after the list.\<close>

definition sample_rv :: "nat \<Rightarrow> string" where
  "sample_rv n = replicate (Suc n) (CHR ''1'')"

definition versioned_vm :: virtual_machine where
  "versioned_vm = live_vm\<lparr>metadata := (metadata live_vm)\<lparr>om_resourceVersion := sample_rv 1\<rparr>\<rparr>"

lemma sample_rv_inj: "inj sample_rv"
  by (rule injI) (metis length_replicate nat.inject sample_rv_def)

lemma sample_run:
  obtains s where "(cluster_step sample_rv ''r'')\<^sup>*\<^sup>* new_cluster s" "rf_phase (cl_reflector s) = Handling (sample_rv 0) 0"
    "\<not> cl_tainted s" "cl_log s = [WatchAdded versioned_vm]"
proof -
  let ?step = "cluster_step sample_rv ''r''"
  obtain st where st: "syncWith [] new_informer = (None, st)" by (rule syncWith_ok [OF informer_inv_new])
  let ?r = "NewReflector\<lparr>rf_lastSyncResourceVersion := sample_rv 0, rf_phase := Watching (sample_rv 0)\<rparr>"
  let ?s1 = "new_cluster\<lparr>cl_reflector := ?r, cl_informer := st\<rparr>"
  let ?s2 = "?s1\<lparr>cl_reflector := ?r\<lparr>rf_phase := Handling (sample_rv 0) 0\<rparr>\<rparr>"
  have clean: "settles [] new_informer" by (rule settles_drained [OF informer_inv_new new_informer_drained(2)])
  have first: "reflector_step ''r'' (ListAnswer (Inl ([], sample_rv 0))) (cl_reflector new_cluster, cl_informer new_cluster) =
      Some (?r, st)"
    using st by (simp add: reflector_step_def ListAndWatch_list_def new_cluster_def NewReflector_def)
  have "?step new_cluster (new_cluster\<lparr>cl_reflector := ?r, cl_informer := st,
      cl_tainted := (cl_tainted new_cluster \<or> \<not> settles [] (cl_informer new_cluster))\<rparr>)"
    by (rule cluster_step.listed [where n = 0 and rv = sample_rv, OF _ _ first]) (simp_all add: new_cluster_def state_at_def)
  then have "?step new_cluster ?s1" using clean by (simp add: new_cluster_def)
  moreover have "?step ?s1 (?s1\<lparr>cl_cursor := 0, cl_reflector := ?r\<lparr>rf_phase := Handling (sample_rv 0) 0\<rparr>, cl_informer := st\<rparr>)"
    by (rule cluster_step.opened) (simp_all add: reflector_step_def)
  then have "?step ?s1 ?s2" by (simp add: new_cluster_def)
  moreover have "?step ?s2 (?s2\<lparr>cl_log := cl_log ?s2 @ [WatchAdded versioned_vm]\<rparr>)"
    by (rule cluster_step.written) (simp add: versioned_vm_def new_cluster_def)
  ultimately have "?step\<^sup>*\<^sup>* new_cluster (?s2\<lparr>cl_log := cl_log ?s2 @ [WatchAdded versioned_vm]\<rparr>)"
    by (meson rtranclp.rtrancl_into_rtrancl rtranclp.rtrancl_refl)
  then show thesis by (rule that) (simp_all add: new_cluster_def)
qed

lemma sample_state: "state_at [WatchAdded versioned_vm] (length [WatchAdded versioned_vm]) = [vm_key versioned_vm \<mapsto> versioned_vm]"
  by (simp add: state_at_def put_def)

theorem cache_at_reported_version_witness:
  "\<exists>s n. (cluster_step sample_rv ''r'')\<^sup>*\<^sup>* new_cluster s \<and> cl_log s = [WatchAdded versioned_vm] \<and>
     rf_lastSyncResourceVersion (cl_reflector s) = sample_rv n \<and> n = 1 \<and>
     map_of (ts_items (in_cache (cl_informer s))) = state_at [WatchAdded versioned_vm] n"
proof (rule sample_run)
  fix s
  assume s: "(cluster_step sample_rv ''r'')\<^sup>*\<^sup>* new_cluster s" "rf_phase (cl_reflector s) = Handling (sample_rv 0) 0"
    "\<not> cl_tainted s" "cl_log s = [WatchAdded versioned_vm]"
  have handling: "is_handling (rf_phase (cl_reflector s))" using s(2) by simp
  show ?thesis
  proof (rule catch_up [OF sample_rv_inj cluster_reachable_inv [OF sample_rv_inj s(1)] handling s(3)])
    fix s'
    assume s': "(cluster_step sample_rv ''r'')\<^sup>*\<^sup>* s s'" "cl_log s' = cl_log s" "\<not> cl_tainted s'"
      "df_queue (in_fifo (cl_informer s')) = []"
      "rf_lastSyncResourceVersion (cl_reflector s') = sample_rv (length (cl_log s))"
    have reached: "(cluster_step sample_rv ''r'')\<^sup>*\<^sup>* new_cluster s'" by (rule rtranclp_trans [OF s(1) s'(1)])
    have "rf_lastSyncResourceVersion (cl_reflector s') \<noteq> []" using s'(5) by (simp add: sample_rv_def)
    from cache_at_reported_version [OF sample_rv_inj reached s'(3,4) this] obtain n where
      "rf_lastSyncResourceVersion (cl_reflector s') = sample_rv n"
      "map_of (ts_items (in_cache (cl_informer s'))) = state_at (cl_log s') n" by blast
    moreover from this have "n = 1" using s'(5) s(4) sample_rv_inj by (simp add: inj_eq)
    ultimately show ?thesis using reached s(4) s'(2) by auto
  qed
qed



text \<open>
  A list that is taken while a new machine waits on the queue does not remove it: when the server has
  deleted it in the meantime, it comes into the cache and stays there until the next list.
\<close>
theorem relist_keeps_queued:
  assumes "informer_run before new_informer = Returns (st, ns)" "stored_in st key = None" "target st key = Some vm"
    "key \<notin> vm_key ` set vms"
  shows "\<exists>st1 ns1 st2 ns2. informer_run [Listed vms] st = Returns (st1, ns1) \<and>
    informer_run (replicate (length (df_queue (in_fifo st1))) Popped) st1 = Returns (st2, ns2) \<and>
    df_queue (in_fifo st2) = [] \<and> map_of (ts_items (in_cache st2)) key = Some vm"
proof -
  have inv: "informer_inv st" using assms(1) by (rule reachable_ok)
  obtain st1 where st1: "syncWith vms st = (None, st1)" "informer_inv st1" "target st1 = retarget (Listed vms) st"
    by (rule syncWith_ok [OF inv])
  obtain st2 ns2 where st2: "informer_run (replicate (length (df_queue (in_fifo st1))) Popped) st1 = Returns (st2, ns2)"
    "informer_inv st2" "df_queue (in_fifo st2) = []" "stored_in st2 = target st1"
    by (rule drain_ok [OF st1(2)])
  have "\<not> willObjectBeDeletedLocked key (in_fifo st)"
    using assms(3) inv by (auto simp: target_def heading_def informer_inv_def will_be_deleted)
  moreover have "fold put vms Map.empty key = None" using assms(4) fold_put_keys [of vms key] by simp
  ultimately have "stored_in st2 key = Some vm"
    using st2(4) st1(3) assms(2,3) fold_put [of vms "target st" key] by auto
  moreover have "informer_run [Listed vms] st = Returns (st1, [])" using st1(1) by simp
  ultimately show ?thesis using st2 by blast
qed

lemma addition_waits:
  "\<exists>st ns. informer_run [Watched (WatchAdded vm)] new_informer = Returns (st, ns) \<and>
     stored_in st (vm_key vm) = None \<and> target st (vm_key vm) = Some vm"
proof (rule watched_run [OF informer_inv_new, of "[Watched (WatchAdded vm)]"])
  fix st ns
  assume run: "informer_run [Watched (WatchAdded vm)] new_informer = Returns (st, ns)"
    "target st = fold watched [Watched (WatchAdded vm)] (target new_informer)"
  have "in_cache st = in_cache new_informer" using run(1) by (auto simp: new_informer_def)
  then have "stored_in st (vm_key vm) = None" by (simp add: new_informer_def NewIndexer_def NewThreadSafeStore_def)
  moreover have "target st (vm_key vm) = Some vm" using run(2) by (simp add: put_def)
  ultimately show ?thesis using run(1) by blast
qed simp

end
