(* ===== verification/Informers.thy ===== *)
theory Informers
  imports Typed_Client Listers Informer_Events
begin

text \<open>
  The shared informer factory of \<open>pkg/client/informers/externalversions\<close>: \<open>factory.go\<close> and \<open>generic.go\<close>,
  the accessors of the group and its version, and the informer of virtual machines. An informer is
  created on the heap and known by its address; a goroutine that runs one is an entry of \<open>running\<close>.
  Changes of an informer that runs are in \<open>Informer_Events\<close>. Types are known by their names.
\<close>

section \<open>Shared informers\<close>

type_synonym tweak_list_options = "(list_options \<Rightarrow> list_options) option"

record 'e list_watch =
  ListFunc :: "list_options \<Rightarrow> 'e wire \<Rightarrow> (vm_list \<times> go_error option) \<times> 'e wire"
  WatchFunc :: "list_options \<Rightarrow> 'e wire \<Rightarrow> (watch_start + go_error) \<times> 'e wire"

record 'h processor_listener =
  pl_handler :: 'h
  pl_requestedResyncPeriod :: int
  pl_resyncPeriod :: int

record ('e, 'h) shared_informer =
  si_listerWatcher :: "'e list_watch"
  si_objectType :: string
  si_resyncCheckPeriod :: int
  si_defaultResyncPeriod :: int
  si_indexer :: vm_cache
  si_listeners :: "'h processor_listener list"

definition NewSharedIndexInformer ::
    "'e list_watch \<Rightarrow> string \<Rightarrow> int \<Rightarrow> (string \<times> virtual_machine index_func) list \<Rightarrow> ('e, 'h) shared_informer" where
  "NewSharedIndexInformer lw objType resync indexers =
     \<lparr>si_listerWatcher = lw, si_objectType = objType, si_resyncCheckPeriod = resync,
      si_defaultResyncPeriod = resync, si_indexer = NewIndexer indexers, si_listeners = []\<rparr>"

text \<open>
  Adding a handler, in nanoseconds: the period at which all listeners are checked is lowered to what a
  handler asks for, unless the informer has been started. A handler that joins a started informer gets
  the machines of the cache as additions, here the second result.
\<close>

definition determineResyncPeriod :: "int \<Rightarrow> int \<Rightarrow> int" where
  "determineResyncPeriod desired check =
     (if desired = 0 then desired
      else if check = 0 then 0
      else if desired < check then check
      else desired)"

definition minimumResyncPeriod :: int where "minimumResyncPeriod = 1000000000"

definition resyncCheckPeriodChanged :: "int \<Rightarrow> 'h processor_listener list \<Rightarrow> 'h processor_listener list" where
  "resyncCheckPeriodChanged period ls =
     map (\<lambda>l. l\<lparr>pl_resyncPeriod := determineResyncPeriod (pl_requestedResyncPeriod l) period\<rparr>) ls"

definition AddEventHandlerWithResyncPeriod ::
    "bool \<Rightarrow> 'h \<Rightarrow> int \<Rightarrow> ('e, 'h) shared_informer \<Rightarrow> ('e, 'h) shared_informer \<times> notification list" where
  "AddEventHandlerWithResyncPeriod started handler resyncPeriod s =
     (let requested = (if resyncPeriod > 0 \<and> resyncPeriod < minimumResyncPeriod then minimumResyncPeriod else resyncPeriod);
          smaller = (requested > 0 \<and> requested < si_resyncCheckPeriod s);
          period = (if smaller \<and> started then si_resyncCheckPeriod s else requested);
          s' = (if smaller \<and> \<not> started
                then s\<lparr>si_resyncCheckPeriod := requested,
                  si_listeners := resyncCheckPeriodChanged requested (si_listeners s)\<rparr>
                else s);
          listener = \<lparr>pl_handler = handler, pl_requestedResyncPeriod = period,
            pl_resyncPeriod = determineResyncPeriod period (si_resyncCheckPeriod s')\<rparr>
      in (s'\<lparr>si_listeners := si_listeners s' @ [listener]\<rparr>,
          if started then map addNotification (ts_List (si_indexer s)) else []))"

definition AddEventHandler ::
    "bool \<Rightarrow> 'h \<Rightarrow> ('e, 'h) shared_informer \<Rightarrow> ('e, 'h) shared_informer \<times> notification list" where
  "AddEventHandler started handler s =
     AddEventHandlerWithResyncPeriod started handler (si_defaultResyncPeriod s) s"

section \<open>The factory\<close>

record ('e, 'h) sharedInformerFactory =
  f_client :: clientset
  f_namespace :: string
  f_tweakListOptions :: tweak_list_options
  f_defaultResync :: int
  f_informers :: "(string \<times> nat) list"
  f_startedInformers :: "string list"
  heap :: "('e, 'h) shared_informer list"
  running :: "nat list"

definition NewFilteredSharedInformerFactory ::
    "clientset \<Rightarrow> int \<Rightarrow> string \<Rightarrow> tweak_list_options \<Rightarrow> ('e, 'h) sharedInformerFactory" where
  "NewFilteredSharedInformerFactory client defaultResync namespace tweak =
     \<lparr>f_client = client, f_namespace = namespace, f_tweakListOptions = tweak, f_defaultResync = defaultResync,
      f_informers = [], f_startedInformers = [], heap = [], running = []\<rparr>"

definition NewSharedInformerFactory :: "clientset \<Rightarrow> int \<Rightarrow> ('e, 'h) sharedInformerFactory" where
  "NewSharedInformerFactory client defaultResync =
     NewFilteredSharedInformerFactory client defaultResync NamespaceAll None"

text \<open>The loop of \<open>Start\<close> over the requested informers, in some order.\<close>

fun start_each :: "(string \<times> nat) list \<Rightarrow> ('e, 'h) sharedInformerFactory \<Rightarrow> ('e, 'h) sharedInformerFactory" where
  "start_each [] f = f"
| "start_each ((informerType, informer) # rest) f =
     start_each rest
       (if informerType \<notin> set (f_startedInformers f) then
          f\<lparr>running := running f @ [informer], f_startedInformers := informerType # f_startedInformers f\<rparr>
        else f)"

definition factory_Start :: "('e, 'h) sharedInformerFactory \<Rightarrow> ('e, 'h) sharedInformerFactory" where
  "factory_Start f = start_each (f_informers f) f"

text \<open>
  \<open>WaitForCacheSync\<close> waits for the started informers, one after the other; whether the wait for an
  informer ended with its cache synced is a parameter.
\<close>

definition factory_WaitForCacheSync :: "(nat \<Rightarrow> bool) \<Rightarrow> ('e, 'h) sharedInformerFactory \<Rightarrow> (string \<times> bool) list" where
  "factory_WaitForCacheSync waitFor f =
     (let informers = filter (\<lambda>(informerType, informer). informerType \<in> set (f_startedInformers f)) (f_informers f)
      in map (\<lambda>(informType, informer). (informType, waitFor informer)) informers)"

definition InformerFor ::
    "string \<Rightarrow> (clientset \<Rightarrow> int \<Rightarrow> ('e, 'h) shared_informer) \<Rightarrow> ('e, 'h) sharedInformerFactory \<Rightarrow>
     nat \<times> ('e, 'h) sharedInformerFactory" where
  "InformerFor informerType newFunc f =
     (case map_of (f_informers f) informerType of
        Some informer \<Rightarrow> (informer, f)
      | None \<Rightarrow>
          let informer = length (heap f)
          in (informer, f\<lparr>heap := heap f @ [newFunc (f_client f) (f_defaultResync f)],
                f_informers := f_informers f @ [(informerType, informer)]\<rparr>))"

section \<open>The informer of virtual machines\<close>

record virtualMachineInformer =
  vi_namespace :: string
  vi_tweakListOptions :: tweak_list_options

record informer_version =
  ver_namespace :: string
  ver_tweakListOptions :: tweak_list_options

record informer_group =
  grp_namespace :: string
  grp_tweakListOptions :: tweak_list_options

definition ci_New :: "string \<Rightarrow> tweak_list_options \<Rightarrow> informer_group" where
  "ci_New namespace tweak = \<lparr>grp_namespace = namespace, grp_tweakListOptions = tweak\<rparr>"

definition v1alpha1_New :: "string \<Rightarrow> tweak_list_options \<Rightarrow> informer_version" where
  "v1alpha1_New namespace tweak = \<lparr>ver_namespace = namespace, ver_tweakListOptions = tweak\<rparr>"

definition factory_Ci :: "('e, 'h) sharedInformerFactory \<Rightarrow> informer_group" where
  "factory_Ci f = ci_New (f_namespace f) (f_tweakListOptions f)"

definition group_V1alpha1 :: "informer_group \<Rightarrow> informer_version" where
  "group_V1alpha1 g = v1alpha1_New (grp_namespace g) (grp_tweakListOptions g)"

definition version_VirtualMachines :: "informer_version \<Rightarrow> virtualMachineInformer" where
  "version_VirtualMachines v = \<lparr>vi_namespace = ver_namespace v, vi_tweakListOptions = ver_tweakListOptions v\<rparr>"

definition tweaked :: "tweak_list_options \<Rightarrow> list_options \<Rightarrow> list_options" where
  "tweaked tweak options = (case tweak of None \<Rightarrow> options | Some f \<Rightarrow> f options)"

definition vm_type :: string where
  "vm_type = ''*v1alpha1.VirtualMachine''"

definition NewFilteredVirtualMachineInformer ::
    "'d vm_codec \<Rightarrow> 'e transport \<Rightarrow> clientset \<Rightarrow> string \<Rightarrow> int \<Rightarrow> (string \<times> virtual_machine index_func) list \<Rightarrow>
     tweak_list_options \<Rightarrow> ('e, 'h) shared_informer" where
  "NewFilteredVirtualMachineInformer md t client namespace resyncPeriod indexers tweak =
     NewSharedIndexInformer
       \<lparr>ListFunc = (\<lambda>options. vmc_List md t (VirtualMachines (CiV1alpha1 client) namespace) (tweaked tweak options)),
        WatchFunc = (\<lambda>options. vmc_Watch md t (VirtualMachines (CiV1alpha1 client) namespace) (tweaked tweak options))\<rparr>
       vm_type resyncPeriod indexers"

definition NewVirtualMachineInformer ::
    "'d vm_codec \<Rightarrow> 'e transport \<Rightarrow> clientset \<Rightarrow> string \<Rightarrow> int \<Rightarrow> (string \<times> virtual_machine index_func) list \<Rightarrow>
     ('e, 'h) shared_informer" where
  "NewVirtualMachineInformer md t client namespace resyncPeriod indexers =
     NewFilteredVirtualMachineInformer md t client namespace resyncPeriod indexers None"

definition defaultInformer ::
    "'d vm_codec \<Rightarrow> 'e transport \<Rightarrow> virtualMachineInformer \<Rightarrow> clientset \<Rightarrow> int \<Rightarrow> ('e, 'h) shared_informer" where
  "defaultInformer md t v client resyncPeriod =
     NewFilteredVirtualMachineInformer md t client (vi_namespace v) resyncPeriod namespace_indexers (vi_tweakListOptions v)"

definition vmi_Informer ::
    "'d vm_codec \<Rightarrow> 'e transport \<Rightarrow> virtualMachineInformer \<Rightarrow> ('e, 'h) sharedInformerFactory \<Rightarrow>
     nat \<times> ('e, 'h) sharedInformerFactory" where
  "vmi_Informer md t v f = InformerFor vm_type (defaultInformer md t v) f"

text \<open>
  A lister holds on to the indexer of its informer, so it is known by the address of the informer;
  \<open>lister_of\<close> is the lister over the present state of this indexer.
\<close>

definition vmi_Lister ::
    "'d vm_codec \<Rightarrow> 'e transport \<Rightarrow> virtualMachineInformer \<Rightarrow> ('e, 'h) sharedInformerFactory \<Rightarrow>
     nat \<times> ('e, 'h) sharedInformerFactory" where
  "vmi_Lister md t v f = vmi_Informer md t v f"

definition lister_of :: "nat \<Rightarrow> ('e, 'h) sharedInformerFactory \<Rightarrow> virtualMachineLister" where
  "lister_of informer f = NewVirtualMachineLister (cache_indexer (si_indexer (heap f ! informer)))"

section \<open>The informer of the controller\<close>

text \<open>What \<open>New\<close> of \<open>pkg/controller/controller.go\<close> does with its informer, before any informer runs.\<close>

record informer_uses =
  u_lister :: nat
  u_synced :: nat
  u_handled :: nat

definition New_informer ::
    "'d vm_codec \<Rightarrow> 'e transport \<Rightarrow> virtualMachineInformer \<Rightarrow> 'h \<Rightarrow> ('e, 'h) sharedInformerFactory \<Rightarrow>
     informer_uses \<times> ('e, 'h) sharedInformerFactory" where
  "New_informer md t v handlers f =
     (let (lister, f1) = vmi_Lister md t v f;
          (synced, f2) = vmi_Informer md t v f1;
          (handled, f3) = vmi_Informer md t v f2;
          started = handled \<in> set (running f3)
      in (\<lparr>u_lister = lister, u_synced = synced, u_handled = handled\<rparr>,
          f3\<lparr>heap := (heap f3)[handled := fst (AddEventHandler started handlers (heap f3 ! handled))]\<rparr>))"

definition resync :: int where "resync = 30 * 1000000000"

text \<open>The steps of \<open>main\<close> that concern informers.\<close>

definition main_informers ::
    "'d vm_codec \<Rightarrow> 'e transport \<Rightarrow> clientset \<Rightarrow> 'h \<Rightarrow> informer_uses \<times> ('e, 'h) sharedInformerFactory" where
  "main_informers md t vmClient handlers =
     (let f = NewSharedInformerFactory vmClient resync;
          (uses, f') = New_informer md t (version_VirtualMachines (group_V1alpha1 (factory_Ci f))) handlers f
      in (uses, factory_Start f'))"

section \<open>Informers of a resource\<close>

record group_version_resource =
  gvr_Group :: string
  gvr_Version :: string
  gvr_Resource :: string

definition WithResource :: "group_version \<Rightarrow> string \<Rightarrow> group_version_resource" where
  "WithResource gv resource = \<lparr>gvr_Group = gv_Group gv, gvr_Version = gv_Version gv, gvr_Resource = resource\<rparr>"

record genericInformer =
  gi_informer :: nat
  gi_resource :: string

text \<open>\<open>%v\<close> prints the struct, since \<open>String\<close> belongs to the pointer.\<close>

definition fmt_gvr :: "group_version_resource \<Rightarrow> string" where
  "fmt_gvr r = ''{'' @ gvr_Group r @ '' '' @ gvr_Version r @ '' '' @ gvr_Resource r @ ''}''"

definition ForResource ::
    "'d vm_codec \<Rightarrow> 'e transport \<Rightarrow> group_version_resource \<Rightarrow> ('e, 'h) sharedInformerFactory \<Rightarrow>
     (genericInformer + go_error) \<times> ('e, 'h) sharedInformerFactory" where
  "ForResource md t resource f =
     (if resource = WithResource SchemeGroupVersion ''virtualmachines'' then
        (case vmi_Informer md t (version_VirtualMachines (group_V1alpha1 (factory_Ci f))) f of
           (informer, f') \<Rightarrow>
             (Inl \<lparr>gi_informer = informer, gi_resource = GroupResource_String (gvr_Group resource) (gvr_Resource resource)\<rparr>, f'))
      else (Inr (ErrorString (''no informer found for '' @ fmt_gvr resource)), f))"

definition generic_Informer :: "genericInformer \<Rightarrow> nat" where
  "generic_Informer g = gi_informer g"

record genericLister =
  gl_indexer :: indexer
  gl_resource :: string

definition generic_Lister :: "genericInformer \<Rightarrow> ('e, 'h) sharedInformerFactory \<Rightarrow> genericLister" where
  "generic_Lister g f =
     \<lparr>gl_indexer = cache_indexer (si_indexer (heap f ! generic_Informer g)), gl_resource = gi_resource g\<rparr>"

definition genericLister_List :: "genericLister \<Rightarrow> selector \<Rightarrow> virtual_machine list \<times> go_error option" where
  "genericLister_List s matches = ListAll (gl_indexer s) matches"

definition found_or_missing ::
    "virtual_machine option \<times> go_error option \<Rightarrow> string \<Rightarrow> string \<Rightarrow> virtual_machine option \<times> go_error option" where
  "found_or_missing answer resource name =
     (case answer of
        (_, Some err) \<Rightarrow> (None, Some err)
      | (None, None) \<Rightarrow> (None, Some (NewNotFound resource name))
      | (Some obj, None) \<Rightarrow> (Some obj, None))"

definition genericLister_Get :: "genericLister \<Rightarrow> string \<Rightarrow> virtual_machine option \<times> go_error option" where
  "genericLister_Get s name = found_or_missing (ix_GetByKey (gl_indexer s) name) (gl_resource s) name"

definition genericNamespaceLister_List ::
    "genericLister \<Rightarrow> string \<Rightarrow> selector \<Rightarrow> virtual_machine list \<times> go_error option" where
  "genericNamespaceLister_List s namespace matches = ListAllByNamespace (gl_indexer s) namespace matches"

definition genericNamespaceLister_Get ::
    "genericLister \<Rightarrow> string \<Rightarrow> string \<Rightarrow> virtual_machine option \<times> go_error option" where
  "genericNamespaceLister_Get s namespace name =
     found_or_missing (ix_GetByKey (gl_indexer s) (namespace @ ''/'' @ name)) (gl_resource s) name"

end
