(* ===== verification/Informers_Correct.thy ===== *)
theory Informers_Correct
  imports Informers Client_Requests
begin

text \<open>
  The contract of the informer factory: one informer for each type, shared by all that ask for it,
  which each call of \<open>Start\<close> runs unless it runs already. For the controller: its lister, its handlers
  and the cache it waits for belong to the informer that \<open>main\<close> starts.
\<close>

section \<open>The invariant of a factory\<close>

definition started_addresses :: "(string \<times> nat) list \<Rightarrow> string list \<Rightarrow> nat set" where
  "started_addresses informers started = snd ` {e \<in> set informers. fst e \<in> set started}"

definition factory_inv :: "('e, 'h) sharedInformerFactory \<Rightarrow> bool" where
  "factory_inv f =
     (distinct (map fst (f_informers f)) \<and> map snd (f_informers f) = [0..<length (heap f)] \<and>
      distinct (running f) \<and> set (running f) = started_addresses (f_informers f) (f_startedInformers f) \<and>
      set (f_startedInformers f) \<subseteq> fst ` set (f_informers f))"

lemma factory_inv_new: "factory_inv (NewFilteredSharedInformerFactory client defaultResync namespace tweak)"
  by (simp add: factory_inv_def NewFilteredSharedInformerFactory_def started_addresses_def)

lemma factory_addresses: "factory_inv f \<Longrightarrow> snd ` set (f_informers f) = {..<length (heap f)}"
  unfolding factory_inv_def by (metis atLeast_upt set_map)

lemma entries_determined:
  assumes "factory_inv f" "(ty, i) \<in> set (f_informers f)"
  shows "{e \<in> set (f_informers f). fst e = ty} = {(ty, i)}" "{e \<in> set (f_informers f). snd e = i} = {(ty, i)}"
proof -
  have "distinct (map fst (f_informers f))" "distinct (map snd (f_informers f))"
    using assms(1) by (simp_all add: factory_inv_def)
  then have fst: "inj_on fst (set (f_informers f))" and snd: "inj_on snd (set (f_informers f))"
    by (simp_all only: distinct_map)
  show "{e \<in> set (f_informers f). fst e = ty} = {(ty, i)}"
    using inj_onD [OF fst _ _ assms(2)] assms(2) by (intro equalityI subsetI) simp_all
  show "{e \<in> set (f_informers f). snd e = i} = {(ty, i)}"
    using inj_onD [OF snd _ _ assms(2)] assms(2) by (intro equalityI subsetI) simp_all
qed

text \<open>Starting.\<close>

lemma start_each_frame [simp]:
  "f_informers (start_each is f) = f_informers f" "heap (start_each is f) = heap f"
  "f_client (start_each is f) = f_client f" "f_defaultResync (start_each is f) = f_defaultResync f"
  by (induction "is" f rule: start_each.induct) simp_all

lemma start_one_inv:
  assumes "factory_inv f" "(ty, i) \<in> set (f_informers f)" "ty \<notin> set (f_startedInformers f)"
  shows "factory_inv (f\<lparr>running := running f @ [i], f_startedInformers := ty # f_startedInformers f\<rparr>)"
proof -
  note e = entries_determined [OF assms(1,2)]
  have "{e \<in> set (f_informers f). fst e \<in> set (ty # f_startedInformers f)} =
      {e \<in> set (f_informers f). fst e = ty} \<union> {e \<in> set (f_informers f). fst e \<in> set (f_startedInformers f)}"
    by auto
  then have "started_addresses (f_informers f) (ty # f_startedInformers f) =
      insert i (started_addresses (f_informers f) (f_startedInformers f))"
    by (simp add: started_addresses_def e(1))
  moreover have "i \<notin> started_addresses (f_informers f) (f_startedInformers f)"
  proof
    assume "i \<in> started_addresses (f_informers f) (f_startedInformers f)"
    then obtain u where "u \<in> {e \<in> set (f_informers f). snd e = i}" "fst u \<in> set (f_startedInformers f)"
      by (auto simp: started_addresses_def)
    then show False using e(2) assms(3) by simp
  qed
  moreover have "ty \<in> fst ` set (f_informers f)" using assms(2) by force
  ultimately show ?thesis using assms(1) by (simp add: factory_inv_def)
qed

lemma start_each_inv:
  assumes "factory_inv f" "set is \<subseteq> set (f_informers f)"
  shows "factory_inv (start_each is f)"
    "set (f_startedInformers (start_each is f)) = set (f_startedInformers f) \<union> fst ` set is"
proof -
  have "factory_inv (start_each is f) \<and>
      set (f_startedInformers (start_each is f)) = set (f_startedInformers f) \<union> fst ` set is"
    using assms
  proof (induction "is" f rule: start_each.induct)
    case (2 ty i rest f)
    let ?f = "if ty \<notin> set (f_startedInformers f) then
        f\<lparr>running := running f @ [i], f_startedInformers := ty # f_startedInformers f\<rparr> else f"
    have "factory_inv ?f" using "2.prems" start_one_inv [of f ty i] by simp
    moreover have "set rest \<subseteq> set (f_informers ?f)" using "2.prems"(2) by simp
    ultimately have "factory_inv (start_each rest ?f)"
      "set (f_startedInformers (start_each rest ?f)) = set (f_startedInformers ?f) \<union> fst ` set rest"
      using "2.IH" by blast+
    moreover have "set (f_startedInformers ?f) = insert ty (set (f_startedInformers f))" by auto
    ultimately show ?case by (simp only: start_each.simps) simp
  qed simp
  then show "factory_inv (start_each is f)"
    "set (f_startedInformers (start_each is f)) = set (f_startedInformers f) \<union> fst ` set is"
    by simp_all
qed

lemma Start_inv:
  assumes "factory_inv f"
  shows "factory_inv (factory_Start f)" "set (running (factory_Start f)) = {..<length (heap f)}"
proof -
  show inv: "factory_inv (factory_Start f)"
    using start_each_inv(1) [OF assms order_refl] by (simp add: factory_Start_def)
  have "{e \<in> set (f_informers f). fst e \<in> set (f_startedInformers (factory_Start f))} = set (f_informers f)"
    using start_each_inv(2) [OF assms order_refl] by (auto simp: factory_Start_def)
  then have "set (running (factory_Start f)) = snd ` set (f_informers f)"
    using inv by (simp add: factory_inv_def started_addresses_def factory_Start_def)
  then show "set (running (factory_Start f)) = {..<length (heap f)}" by (simp add: factory_addresses [OF assms])
qed

text \<open>Asking for an informer.\<close>

lemma InformerFor_inv:
  assumes "factory_inv f" "InformerFor ty newFunc f = (i, f')"
  shows "factory_inv f'" "map_of (f_informers f') ty = Some i" "i < length (heap f')"
    "\<exists>more. f_informers f' = f_informers f @ more" "\<exists>more. heap f' = heap f @ more" "running f' = running f"
proof -
  have *: "factory_inv f' \<and> map_of (f_informers f') ty = Some i \<and> i < length (heap f') \<and>
      (\<exists>more. f_informers f' = f_informers f @ more) \<and> (\<exists>more. heap f' = heap f @ more) \<and> running f' = running f"
  proof (cases "map_of (f_informers f) ty")
    case None
    then have new: "ty \<notin> fst ` set (f_informers f)" by (simp add: map_of_eq_None_iff)
    then have "ty \<notin> set (f_startedInformers f)" using assms(1) by (auto simp: factory_inv_def)
    then have "started_addresses (f_informers f @ [(ty, n)]) (f_startedInformers f) =
        started_addresses (f_informers f) (f_startedInformers f)" for n
      by (auto simp: started_addresses_def)
    moreover have f': "i = length (heap f)" "f' = f\<lparr>heap := heap f @ [newFunc (f_client f) (f_defaultResync f)],
        f_informers := f_informers f @ [(ty, length (heap f))]\<rparr>"
      using assms(2) None by (auto simp: InformerFor_def Let_def)
    ultimately have "factory_inv f'" using assms(1) new by (auto simp: factory_inv_def)
    then show ?thesis using f' None by (simp add: map_add_def)
  next
    case (Some j)
    then have "(ty, j) \<in> set (f_informers f)" by (rule map_of_SomeD)
    then have "j \<in> snd ` set (f_informers f)" by force
    then have "j < length (heap f)" using factory_addresses [OF assms(1)] by simp
    then show ?thesis using assms Some by (auto simp: InformerFor_def)
  qed
  then show "factory_inv f'" "map_of (f_informers f') ty = Some i" "i < length (heap f')"
    "\<exists>more. f_informers f' = f_informers f @ more" "\<exists>more. heap f' = heap f @ more" "running f' = running f"
    by blast+
qed

section \<open>Any use of a factory\<close>

datatype ('e, 'h) factory_op =
    OpRequest string "clientset \<Rightarrow> int \<Rightarrow> ('e, 'h) shared_informer"
  | OpStart
  | OpAddHandler nat 'h

fun factory_step :: "('e, 'h) factory_op \<Rightarrow> ('e, 'h) sharedInformerFactory \<Rightarrow> ('e, 'h) sharedInformerFactory" where
  "factory_step (OpRequest ty newFunc) f = snd (InformerFor ty newFunc f)"
| "factory_step OpStart f = factory_Start f"
| "factory_step (OpAddHandler i h) f =
     f\<lparr>heap := (heap f)[i := fst (AddEventHandler (i \<in> set (running f)) h (heap f ! i))]\<rparr>"

fun factory_run :: "('e, 'h) factory_op list \<Rightarrow> ('e, 'h) sharedInformerFactory \<Rightarrow> ('e, 'h) sharedInformerFactory" where
  "factory_run [] f = f"
| "factory_run (op # ops) f = factory_run ops (factory_step op f)"

lemma factory_step_inv:
  assumes "factory_inv f"
  shows "factory_inv (factory_step op f)"
proof (cases op)
  case (OpRequest ty newFunc)
  with InformerFor_inv(1) [OF assms] show ?thesis by (metis factory_step.simps(1) prod.collapse)
next
  case OpStart
  with Start_inv(1) [OF assms] show ?thesis by simp
next
  case (OpAddHandler i h)
  with assms show ?thesis by (simp add: factory_inv_def)
qed

lemma factory_run_inv: "factory_inv f \<Longrightarrow> factory_inv (factory_run ops f)"
  by (induction ops f rule: factory_run.induct) (simp_all add: factory_step_inv)

lemma factory_step_keeps:
  assumes "factory_inv f" "map_of (f_informers f) ty = Some i"
  shows "map_of (f_informers (factory_step op f)) ty = Some i"
proof (cases op)
  case (OpRequest ty' newFunc)
  obtain j f' where r: "InformerFor ty' newFunc f = (j, f')" by fastforce
  obtain more where "f_informers f' = f_informers f @ more"
    using InformerFor_inv(4) [OF assms(1) r] by blast
  with assms(2) r OpRequest show ?thesis by (simp add: map_add_def split: option.split) 
next
  case OpStart
  with assms show ?thesis by (simp add: factory_Start_def)
next
  case (OpAddHandler k h)
  with assms show ?thesis by simp
qed

lemma factory_run_keeps:
  "factory_inv f \<Longrightarrow> map_of (f_informers f) ty = Some i \<Longrightarrow> map_of (f_informers (factory_run ops f)) ty = Some i"
  by (induction ops f rule: factory_run.induct) (simp_all add: factory_step_inv factory_step_keeps)

definition factory_after ::
    "('e, 'h) factory_op list \<Rightarrow> clientset \<Rightarrow> int \<Rightarrow> string \<Rightarrow> tweak_list_options \<Rightarrow> ('e, 'h) sharedInformerFactory" where
  "factory_after ops client defaultResync namespace tweak =
     factory_run ops (NewFilteredSharedInformerFactory client defaultResync namespace tweak)"

lemma factory_after_inv: "factory_inv (factory_after ops client defaultResync namespace tweak)"
  unfolding factory_after_def by (rule factory_run_inv [OF factory_inv_new])

section \<open>The properties\<close>

text \<open>
  C17. However a factory is used, each of its informers is run at most once, and whenever \<open>Start\<close>
  returns exactly the informers that were requested are running: calling it again starts the ones
  requested since, and no other a second time.
\<close>
theorem informers_started_once:
  "distinct (running (factory_after ops client defaultResync namespace tweak)) \<and>
   distinct (running (factory_Start (factory_after ops client defaultResync namespace tweak))) \<and>
   set (running (factory_Start (factory_after ops client defaultResync namespace tweak))) =
     snd ` set (f_informers (factory_after ops client defaultResync namespace tweak))"
proof -
  let ?f = "factory_after ops client defaultResync namespace tweak"
  have inv: "factory_inv ?f" by (rule factory_after_inv)
  with Start_inv [OF inv] factory_addresses [OF inv] show ?thesis by (simp add: factory_inv_def)
qed

text \<open>
  All that ask a factory for the informer of a type, by whatever constructor, get the same one,
  whatever else is done with the factory before and in between.
\<close>
theorem informers_shared:
  "fst (InformerFor ty new'
      (factory_run ops' (snd (InformerFor ty new (factory_after ops client defaultResync namespace tweak))))) =
   fst (InformerFor ty new (factory_after ops client defaultResync namespace tweak))"
proof -
  let ?f = "factory_after ops client defaultResync namespace tweak"
  have inv: "factory_inv ?f" by (rule factory_after_inv)
  obtain i f' where r: "InformerFor ty new ?f = (i, f')" by fastforce
  have "map_of (f_informers (factory_run ops' f')) ty = Some i"
    by (rule factory_run_keeps) (rule InformerFor_inv [OF inv r])+
  with r show ?thesis by (simp add: InformerFor_def)
qed


end
