(* ===== verification/Spec2Isabelle.thy ===== *)
theory Spec2Isabelle
  imports Sample_Passes Waiting_Steps Process_Life Startup Deep_Copy_Parts
    Client_Passes Settled_Passes Owner_References Listers_Correct Reflector_Runs Informers_Correct
begin

text \<open>
  The operator for virtual machines of \<open>openshift/ci-vm-operator\<close>, modelled from its sources.

  \<^bold>\<open>The program.\<close> Users create objects of kind VirtualMachine in a cluster. The controller
  (\<open>cmd/ci-vm-operator\<close>, \<open>pkg/controller\<close>) watches them: events put the key of an object into a
  rate-limited queue, workers take keys and reconcile them, creating a machine in the compute API
  and a secret with its SSH keys, or deleting the machine and then the finalizer of the object. The
  admission controller (\<open>cmd/admission-controller\<close>, \<open>pkg/admission-controller\<close>) serves two
  webhooks: one adds the finalizer to new objects as a JSON patch, the other refuses updates of a
  specification. The types are in \<open>pkg/apis\<close>, the saturation metric in \<open>pkg/metrics\<close>. The controller
  reads and writes its objects with the generated client set of \<open>pkg/client\<close> and hears of changes
  from the generated informer, whose factory \<open>main\<close> starts. Of the vendored libraries, what decides
  the behaviour is modelled too: the work queue and its rate limiters, the key functions, string
  sets, semantic equality, the JSON patch, the metric registration, the requests of \<open>client-go/rest\<close>,
  the cache and the handlers of an informer, the object tracker of the fake, and schemes.

  \<^bold>\<open>The model of Go.\<close> \<open>Prelude\<close> and \<open>Go_Base\<close>: code with effects is a function from the outside world to
  a result, which is a value or a panic, and the new world; \<open>andthen\<close> sequences it. Errors are values
  of \<open>go_error\<close>, with the texts that \<open>fmt\<close> and the libraries give them. Nil pointers and nil slices
  are told apart from empty ones where the code can see it; dereferencing nil and indexing an empty
  slice panic. \<open>int\<close> and \<open>int64\<close> are 64-bit words; durations that cannot overflow are integers.

  \<^bold>\<open>The theories.\<close>
  \<^item> \<open>Api_Types\<close>: \<open>types.go\<close> and the metadata it embeds, and \<open>equality.Semantic.DeepEqual\<close> on a spec.
  \<^item> \<open>String_Sets\<close> (locale \<open>string_set\<close>), \<open>Object_Keys\<close> (locale \<open>key_codec\<close>): finalizer sets, queue keys.
  \<^item> \<open>Work_Queue\<close> and \<open>Rate_Limiter\<close> (locales for the queue and for \<open>rate_limiter\<close>): \<open>client-go/util/workqueue\<close>.
  \<^item> \<open>Cloud_Env\<close> (locale \<open>entitled\<close>): the services outside as a record of functions on an arbitrary
    state, a clock that every call moves, and the history of calls with their answers.
  \<^item> \<open>Ssh_Access\<close>: \<open>secrets.go\<close>. \<open>Gce_Operations\<close>: \<open>waitForOperation\<close>, \<open>checkOp\<close>. \<open>Gce_Machines\<close>: the
    rest of \<open>gce.go\<close>. \<open>Reconciler\<close>: \<open>reconcile\<close>. Each operation is a definition that reads like the
    code, and a protocol, an inductive relation between calls and result which the definition is
    shown to follow; the protocols serve as the abstract specification, and \<open>Effects\<close> derives from
    them what a pass changes.
  \<^item> \<open>Controller\<close>: handlers, \<open>handleErr\<close>, \<open>processNextWorkItem\<close> and \<open>worker\<close>, one worker alone.
    \<open>Worker_Steps\<close>: all workers with the informer, the waiting loop and the clock.
    \<open>Heap_Order\<close> (locale \<open>heap_container\<close>): \<open>container/heap\<close>. \<open>Waiting_Loop\<close>, \<open>Waiting_Steps\<close>: the waiting
    loop over its heap of shared entries, which \<open>Worker_Steps\<close> simulates.
    \<open>Process_Life\<close>: \<open>main\<close> after its set-up, \<open>Run\<close>, \<open>wait.Until\<close>. \<open>Startup\<close>: the set-up of both programs.
  \<^item> \<open>Deep_Copy\<close>, \<open>Deep_Copy_Parts\<close>: \<open>zz_generated.deepcopy.go\<close> on an explicit store; it justifies that
    the other theories use objects as values.
  \<^item> \<open>Url_Paths\<close>, \<open>Rest_Request\<close>, \<open>Rest_Response\<close>: paths and \<open>client-go/rest/request.go\<close>, where the wire is a
    state with a log of calls and waits. \<open>Api_Requests\<close>, \<open>Typed_Client\<close>: \<open>pkg/client/clientset/versioned\<close>
    and its typed client. \<open>Client_Requests\<close>: which calls its operations send. \<open>World_Invariants\<close> (locale
    \<open>world_invariant\<close>) and \<open>Client_Passes\<close>: the reconciler put on this client.
  \<^item> \<open>Fake_Client\<close>, \<open>Fake_Client_Correct\<close> (locale \<open>vm_store\<close>): the fake client set over the object tracker,
    refined by a map. \<open>Store_Passes\<close>: the reconciler put on this fake (interpretation \<open>store_passes\<close> of
    \<open>world_invariant\<close>), whose calls are replayed on the map. \<open>Settled_Passes\<close> (interpretation \<open>secrets\<close>):
    passes over an API server that keeps secrets.
  \<^item> \<open>Object_Cache\<close>, \<open>Object_Cache_Correct\<close>: the indexed store of an informer and its invariant.
    \<open>Informer_Events\<close>: \<open>HandleDeltas\<close>, the distribution to the listener and the calls of the handlers of
    \<open>Controller\<close>. \<open>Delta_Queue\<close>, \<open>Delta_Queue_Correct\<close>: the queue of deltas between the reflector and the
    cache. \<open>Informer_Runs\<close>: lists, watches, resyncs and pops in any order, and where they lead.
    \<open>Reflector\<close>, \<open>Reflector_Runs\<close>: \<open>ListAndWatch\<close> and \<open>watchHandler\<close> as a state machine, over a server that
    is a history of events.
    \<open>Listers\<close>, \<open>Listers_Correct\<close> (locale \<open>machine_indexer\<close>): \<open>pkg/client/listers\<close>.
  \<^item> \<open>Informers\<close>, \<open>Informers_Correct\<close>: the informer factory of \<open>pkg/client/informers\<close>, a state with a heap of
    informers and the list of those that run, and what \<open>New\<close> and \<open>main\<close> do with it.
  \<^item> \<open>Schemes\<close>, \<open>Schemes_Correct\<close> (locale \<open>registration\<close>): the registration of the types.
    \<open>Owner_References\<close>: the owner reference of a secret and whether a scheme knows it.
  \<^item> \<open>Json_Patch\<close>, \<open>Json_Patch_Correct\<close>: the computation of patches. \<open>Json_Text\<close>, \<open>Json_Text_Correct\<close> (locale
    \<open>number_text\<close>), \<open>Patch_Text\<close>: what \<open>encoding/json\<close> writes, a reader of JSON, and the text of a
    patch. \<open>Admission\<close>: the webhooks. \<open>Metrics\<close>: \<open>ratelimiter.go\<close>.
  \<^item> \<open>Sample_World\<close>, \<open>Sample_Passes\<close>: the concrete inputs of the witnesses.

  \<^bold>\<open>What is shown.\<close> Here, the properties that span components: what a pass may
  change, in which order, and when (finalizer last, secret after a completed operation, at most one
  change of a machine, only its own machine), what its failures lead to, bounds on waiting and polling,
  and the round trips of keys and finalizers. In the other theories: mutual exclusion and progress of
  the workers, the retry budget and delays, draining at shutdown, the verdicts and patches of the
  webhooks, isolation of deep copies, that the heap of the waiting loop adds the ready keys in order,
  the life cycle of the process, the addresses and repetitions of requests and that a pass sends
  requests about its own object only, the refinement of a map by the fake client, that any number of
  passes leaves in a store the requests that its owners made, that a deleted object is released exactly
  by a pass that succeeds, that a published key is never renewed, the invariant of the
  cache with what listers find in it, that the cache is the state of the server at the version that the
  reflector reports, that every change of it reaches the queue of the controller, that informers are
  shared and started once, and that the schemes know the types. Some theorems describe behaviour that
  the code hardly intends: a refused deletion releases the object, a refused creation is not retried, a
  lookup that fails on the network leads to a creation, an undecodable review panics, the metric of the
  controller is never registered, the owner reference of a secret names no kind, a quote in the
  name of a member breaks the patch, one signal does not end the process, a patch by the fake does nothing.

  \<^bold>\<open>Bounds.\<close> Only the reader of JSON uses fuel, the length of the text: each level
  of nesting takes a character, and all that is written is read. The wait loop ends because each turn
  moves the clock by \<open>gceWaitSleep\<close> towards the deadline (at most \<open>gceTimeout /
  gceWaitSleep = 120\<close> polls); the poll loop counts \<open>Retries\<close>, and a request at most
  ten repetitions; the JSON comparison recurses on sizes; \<open>worker\<close> may run for ever, so it
  is a partial function, and that it returns on a queue that is shutting down is proved.

  \<^bold>\<open>Abstractions.\<close> In \<open>Worker_Steps\<close> a pass may end with any error, the
  channel to the waiting loop is not bounded by its buffer of 1000, and among entries that are due at
  the same time any may fire first; each adds behaviours only. In \<open>Controller\<close> the waiting
  loop does not run during a turn. In \<open>Process_Life\<close> a worker may crash at any time. Maps
  are association lists whose order is arbitrary. The server answers a list with any version of its
  past. A client is given its codec and its transport. That the API server keeps an accepted secret is a
  hypothesis of \<open>Settled_Passes\<close>.

  \<^bold>\<open>Not modelled.\<close> Logging; the event broadcaster; the codecs of the API machinery
  and the decoding of \<open>encoding/json\<close>, flags, files, cryptography, SSH and the network,
  which are parameters; the conversions and defaults of a scheme; the garbage collector. What is left
  of the sources are declarations without behaviour: the Go interfaces that the generated structs
  implement, the constants that list machine types, disk types and zones, against which no code checks
  anything, and the codecs made for each scheme. Reading JSON into the types of the API is the business
  of the decoder alone, so \<open>Admission\<close> takes it as a parameter.
\<close>

section \<open>What a pass may do\<close>

text \<open>
  C1. The finalizer is removed only as the last call of a pass over an object that is being deleted
  and has the finalizer, and only after the pass has seen the machine absent or has asked for its
  deletion. The object sent is the one that was read, without the finalizer.
\<close>

theorem finalizer_removed_last:
  assumes "CVMUpdate ns u ue \<in> set (pass_calls env cfg key w)"
  shows "\<exists>n vm i err rest. SplitMetaNamespaceKey key = (ns, n, None) \<and>
    being_deleted vm \<and> has_finalizer vm \<and> u = drop_finalizer vm \<and>
    pass_calls env cfg key w =
      CVMGet ns n vm None # CInstancesGet (Project cfg) (Zone cfg) (vm_name vm) i err # rest @
      [CVMUpdate ns u ue] \<and>
    (i = None \<and> err = None \<or> (\<exists>e. err = Some e \<and> as_googleapi e = Some 404) \<or>
     (\<exists>op derr. CInstancesDelete (Project cfg) (Zone cfg) (vm_name vm) op derr \<in> set rest))"
proof -
  let ?cs = "pass_calls env cfg key w"
  have eff: "CVMUpdate ns u ue \<in> set (effects ?cs)" using assms by (simp add: set_effects)
  show ?thesis
  proof (cases rule: reconcile_run_effects [OF reconcile_obeys [of env cfg key w]])
    case 1
    with eff show ?thesis by simp
  next
    case (2 ns' n vm ds)
    with eff show ?thesis by (auto elim!: delete_run_effects)
  next
    case (3 ns' n vm ds ue')
    from 3(5) have "CVMUpdate ns u ue \<notin> set (effects ds)" by (auto elim!: delete_run_effects)
    with 3 eff have "ns' = ns" "u = drop_finalizer vm" "ue' = ue" by auto
    from 3(5) obtain i err rest where "ds = CInstancesGet (Project cfg) (Zone cfg) (vm_name vm) i err # rest"
      "i = None \<and> err = None \<or> (\<exists>e. err = Some e \<and> as_googleapi e = Some 404) \<or>
       (\<exists>op derr. CInstancesDelete (Project cfg) (Zone cfg) (vm_name vm) op derr \<in> set rest)"
      by (elim delete_runE) (auto simp: StatusNotFound_def)
    with 3 \<open>ns' = ns\<close> \<open>u = drop_finalizer vm\<close> \<open>ue' = ue\<close> show ?thesis by auto
  next
    case (4 ns' n vm ds)
    then have "list_all (concerns cfg ns vm) (effects ds)" by (simp add: ensure_run_concerns)
    with 4 eff show ?thesis
      by (auto elim!: ensure_run_effects op_run_effects)
  qed
qed

theorem finalizer_removed_last_witness:
  "\<exists>n vm i err rest. drop_finalizer deleted_vm = drop_finalizer vm \<and>
    pass_calls (sample_env deleted_vm) sample_cfg sample_key sample_world =
      CVMGet ''ci'' n vm None # CInstancesGet ''p'' ''z'' (vm_name vm) i err # rest @
      [CVMUpdate ''ci'' (drop_finalizer deleted_vm) None]"
proof -
  have "CVMUpdate ''ci'' (drop_finalizer deleted_vm) None
      \<in> set (pass_calls (sample_env deleted_vm) sample_cfg sample_key sample_world)"
    by (simp add: deletion_pass)
  from finalizer_removed_last [OF this] show ?thesis
    by (simp only: sample_cfg_def configuration.simps) blast
qed

text \<open>
  C38. A deletion that the compute API refuses does not keep the finalizer in place: if the failure
  can be written to the status of the object, the pass goes on to remove the finalizer, although
  the machine still exists.
\<close>

theorem refused_deletion_releases:
  assumes "CInstancesDelete p z n op (Some e) \<in> set (pass_calls env cfg key w)"
    "CVMUpdateStatus ns v None \<in> set (pass_calls env cfg key w)"
  shows "\<exists>ns' n' vm ue. SplitMetaNamespaceKey key = (ns', n', None) \<and> has_finalizer vm \<and>
    VirtualMachineFinalizer \<notin> set (vm_finalizers (drop_finalizer vm)) \<and>
    last (pass_calls env cfg key w) = CVMUpdate ns' (drop_finalizer vm) ue \<and>
    fst (reconcile env cfg key w) = Returns ue"
proof -
  let ?cs = "pass_calls env cfg key w"
  have eff: "CInstancesDelete p z n op (Some e) \<in> set (effects ?cs)"
      "CVMUpdateStatus ns v None \<in> set (effects ?cs)"
    using assms by (simp_all add: set_effects)
  show ?thesis
  proof (cases rule: reconcile_run_effects [OF reconcile_obeys [of env cfg key w]])
    case 1
    with eff show ?thesis by simp
  next
    case (2 ns' n vm ds)
    with eff show ?thesis by (auto elim!: delete_run_effects)
  next
    case (3 ns' n vm ds ue')
    then show ?thesis by (auto simp: drop_finalizer_finalizers)
  next
    case (4 ns' n vm ds)
    with eff show ?thesis by (auto elim!: ensure_run_effects op_run_effects)
  qed
qed

theorem refused_deletion_releases_witness:
  "\<exists>ns n vm ue. SplitMetaNamespaceKey sample_key = (ns, n, None) \<and> has_finalizer vm \<and>
    CVMUpdate ''ci'' (drop_finalizer deleted_vm) None = CVMUpdate ns (drop_finalizer vm) ue"
  using refused_deletion_releases [where key = sample_key and cfg = sample_cfg and w = sample_world
      and env = "(sample_env deleted_vm)\<lparr>InstancesDelete := \<lambda>p z n e. ((None, Some quota_error), e)\<rparr>"
      and p = "''p''" and z = "''z''" and n = "''vm''" and op = None and e = quota_error and ns = "''ci''"
      and v = "mark_failed deleted_vm (errorf_v ''error deleting GCE instance: '' quota_error)"]
  unfolding refused_pass by auto

text \<open>
  C2. A secret is created only as the last call of a pass whose operation, creation or key renewal,
  was accepted and then polled until its last answer was done without errors, after which the
  machine was found. The private key in the secret belongs to the public key that the operation
  installed, and its host is the address that the machine had.
\<close>

theorem secret_after_operation:
  assumes "CSecretCreate ns s se \<in> set (pass_calls env cfg key w)"
  shows "\<exists>vm pem pub pre call o' ps i h qs.
    pass_calls env cfg key w =
      pre @ CGenerateKey 4096 None # call (formatted_public_key pub) (Some o') None # ps @
      CInstancesGet (Project cfg) (Zone cfg) (vm_name vm) (Some i) None # qs @ [CSecretCreate ns s se] \<and>
    call \<in> {insertion_call cfg vm, renewal_call cfg vm} \<and> keypair_of env pem pub \<and>
    s = ssh_secret vm pem pub i h \<and> ns = vm_namespace vm \<and> instance_hostname (Some i) = Returns h \<and>
    length ps \<le> 120 \<and> done_cleanly (last_answer (Some o') ps) \<and> list_all is_poll qs"
proof -
  let ?cs = "pass_calls env cfg key w"
  have eff: "CSecretCreate ns s se \<in> set (effects ?cs)" using assms by (simp add: set_effects)
  show ?thesis
  proof (cases rule: reconcile_run_effects [OF reconcile_obeys [of env cfg key w]])
    case 1
    with eff show ?thesis by simp
  next
    case (2 ns' n vm ds)
    with eff show ?thesis by (auto elim!: delete_run_effects)
  next
    case (3 ns' n vm ds ue')
    with eff show ?thesis by (auto elim!: delete_run_effects)
  next
    case (4 ns' n vm ds)
    with assms have "CSecretCreate ns s se \<in> set ds" by simp
    from 4(4) this obtain call es pre where call: "call \<in> {insertion_call cfg vm, renewal_call cfg vm}"
        "op_run env cfg vm call es (fst (reconcile env cfg key w))" "ds = pre @ es"
        "CSecretCreate ns s se \<in> set es"
      by (rule ensure_run_secret)
    have "machine_change (call k op err)" for k op err using call(1) by auto
    from op_run_secret [OF call(2) this call(4)] obtain pem pub o' ps i h qs where
      found: "keypair_of env pem pub" "s = ssh_secret vm pem pub i h" "ns = vm_namespace vm"
        "wait_run cfg 120 (Some o') None ps (Returns None)" "instance_hostname (Some i) = Returns h"
        "list_all is_poll qs" and
      es: "es = CGenerateKey 4096 None # call (formatted_public_key pub) (Some o') None # ps @
        CInstancesGet (Project cfg) (Zone cfg) (vm_name vm) (Some i) None # qs @ [CSecretCreate ns s se]" .
    have "?cs = (CVMGet ns' n vm None # pre) @ CGenerateKey 4096 None #
        call (formatted_public_key pub) (Some o') None # ps @
        CInstancesGet (Project cfg) (Zone cfg) (vm_name vm) (Some i) None # qs @ [CSecretCreate ns s se]"
      using 4(1) call(3) es by simp
    then show ?thesis
      using call(1) found(1-3,5,6) wait_run_length [OF found(4)] wait_run_success [OF found(4) refl]
      by (intro exI conjI) assumption+
  qed
qed

theorem secret_after_operation_witness:
  "\<exists>vm pem pub i h. ssh_secret live_vm ''pem'' ''ssh-rsa AAAA'' an_instance ''10.0.0.1'' =
     ssh_secret vm pem pub i h \<and> ''ci'' = vm_namespace vm \<and> instance_hostname (Some i) = Returns h"
proof -
  let ?env = "(sample_env live_vm)\<lparr>SecretGet := \<lambda>ns n e. (Some (StatusError ''NotFound'' ''no secret''), e)\<rparr>"
  have "CSecretCreate ''ci'' (ssh_secret live_vm ''pem'' ''ssh-rsa AAAA'' an_instance ''10.0.0.1'') None
      \<in> set (pass_calls ?env sample_cfg sample_key sample_world)"
    by (simp add: creation_pass)
  from secret_after_operation [OF this] show ?thesis by blast
qed

text \<open>
  C6. A pass makes at most one call that changes a machine: it never deletes and creates, never
  creates twice, and never renews a key of a machine it has just created.
\<close>

theorem one_machine_change:
  "length (filter machine_change (pass_calls env cfg key w)) \<le> 1"
  using reconcile_run_machine [OF reconcile_obeys [of env cfg key w]]
  by (simp add: machine_changes_effects)

text \<open>
  C7. Every change a pass makes is about the object it read under its key and about the machine of
  that object: the machine is named like the object, in the configured project and zone; the
  object is updated only to drop the finalizer, its status only to say that it failed; the secret
  is the one of the object.
\<close>

theorem changes_concern_own_machine:
  assumes "c \<in> set (pass_calls env cfg key w)" "machine_change c \<or> cluster_change c"
  shows "\<exists>ns n vm rest. pass_calls env cfg key w = CVMGet ns n vm None # rest \<and>
    SplitMetaNamespaceKey key = (ns, n, None) \<and> concerns cfg ns vm c"
  using reconcile_run_concerns [OF reconcile_obeys [of env cfg key w]] assms
  by (simp add: set_effects)

theorem changes_concern_own_machine_witness:
  "\<exists>ns n vm. SplitMetaNamespaceKey sample_key = (ns, n, None) \<and>
     concerns sample_cfg ns vm (CInstancesDelete ''p'' ''z'' ''vm'' (Some (an_operation ''RUNNING'')) None)"
  using changes_concern_own_machine [where env = "sample_env deleted_vm" and cfg = sample_cfg
      and key = sample_key and w = sample_world
      and c = "CInstancesDelete ''p'' ''z'' ''vm'' (Some (an_operation ''RUNNING'')) None"]
  unfolding deletion_pass by auto

text \<open>
  C37. A pass that panics has changed nothing in the cluster, and at most one machine; the panic is
  a nil dereference or an index out of range.
\<close>

theorem panic_changes_no_object:
  assumes "fst (reconcile env cfg key w) = Panics m"
  shows "(m = nil_dereference \<or> m = index_out_of_range) \<and>
    filter cluster_change (pass_calls env cfg key w) = []"
  using reconcile_run_panic [OF reconcile_obeys [of env cfg key w]] assms
  by (auto simp: clean_panic_def runtime_panic_def no_cluster_change)

theorem panic_changes_no_object_witness:
  "filter cluster_change (pass_calls ((sample_env deleted_vm)\<lparr>InstancesDelete := \<lambda>p z n e. ((None, None), e)\<rparr>)
     sample_cfg sample_key sample_world) = []"
  using panic_changes_no_object [OF panicking_pass] by (rule conjunct2)

text \<open>
  A pass does nothing but read the object when it is gone, or when it is being deleted and has
  lost its finalizer; it then succeeds.
\<close>

theorem nothing_to_do:
  assumes "pass_calls env cfg key w = CVMGet ns n vm err # rest"
    "IsNotFound err \<or> err = None \<and> being_deleted vm \<and> \<not> has_finalizer vm"
  shows "rest = [] \<and> fst (reconcile env cfg key w) = Returns None"
  using reconcile_obeys [of env cfg key w] assms by (elim reconcile_runE) auto

theorem nothing_to_do_witness:
  "fst (reconcile ((sample_env live_vm)\<lparr>VMGet := \<lambda>ns n e. ((live_vm, Some gone_error), e)\<rparr>)
     sample_cfg sample_key sample_world) = Returns None"
proof -
  have "IsNotFound (Some gone_error)" by (simp add: gone_error_def IsNotFound_def)
  with nothing_to_do [OF gone_pass] show ?thesis by blast
qed

text \<open>
  A key with two slashes or more is not the key of an object: the pass fails without making any
  call. Every other key is read.
\<close>

lemma malformed_key_fails:
  "if 2 \<le> count_list key slash
   then pass_calls env cfg key w = [] \<and> (\<exists>e. fst (reconcile env cfg key w) = Returns (Some e))
   else \<exists>ns n vm err rest. pass_calls env cfg key w = CVMGet ns n vm err # rest"
  using reconcile_obeys [of env cfg key w] split_key_error_iff [of key]
  by (elim reconcile_runE) (auto dest: split_key_error_parts)

section \<open>Ensuring the machine\<close>

lemma ensure_obeys: "ensure_run env cfg vm (ensure_calls env cfg vm w) (fst (ensureVM env cfg vm w))"
  using ensureVM_run [of env cfg vm w] by (auto simp: calls_of_eq)

text \<open>
  Once the machine and its secret exist, ensuring them changes nothing and succeeds: two reads,
  whatever else the lookup of the machine answers.
\<close>

theorem ensured_is_stable:
  assumes "CSecretGet ns n None \<in> set (ensure_calls env cfg vm w)"
  shows "\<exists>i err. ensure_calls env cfg vm w =
      [CInstancesGet (Project cfg) (Zone cfg) (vm_name vm) (Some i) err,
       CSecretGet (vm_namespace vm) (vm_name vm) None] \<and>
    fst (ensureVM env cfg vm w) = Returns None"
  using ensure_obeys [of env cfg vm w] assms
  by (elim ensure_runE) (auto dest: op_run_no_lookup)

theorem ensured_is_stable_witness: "fst (ensureVM (sample_env live_vm) sample_cfg live_vm sample_world) = Returns None"
  using ensured_is_stable [of "''ci''" "''vm''" "sample_env live_vm" sample_cfg live_vm sample_world]
  by (simp add: stable_calls)

lemma op_run_starts: "op_run env cfg vm recd cs r \<Longrightarrow> \<exists>ke rest. cs = CGenerateKey 4096 ke # rest"
  by (auto elim: op_runE)


text \<open>
  An insertion or a key renewal that the compute API refuses is written to the status of the
  object and is then forgotten: the pass ends with the error of the status update, so it succeeds
  when the status could be written, and the failing key is not retried.
\<close>

theorem refused_operation_reported:
  assumes "c \<in> set (ensure_calls env cfg vm w)"
    "c = insertion_call cfg vm k op (Some e) \<or> c = renewal_call cfg vm k op (Some e)"
  shows "\<exists>ue. fst (ensureVM env cfg vm w) = Returns ue \<and>
    last (ensure_calls env cfg vm w) = CVMUpdateStatus (vm_namespace vm)
      (mark_failed vm (errorf_v ''error running operation: '' e)) ue"
proof (cases rule: ensure_run.cases [OF ensure_obeys [of env cfg vm w]])
  case (3 e' ds r i err)
  with assms renewal_never_inserts [OF 3(4)] have "renewal_call cfg vm k op (Some e) \<in> set ds" by auto
  with 3 show ?thesis by (auto elim!: op_run_refused)
next
  case (5 err ds r)
  with assms insertion_never_renews [OF 5(4)] have "insertion_call cfg vm k op (Some e) \<in> set ds" by auto
  with 5 show ?thesis by (auto elim!: op_run_refused)
qed (use assms in auto)

theorem refused_operation_reported_witness:
  "fst (ensureVM ((sample_env live_vm)\<lparr>InstancesGet := \<lambda>p z n e. ((None, None), e),
       InstancesInsert := \<lambda>p z i e. ((None, Some quota_error), e)\<rparr>) sample_cfg live_vm sample_world) =
     Returns None"
  using refused_operation_reported [where vm = live_vm and cfg = sample_cfg and w = sample_world
      and env = "(sample_env live_vm)\<lparr>InstancesGet := \<lambda>p z n e. ((None, None), e),
        InstancesInsert := \<lambda>p z i e. ((None, Some quota_error), e)\<rparr>"
      and c = "insertion_call sample_cfg live_vm ''cloud-user:ssh-rsa AAAA cloud-user'' None (Some quota_error)"
      and k = "''cloud-user:ssh-rsa AAAA cloud-user''" and op = None and e = quota_error]
  unfolding rejected_calls by auto

section \<open>Waiting for an operation\<close>

lemma waits_as_run:
  "wait_run cfg 120 (Some o') None (calls_of (waitForOperation env cfg (Some o')) w)
     (fst (waitForOperation env cfg (Some o') w))"
  by (rule waitForOperation_run [where env = env and cfg = cfg and o' = o' and w = w])
    (simp add: calls_of_eq)

lemma wait_run_project:
  "wait_run cfg n op err cs r \<Longrightarrow>
     list_all (\<lambda>c. \<exists>z n op' err. c = CZoneOperationsGet (Project cfg) z n op' err) cs"
  by (induction rule: wait_run.induct) auto

text \<open>
  C19. Waiting for an operation ends, whatever the service answers and however long it takes: after
  at most 120 polls, all of them of the configured project.
\<close>

theorem wait_is_bounded:
  "length (calls_of (waitForOperation env cfg op) w) \<le> 120 \<and>
   list_all (\<lambda>c. \<exists>z n op' err. c = CZoneOperationsGet (Project cfg) z n op' err)
     (calls_of (waitForOperation env cfg op) w)"
proof (cases op)
  case None
  then show ?thesis by (simp add: waitForOperation_nil calls_of_def)
next
  case (Some o')
  with waits_as_run [where env = env and cfg = cfg and o' = o' and w = w] show ?thesis
    by (auto dest: wait_run_length wait_run_project)
qed

text \<open>
  A wait succeeds only if the last answer it got, or the operation it was given when it made no
  poll, is done and carries no error.
\<close>

theorem wait_success_is_done:
  assumes "fst (waitForOperation env cfg op w) = Returns None"
  shows "done_cleanly (last_answer op (calls_of (waitForOperation env cfg op) w))"
proof (cases op)
  case None
  with assms show ?thesis by (simp add: waitForOperation_nil)
next
  case (Some o')
  with wait_run_success [OF waits_as_run] assms show ?thesis by simp
qed

theorem wait_success_is_done_witness:
  "done_cleanly (last_answer (Some (an_operation ''RUNNING''))
     (calls_of (waitForOperation (sample_env live_vm) sample_cfg (Some (an_operation ''RUNNING''))) sample_world))"
proof (rule wait_success_is_done)
  show "fst (waitForOperation (sample_env live_vm) sample_cfg (Some (an_operation ''RUNNING'')) sample_world) =
      Returns None"
    by code_simp
qed

lemma write_messages_all:
  "write_messages errs (map Some items) =
     Returns (errs @ concat (map (\<lambda>v. oe_Message v @ [newline]) items))"
  by (induction items arbitrary: errs) simp_all

text \<open>
  The verdict on an answer: the error of the call, if there was one, else the messages of the
  errors that the operation carries, one per line, else no error.
\<close>

theorem checkOp_verdict:
  "checkOp (Some (oper\<lparr>op_Error := Some (map Some items)\<rparr>)) err =
     Returns (if err \<noteq> None then err
       else if items = [] then None
       else Some (ErrorString (concat (map (\<lambda>v. oe_Message v @ [newline]) items))))"
  by (cases items) (simp_all add: checkOp_def write_messages_all)

section \<open>Connecting to the machine\<close>

text \<open>
  C23. Polling for a connection dials the given host at most \<open>Retries\<close> times, never when \<open>Retries\<close> is
  not positive, and succeeds exactly when a handshake did. It never panics.
\<close>

theorem poll_verdict:
  assumes "ParsePrivateKey env pem = (signer, None)"
  shows "length (filter is_dial (calls_of (pollForSSHConnection env c h u pem) w)) \<le> nat (sint (Retries c)) \<and>
    (\<exists>err. fst (pollForSSHConnection env c h u pem w) = Returns err \<and>
       (err = None \<longleftrightarrow> CSshConn h u None \<in> set (calls_of (pollForSSHConnection env c h u pem) w)))"
  by (rule pollForSSHConnection_trace [OF assms, where cfg = c and h = h and u = u and w = w])
    (auto simp: calls_of_eq dest: poll_trace_dials poll_trace_verdict)

theorem poll_verdict_witness:
  "length (filter is_dial (calls_of (pollForSSHConnection (sample_env live_vm)
     (SSHConnectionConfig sample_cfg) ''10.0.0.1'' ''cloud-user'' ''pem'') sample_world)) \<le> 3"
proof -
  have "ParsePrivateKey (sample_env live_vm) ''pem'' = (''signer'', None)" by (simp add: sample_env_def)
  from poll_verdict [OF this, where c = "SSHConnectionConfig sample_cfg"] show ?thesis
    by (simp add: sample_cfg_def)
qed

lemma poll_trace_handshake:
  "poll_trace c h u n cs ok \<Longrightarrow> CSshConn h' u' (Some e) \<in> set cs \<Longrightarrow> \<not> ok \<and> last cs = CSshConn h u (Some e)"
  by (induction rule: poll_trace.induct) auto

text \<open>
  The first failed handshake ends the polling, whatever the number of retries left, although
  the error claims that all of them were made.
\<close>

theorem handshake_failure_ends_poll:
  assumes "CSshConn h' u' (Some e) \<in> set (calls_of (pollForSSHConnection env c h u pem) w)"
  shows "last (calls_of (pollForSSHConnection env c h u pem) w) = CSshConn h u (Some e) \<and>
    fst (pollForSSHConnection env c h u pem w) = Returns (Some (ErrorString
      (''could not connect to VM over SSH in '' @ fmt_d (sint (Retries c)) @ '' attempts'')))"
proof -
  obtain signer perr where parse: "ParsePrivateKey env pem = (signer, perr)" by fastforce
  show ?thesis
  proof (cases perr)
    case None
    with parse have "ParsePrivateKey env pem = (signer, None)" by simp
    then show ?thesis
      by (rule pollForSSHConnection_trace [where cfg = c and h = h and u = u and w = w])
        (use assms in \<open>auto simp: calls_of_eq dest: poll_trace_handshake\<close>)
  next
    case (Some e)
    with parse assms show ?thesis
      by (simp add: pollForSSHConnection_parse_error calls_of_def)
  qed
qed

lemma refused_handshake_calls:
  "calls_of (pollForSSHConnection ((sample_env live_vm)\<lparr>NewClientConn := \<lambda>c a u s e. (([], Some quota_error), e)\<rparr>)
     (SSHConnectionConfig sample_cfg) ''h'' ''u'' ''pem'') sample_world =
     [CDial ''tcp'' ''h:22'' 2000000000 None, CSshConn ''h'' ''u'' (Some quota_error)]"
  by code_simp

theorem handshake_failure_ends_poll_witness:
  "fst (pollForSSHConnection ((sample_env live_vm)\<lparr>NewClientConn := \<lambda>c a u s e. (([], Some quota_error), e)\<rparr>)
     (SSHConnectionConfig sample_cfg) ''h'' ''u'' ''pem'' sample_world) =
     Returns (Some (ErrorString ''could not connect to VM over SSH in 3 attempts''))"
proof -
  have "fmt_d (sint (Retries (SSHConnectionConfig sample_cfg))) = ''3''" by code_simp
  with handshake_failure_ends_poll [where env = "(sample_env live_vm)\<lparr>NewClientConn := \<lambda>c a u s e. (([], Some quota_error), e)\<rparr>"
      and c = "SSHConnectionConfig sample_cfg" and h = "''h''" and u = "''u''" and pem = "''pem''"
      and w = sample_world and h' = "''h''" and u' = "''u''" and e = quota_error]
  show ?thesis unfolding refused_handshake_calls by simp
qed

section \<open>The machine asked for\<close>

lemma append_disks_map:
  "append_disks ds xs = ds @ map Some (map (\<lambda>d. \<lparr>ad_AutoDelete = True, ad_Boot = False,
     ad_InitializeParams = Some \<lparr>ip_SourceImage = [], ip_DiskSizeGb = sizeGb d, ip_DiskType = disk_type d\<rparr>\<rparr>) xs)"
  by (induction ds xs rule: append_disks.induct) simp_all

text \<open>
  The disks of a new machine: the boot disk, then the additional disks of the spec in order, with
  their sizes; only the first is bootable, and all are deleted with the machine.
\<close>

theorem request_disks:
  "\<exists>data. in_Disks (insert_request cfg vm key) = Some (boot_disk_request cfg vm) # map Some data \<and>
    map (\<lambda>d. map_option ip_DiskSizeGb (ad_InitializeParams d)) data =
      map (\<lambda>d. Some (sizeGb d)) (elems (disks (spec vm))) \<and>
    ad_Boot (boot_disk_request cfg vm) \<and> list_all (\<lambda>d. \<not> ad_Boot d) data \<and>
    ad_AutoDelete (boot_disk_request cfg vm) \<and> list_all ad_AutoDelete data"
proof -
  let ?data = "map (\<lambda>d. \<lparr>ad_AutoDelete = True, ad_Boot = False, ad_InitializeParams = Some
      \<lparr>ip_SourceImage = [], ip_DiskSizeGb = sizeGb d, ip_DiskType = disk_type d\<rparr>\<rparr>) (elems (disks (spec vm)))"
  have "in_Disks (insert_request cfg vm key) = Some (boot_disk_request cfg vm) # map Some ?data"
    by (simp add: insert_request_def append_disks_map)
  then show ?thesis
    by (intro exI [of _ ?data]) (simp add: boot_disk_request_def list_all_iff)
qed

section \<open>Keys and finalizers\<close>

text \<open>
  What an event queues is what a pass reads: for an object whose name and namespace contain no
  slash, the three handlers add one key, and a pass over that key begins by reading the object of
  that namespace and name.
\<close>

theorem event_key_is_read:
  assumes "slash_free (vm_namespace vm)" "slash_free (vm_name vm)"
  shows "\<exists>key. handler_add (VMObject vm) q = (Returns (), rlq_Add key q) \<and>
    handler_update old (VMObject vm) q = (Returns (), rlq_Add key q) \<and>
    handler_delete (VMObject vm) q = (Returns (), rlq_Add key q) \<and>
    handler_delete (DeletedFinalStateUnknown stale (VMObject vm)) q = (Returns (), rlq_Add key q) \<and>
    (\<exists>vm' err rest. pass_calls env cfg key w = CVMGet (vm_namespace vm) (vm_name vm) vm' err # rest)"
proof -
  have key: "SplitMetaNamespaceKey (key_of (vm_namespace vm) (vm_name vm)) = (vm_namespace vm, vm_name vm, None)"
    using assms by (rule meta_key.decode_encode)
  with reconcile_obeys [of env cfg "key_of (vm_namespace vm) (vm_name vm)" w]
  have "\<exists>vm' err rest. pass_calls env cfg (key_of (vm_namespace vm) (vm_name vm)) w =
      CVMGet (vm_namespace vm) (vm_name vm) vm' err # rest"
    by (elim reconcile_runE) auto
  then show ?thesis by (intro exI [of _ "key_of (vm_namespace vm) (vm_name vm)"]) simp
qed

theorem event_key_is_read_witness:
  "\<exists>key vm' err rest. handler_add (VMObject live_vm) (new_rl_queue ()) = (Returns (), rlq_Add key (new_rl_queue ())) \<and>
    pass_calls (sample_env live_vm) sample_cfg key sample_world = CVMGet ''ci'' ''vm'' vm' err # rest"
proof -
  have "slash_free (vm_namespace live_vm)" "slash_free (vm_name live_vm)"
    "vm_namespace live_vm = ''ci''" "vm_name live_vm = ''vm''" by code_simp+
  with event_key_is_read [of live_vm "new_rl_queue ()" "VMObject live_vm" "''x''" "sample_env live_vm" sample_cfg sample_world]
  show ?thesis by metis
qed

text \<open>
  The finalizer that admission adds and the one that the controller drops are the same: dropping
  it after adding it leaves the object as dropping alone does, and adding it after dropping it as
  adding alone; and nothing but the list of finalizers is touched.
\<close>

theorem finalizer_roundtrip:
  "drop_finalizer (add_finalizer vm) = drop_finalizer vm \<and>
   add_finalizer (drop_finalizer vm) = add_finalizer vm \<and>
   has_finalizer (add_finalizer vm) \<and> \<not> has_finalizer (drop_finalizer vm) \<and>
   vm\<lparr>metadata := (metadata vm)\<lparr>om_finalizers := om_finalizers (metadata (drop_finalizer vm))\<rparr>\<rparr> = drop_finalizer vm"
proof -
  have "drop_finalizer vm = vm\<lparr>metadata := (metadata vm)\<lparr>om_finalizers :=
      Slice (sorted_list_of_set (set (vm_finalizers vm) - {VirtualMachineFinalizer}))\<rparr>\<rparr>" for vm
    using key_map.listed_del_new [of "[VirtualMachineFinalizer]" "vm_finalizers vm"]
    by (simp add: drop_finalizer_def Let_def)
  moreover have "add_finalizer vm = vm\<lparr>metadata := (metadata vm)\<lparr>om_finalizers :=
      Slice (sorted_list_of_set (insert VirtualMachineFinalizer (set (vm_finalizers vm))))\<rparr>\<rparr>" for vm
    using key_map.listed_ins_new [of "[VirtualMachineFinalizer]" "vm_finalizers vm"]
    by (simp add: add_finalizer_def Let_def)
  ultimately show ?thesis by (simp add: has_finalizer_def set_insort_key)
qed

end
